(* ===== verification/Prelude.thy ===== *)
theory Prelude
  imports Main "HOL-Library.AList" "HOL-Library.Word"
begin

text \<open>
  Shared vocabulary of the development: the type synonyms of the Go values the
  components exchange, the collections of simplification rules that the component
  proofs draw on, generic facts on association lists (the model of a Go map whose
  entries are enumerated), and the two abstract interfaces that several components
  share: a transition system with an invariant, and a component that keeps its last
  good state.
\<close>

named_theorems go_str \<open>evaluation of the model of package strings and strconv\<close>
named_theorems hdr_simps \<open>algebra of http.Header\<close>
named_theorems cfg_defs \<open>unfolding of configuration checks\<close>

type_synonym bytes = "char list"
  \<comment> \<open>a Go \<open>[]byte\<close>; a Go \<open>string\<close> is a byte sequence too\<close>

type_synonym duration = int
  \<comment> \<open>\<open>time.Duration\<close>: nanoseconds\<close>

abbreviation second :: duration where "second \<equiv> 1000000000"
abbreviation millisecond :: duration where "millisecond \<equiv> 1000000"

subsection \<open>64-bit signed integers\<close>

text \<open>Go's \<open>int\<close> and \<open>int64\<close> arithmetic wraps around in two's complement.\<close>

definition wrap64 :: "int \<Rightarrow> int" where
  "wrap64 x = (x + 2 ^ 63) mod 2 ^ 64 - 2 ^ 63"

definition in_int64 :: "int \<Rightarrow> bool" where
  "in_int64 x \<longleftrightarrow> - (2 ^ 63) \<le> x \<and> x < 2 ^ 63"

lemma wrap64_id [simp]: "in_int64 x \<Longrightarrow> wrap64 x = x"
  by (simp add: wrap64_def in_int64_def)

lemma wrap64_in_int64 [simp]: "in_int64 (wrap64 x)"
proof -
  have "0 \<le> (x + 2 ^ 63) mod 2 ^ 64" and "(x + 2 ^ 63) mod 2 ^ 64 < (2 ^ 64 :: int)"
    by (rule pos_mod_sign, simp) (rule pos_mod_bound, simp)
  then show ?thesis by (simp add: wrap64_def in_int64_def)
qed

lemma wrap64_is_signed_word: "wrap64 x = sint (word_of_int x :: 64 word)"
proof -
  have "sint (word_of_int x :: 64 word) = signed_take_bit 63 x"
    by (simp add: signed_of_int)
  then show ?thesis
    by (simp add: wrap64_def signed_take_bit_eq_take_bit_shift take_bit_eq_mod algebra_simps)
qed

subsection \<open>Association lists as enumerated Go maps\<close>

definition lookup_or :: "'v \<Rightarrow> ('k \<times> 'v) list \<Rightarrow> 'k \<Rightarrow> 'v" where
  "lookup_or d m k = (case map_of m k of None \<Rightarrow> d | Some v \<Rightarrow> v)"
  \<comment> \<open>Go's \<open>m[k]\<close>, the zero value for a missing key\<close>

lemma lookup_or_update [simp]:
  "lookup_or d (AList.update k v m) k' = (if k' = k then v else lookup_or d m k')"
  by (simp add: lookup_or_def AList.update_conv')

lemma lookup_or_delete [simp]:
  "lookup_or d (AList.delete k m) k' = (if k' = k then d else lookup_or d m k')"
  by (simp add: lookup_or_def AList.delete_conv')

lemma lookup_or_Nil [simp]: "lookup_or d [] k = d"
  by (simp add: lookup_or_def)

lemma alist_map_of_update [simp]: "map_of (AList.update k v m) = (map_of m)(k \<mapsto> v)"
  by (simp add: AList.update_conv')

lemma alist_map_of_delete [simp]: "map_of (AList.delete k m) = (map_of m)(k := None)"
  by (simp add: AList.delete_conv')

definition inc :: "('k \<Rightarrow> nat) \<Rightarrow> 'k \<Rightarrow> 'k \<Rightarrow> nat" where
  "inc f k = f(k := Suc (f k))"
  \<comment> \<open>\<open>CounterVec.WithLabelValues(k).Inc()\<close>\<close>

lemma inc_same [simp]: "inc f k k = Suc (f k)"
  by (simp add: inc_def)

lemma inc_other [simp]: "k' \<noteq> k \<Longrightarrow> inc f k k' = f k'"
  by (simp add: inc_def)

lemma find_append:
  "find P (xs @ ys) = (case find P xs of None \<Rightarrow> find P ys | Some x \<Rightarrow> Some x)"
  by (induction xs) auto

lemma distinct_concat_disjoint:
  assumes "distinct (concat xss)" and "i < length xss" and "j < length xss" and "i \<noteq> j"
  shows "set (xss ! i) \<inter> set (xss ! j) = {}"
proof -
  have "set (xss ! a) \<inter> set (xss ! b) = {}" if "a < b" "b < length xss" for a b
  proof -
    have "distinct (concat (take b xss) @ concat (drop b xss))"
      using assms(1) by (simp flip: concat_append)
    moreover have "take b xss ! a \<in> set (take b xss)"
      by (rule nth_mem) (use that in simp)
    then have "set (xss ! a) \<subseteq> set (concat (take b xss))"
      using that by auto
    moreover have "drop b xss = xss ! b # drop (Suc b) xss"
      using that by (simp add: Cons_nth_drop_Suc)
    then have "set (xss ! b) \<subseteq> set (concat (drop b xss))"
      by simp
    ultimately show ?thesis unfolding distinct_append by blast
  qed
  from this [of i j] this [of j i] assms(2-4) show ?thesis
    by (cases "i < j") auto
qed

subsection \<open>First failing check of a list\<close>

text \<open>
  A validation loop returns the error of the first element that fails. \<open>first_error\<close>
  is that loop; \<open>and_then\<close> chains two checks.
\<close>

fun first_error :: "('a \<Rightarrow> 'e option) \<Rightarrow> 'a list \<Rightarrow> 'e option" where
  "first_error f [] = None"
| "first_error f (x # xs) = (case f x of Some e \<Rightarrow> Some e | None \<Rightarrow> first_error f xs)"

definition and_then :: "'e option \<Rightarrow> 'e option \<Rightarrow> 'e option" where
  "and_then a b = (case a of Some e \<Rightarrow> Some e | None \<Rightarrow> b)"

definition check :: "bool \<Rightarrow> 'e \<Rightarrow> 'e option" where
  "check bad e = (if bad then Some e else None)"

lemma first_error_None [simp]: "first_error f xs = None \<longleftrightarrow> (\<forall>x \<in> set xs. f x = None)"
  by (induction xs) (auto split: option.splits)

lemma first_error_Some:
  "first_error f xs = Some e \<Longrightarrow> \<exists>x \<in> set xs. f x = Some e"
  by (induction xs) (auto split: option.splits)

lemma and_then_None [simp]: "and_then a b = None \<longleftrightarrow> a = None \<and> b = None"
  by (simp add: and_then_def split: option.splits)

lemma check_None [simp]: "check bad e = None \<longleftrightarrow> \<not> bad"
  by (simp add: check_def)

subsection \<open>Interface: transition systems with an invariant\<close>

inductive reach :: "('s \<Rightarrow> bool) \<Rightarrow> ('s \<Rightarrow> 's \<Rightarrow> bool) \<Rightarrow> 's \<Rightarrow> bool"
  for start :: "'s \<Rightarrow> bool" and step :: "'s \<Rightarrow> 's \<Rightarrow> bool" where
  reach_start: "start s \<Longrightarrow> reach start step s"
| reach_step: "reach start step s \<Longrightarrow> step s t \<Longrightarrow> reach start step t"

locale invariant_system =
  fixes start :: "'s \<Rightarrow> bool" and step :: "'s \<Rightarrow> 's \<Rightarrow> bool" and inv :: "'s \<Rightarrow> bool"
  assumes inv_start: "start s \<Longrightarrow> inv s"
    and inv_step: "inv s \<Longrightarrow> step s t \<Longrightarrow> inv t"
begin

lemma reach_inv: "reach start step s \<Longrightarrow> inv s"
  by (induction rule: reach.induct) (auto intro: inv_start inv_step)

lemma steps_inv: "inv s \<Longrightarrow> step\<^sup>*\<^sup>* s t \<Longrightarrow> inv t"
  by (rotate_tac 1, induction rule: rtranclp_induct) (auto intro: inv_step)

end

subsection \<open>Interface: a system that drives another one\<close>

text \<open>
  \<open>rel s a\<close> says that the system in state \<open>s\<close> holds a component in state \<open>a\<close>. Every step of the
  system is a step of the component or leaves it alone; so the component only gets into states it
  reaches by itself, and its invariants hold inside the system.
\<close>

locale simulation =
  fixes start :: "'s \<Rightarrow> bool" and step :: "'s \<Rightarrow> 's \<Rightarrow> bool"
    and cstart :: "'a \<Rightarrow> bool" and cstep :: "'a \<Rightarrow> 'a \<Rightarrow> bool" and rel :: "'s \<Rightarrow> 'a \<Rightarrow> bool"
  assumes sim_start: "start s \<Longrightarrow> rel s a \<Longrightarrow> reach cstart cstep a"
    and sim_step: "step s t \<Longrightarrow> rel t b \<Longrightarrow> \<exists>a. rel s a \<and> (b = a \<or> cstep a b)"
begin

lemma reach_component:
  assumes "reach start step s" and "rel s a"
  shows "reach cstart cstep a"
  using assms
proof (induction arbitrary: a rule: reach.induct)
  case (reach_start s)
  then show ?case by (rule sim_start)
next
  case (reach_step s t)
  from sim_step [OF reach_step.hyps(2) reach_step.prems] obtain b where "rel s b" "a = b \<or> cstep b a" by blast
  with reach_step.IH [of b] show ?case by (auto intro: reach.reach_step)
qed

end

locale component_invariant = simulation start step cstart cstep rel + component: invariant_system cstart cstep inv
  for start :: "'s \<Rightarrow> bool" and step and cstart :: "'a \<Rightarrow> bool" and cstep and rel and inv
begin

lemma reach_component_inv: "reach start step s \<Longrightarrow> rel s a \<Longrightarrow> inv a"
  by (rule component.reach_inv) (rule reach_component)

end

subsection \<open>Interface: a component that keeps its last good state\<close>

text \<open>
  \<open>apply_cfg c s\<close> tries to install \<open>c\<close>; the contract of a reload is that a rejected
  configuration leaves the active content in place and an accepted one makes its content active.
  Folding a list of attempts then leaves the content of the last accepted one active.
\<close>

locale last_good =
  fixes apply_cfg :: "'c \<Rightarrow> 's \<Rightarrow> 'e option \<times> 's"
    and content :: "'c \<Rightarrow> 'v"
    and active :: "'s \<Rightarrow> 'v option"
    and accepts :: "'c \<Rightarrow> bool"
    and okay :: "'s \<Rightarrow> bool"
  assumes accepted: "okay s \<Longrightarrow> accepts c \<Longrightarrow>
      apply_cfg c s = (None, snd (apply_cfg c s)) \<and> active (snd (apply_cfg c s)) = Some (content c)"
    and rejected: "okay s \<Longrightarrow> \<not> accepts c \<Longrightarrow>
      (\<exists>e. fst (apply_cfg c s) = Some e) \<and> active (snd (apply_cfg c s)) = active s"
    and okay_apply: "okay s \<Longrightarrow> okay (snd (apply_cfg c s))"
begin

lemma active_after:
  "okay s \<Longrightarrow> active (snd (apply_cfg c s)) = (if accepts c then Some (content c) else active s)"
  using accepted rejected by auto

lemma active_fold:
  "okay s \<Longrightarrow>
   active (fold (\<lambda>c s. snd (apply_cfg c s)) cs s) =
     (case filter accepts (rev cs) of [] \<Rightarrow> active s | c # _ \<Rightarrow> Some (content c))"
proof (induction cs arbitrary: s)
  case Nil
  then show ?case by simp
next
  case (Cons c cs)
  let ?s = "snd (apply_cfg c s)"
  from Cons.prems have "okay ?s" by (rule okay_apply)
  from Cons.IH [OF this] show ?case
    by (simp add: active_after [OF Cons.prems] split: list.splits)
qed

end

text \<open>The attempts on such a component are a system whose invariant includes where the active content
  came from: from the start or from an accepted attempt.\<close>

sublocale last_good \<subseteq> attempts: invariant_system "\<lambda>s. okay s \<and> active s = first"
  "\<lambda>s t. \<exists>c. t = snd (apply_cfg c s)" "\<lambda>s. okay s \<and> (active s = first \<or> (\<exists>c. accepts c \<and> active s = Some (content c)))"
  for first
proof
  fix s t
  assume inv: "okay s \<and> (active s = first \<or> (\<exists>c. accepts c \<and> active s = Some (content c)))" and "\<exists>c. t = snd (apply_cfg c s)"
  then obtain c where t: "t = snd (apply_cfg c s)" by blast
  show "okay t \<and> (active t = first \<or> (\<exists>c. accepts c \<and> active t = Some (content c)))"
    using inv unfolding t by (cases "accepts c") (simp_all add: active_after okay_apply, blast)
qed blast

end
