(* ===== verification/Go_Strings.thy ===== *)
theory Go_Strings
  imports Prelude
begin

text \<open>
  The parts of Go's packages \<open>strings\<close>, \<open>strconv\<close> and \<open>encoding/hex\<close> that the
  gateway uses, as executable functions on byte strings. Case mapping and white space
  are those of ASCII (every header name, method, host name and scope the gateway
  compares is ASCII). The facts are those the components need: characterisations of the
  trimming and searching functions, injectivity of \<open>strings.Join\<close> on parts without
  the separator, and the round trips of \<open>strconv\<close> and \<open>hex\<close>.
\<close>

section \<open>Package strings\<close>

definition has_prefix :: "string \<Rightarrow> string \<Rightarrow> bool" where
  "has_prefix s p \<longleftrightarrow> take (length p) s = p"

definition has_suffix :: "string \<Rightarrow> string \<Rightarrow> bool" where
  "has_suffix s p \<longleftrightarrow> length p \<le> length s \<and> drop (length s - length p) s = p"

definition trim_prefix :: "string \<Rightarrow> string \<Rightarrow> string" where
  "trim_prefix s p = (if has_prefix s p then drop (length p) s else s)"

definition trim_suffix :: "string \<Rightarrow> string \<Rightarrow> string" where
  "trim_suffix s p = (if has_suffix s p then take (length s - length p) s else s)"

fun contains :: "string \<Rightarrow> string \<Rightarrow> bool" where
  "contains [] sub \<longleftrightarrow> sub = []"
| "contains (c # cs) sub \<longleftrightarrow> has_prefix (c # cs) sub \<or> contains cs sub"

lemma has_prefix_append [simp]: "has_prefix (p @ s) p"
  by (simp add: has_prefix_def)

lemma has_prefix_iff: "has_prefix s p \<longleftrightarrow> (\<exists>t. s = p @ t)"
  by (metis append_take_drop_id has_prefix_append has_prefix_def)

lemma has_suffix_append [simp]: "has_suffix (s @ p) p"
  by (simp add: has_suffix_def)

lemma has_suffix_iff: "has_suffix s p \<longleftrightarrow> (\<exists>t. s = t @ p)"
proof
  assume "has_suffix s p"
  then have "s = take (length s - length p) s @ p"
    unfolding has_suffix_def by (metis append_take_drop_id)
  then show "\<exists>t. s = t @ p" by blast
next
  assume "\<exists>t. s = t @ p"
  then show "has_suffix s p" by auto
qed

lemma has_prefix_Nil [simp]: "has_prefix s []"
  by (simp add: has_prefix_def)

lemma has_prefix_Cons [simp]:
  "has_prefix (c # cs) (d # ds) \<longleftrightarrow> c = d \<and> has_prefix cs ds"
  by (auto simp: has_prefix_def)

lemma has_prefix_Nil_Cons [simp]: "\<not> has_prefix [] (d # ds)"
  by (simp add: has_prefix_def)

lemma trim_prefix_append [simp]: "trim_prefix (p @ s) p = s"
  by (simp add: trim_prefix_def)

lemma trim_prefix_Nil [simp]: "trim_prefix s [] = s"
  by (simp add: trim_prefix_def)

lemma trim_suffix_append [simp]: "trim_suffix (s @ p) p = s"
  by (simp add: trim_suffix_def)

lemma trim_suffix_slash:
  "s = trim_suffix s ''/'' \<or> s = trim_suffix s ''/'' @ ''/''"
  by (cases "has_suffix s ''/''") (auto simp: trim_suffix_def has_suffix_iff)

lemma contains_iff: "contains s sub \<longleftrightarrow> (\<exists>a b. s = a @ sub @ b)"
proof (induction s)
  case Nil
  then show ?case by simp
next
  case (Cons c cs)
  show ?case
  proof
    assume "contains (c # cs) sub"
    then consider "has_prefix (c # cs) sub" | "contains cs sub" by auto
    then show "\<exists>a b. c # cs = a @ sub @ b"
    proof cases
      case 1
      then obtain t where "c # cs = [] @ sub @ t" by (auto simp: has_prefix_iff)
      then show ?thesis by blast
    next
      case 2
      with Cons.IH obtain a b where "cs = a @ sub @ b" by blast
      then have "c # cs = (c # a) @ sub @ b" by simp
      then show ?thesis by blast
    qed
  next
    assume "\<exists>a b. c # cs = a @ sub @ b"
    then obtain a b where ab: "c # cs = a @ sub @ b" by blast
    show "contains (c # cs) sub"
    proof (cases a)
      case Nil
      with ab have "has_prefix (c # cs) sub" by (auto simp: has_prefix_iff)
      then show ?thesis by simp
    next
      case (Cons x a')
      with ab have "cs = a' @ sub @ b" by simp
      with Cons.IH show ?thesis by auto
    qed
  qed
qed

text \<open>ASCII case mapping and white space.\<close>

definition lower_char :: "char \<Rightarrow> char" where
  "lower_char c = (let n = of_char c :: nat in if 65 \<le> n \<and> n \<le> 90 then char_of (n + 32) else c)"

definition upper_char :: "char \<Rightarrow> char" where
  "upper_char c = (let n = of_char c :: nat in if 97 \<le> n \<and> n \<le> 122 then char_of (n - 32) else c)"

definition to_lower :: "string \<Rightarrow> string" where
  "to_lower = map lower_char"

definition to_upper :: "string \<Rightarrow> string" where
  "to_upper = map upper_char"

definition equal_fold :: "string \<Rightarrow> string \<Rightarrow> bool" where
  "equal_fold a b \<longleftrightarrow> to_lower a = to_lower b"

definition is_space :: "char \<Rightarrow> bool" where
  "is_space c \<longleftrightarrow> of_char c \<in> {9, 10, 11, 12, 13, 32 :: nat}"

definition trim_right :: "(char \<Rightarrow> bool) \<Rightarrow> string \<Rightarrow> string" where
  "trim_right P s = rev (dropWhile P (rev s))"

definition trim_func :: "(char \<Rightarrow> bool) \<Rightarrow> string \<Rightarrow> string" where
  "trim_func P s = trim_right P (dropWhile P s)"

definition trim_space :: "string \<Rightarrow> string" where
  "trim_space s = trim_func is_space s"

lemma lower_char_idem [simp]: "lower_char (lower_char c) = lower_char c"
  by (simp add: lower_char_def Let_def)

lemma to_lower_idem [simp]: "to_lower (to_lower s) = to_lower s"
  by (simp add: to_lower_def)

text \<open>\<open>strings.Split\<close> at a single byte, \<open>strings.Fields\<close>, \<open>strings.Join\<close>, \<open>strings.Cut\<close>.\<close>

fun split_by :: "(char \<Rightarrow> bool) \<Rightarrow> string \<Rightarrow> string list" where
  "split_by P [] = [[]]"
| "split_by P (c # cs) =
     (if P c then [] # split_by P cs
      else case split_by P cs of [] \<Rightarrow> [[c]] | w # ws \<Rightarrow> (c # w) # ws)"

definition split_char :: "string \<Rightarrow> char \<Rightarrow> string list" where
  "split_char s sep = split_by (\<lambda>c. c = sep) s"

definition fields :: "string \<Rightarrow> string list" where
  "fields s = filter (\<lambda>w. w \<noteq> []) (split_by is_space s)"

fun join :: "string list \<Rightarrow> string \<Rightarrow> string" where
  "join [] sep = []"
| "join [x] sep = x"
| "join (x # y # xs) sep = x @ sep @ join (y # xs) sep"

definition cut :: "string \<Rightarrow> char \<Rightarrow> string \<times> string \<times> bool" where
  "cut s sep = (case dropWhile (\<lambda>c. c \<noteq> sep) s of
      [] \<Rightarrow> (s, [], False)
    | _ # after \<Rightarrow> (takeWhile (\<lambda>c. c \<noteq> sep) s, after, True))"

function replace_all :: "string \<Rightarrow> string \<Rightarrow> string \<Rightarrow> string" where
  "replace_all [] old new = []"
| "replace_all (c # cs) old new =
     (if old \<noteq> [] \<and> has_prefix (c # cs) old
      then new @ replace_all (drop (length old) (c # cs)) old new
      else c # replace_all cs old new)"
  by pat_completeness auto
termination
  by (relation "measure (\<lambda>(s, old, new). length s)")
     (auto simp del: length_greater_0_conv simp: length_greater_0_conv [symmetric])

lemma split_by_nonempty [simp]: "split_by P s \<noteq> []"
  by (induction s) (auto split: list.splits)

lemma split_by_no_sep: "w \<in> set (split_by P s) \<Longrightarrow> c \<in> set w \<Longrightarrow> \<not> P c"
proof (induction s arbitrary: w)
  case Nil
  then show ?case by simp
next
  case (Cons d s)
  obtain v vs where v: "split_by P s = v # vs" by (cases "split_by P s") auto
  with Cons.IH [of v] Cons.IH [of w]
  have "c \<in> set v \<Longrightarrow> \<not> P c" and "w \<in> set vs \<Longrightarrow> c \<in> set w \<Longrightarrow> \<not> P c" by simp_all
  with Cons.prems v show ?case by (auto split: if_splits)
qed

lemma split_by_clean: "\<forall>c \<in> set s. \<not> P c \<Longrightarrow> split_by P s = [s]"
  by (induction s) auto

lemma split_by_append:
  "\<forall>c \<in> set w. \<not> P c \<Longrightarrow> P d \<Longrightarrow> split_by P (w @ d # s) = w # split_by P s"
  by (induction w) auto

lemma fields_no_space: "w \<in> set (fields s) \<Longrightarrow> w \<noteq> [] \<and> (\<forall>c \<in> set w. \<not> is_space c)"
  using split_by_no_sep [of w is_space s] by (auto simp: fields_def)

lemma split_by_join:
  "ws \<noteq> [] \<Longrightarrow> \<forall>w \<in> set ws. \<forall>c \<in> set w. \<not> P c \<Longrightarrow> P d \<Longrightarrow> split_by P (join ws [d]) = ws"
proof (induction ws "[d]" rule: join.induct)
  case 1
  then show ?case by simp
next
  case (2 x)
  then show ?case by (simp add: split_by_clean)
next
  case (3 x y xs)
  then show ?case by (simp add: split_by_append)
qed

lemma fields_join:
  assumes "\<forall>w \<in> set ws. w \<noteq> [] \<and> (\<forall>c \<in> set w. \<not> is_space c)"
  shows "fields (join ws '' '') = ws"
proof (cases "ws = []")
  case True
  then show ?thesis by (simp add: fields_def)
next
  case False
  have "is_space (CHR '' '')" by (simp add: is_space_def)
  then have "split_by is_space (join ws '' '') = ws"
    using assms False by (intro split_by_join) auto
  then show ?thesis using assms by (simp add: fields_def)
qed

lemma join_inj:
  assumes "join xs [d] = join ys [d]"
    and "\<forall>w \<in> set xs. d \<notin> set w" and "\<forall>w \<in> set ys. d \<notin> set w"
    and "xs \<noteq> []" and "ys \<noteq> []"
  shows "xs = ys"
proof -
  have "xs = split_by (\<lambda>c. c = d) (join xs [d])"
    by (rule split_by_join [symmetric]) (use assms(2,4) in \<open>auto simp only:\<close>)
  also have "\<dots> = split_by (\<lambda>c. c = d) (join ys [d])"
    by (simp only: assms(1))
  also have "\<dots> = ys"
    by (rule split_by_join) (use assms(3,5) in \<open>auto simp only:\<close>)
  finally show ?thesis .
qed

lemma replace_all_absent: "\<not> contains s old \<Longrightarrow> replace_all s old new = s"
  by (induction s old new rule: replace_all.induct) auto

definition replace_char :: "char \<Rightarrow> char \<Rightarrow> string \<Rightarrow> string" where
  "replace_char a b s = map (\<lambda>c. if c = a then b else c) s"
  \<comment> \<open>\<open>strings.ReplaceAll\<close> of one byte by another\<close>

lemma replace_char_is_replace_all: "replace_all s [a] [b] = replace_char a b s"
  by (induction s) (auto simp: replace_char_def)

section \<open>Package strconv\<close>

definition digit_char :: "nat \<Rightarrow> char" where
  "digit_char d = char_of (48 + d)"

definition is_digit :: "char \<Rightarrow> bool" where
  "is_digit c \<longleftrightarrow> 48 \<le> (of_char c :: nat) \<and> (of_char c :: nat) \<le> 57"

definition digit_val :: "char \<Rightarrow> nat" where
  "digit_val c = of_char c - 48"

fun format_nat :: "nat \<Rightarrow> string" where
  "format_nat n = (if n < 10 then [digit_char n] else format_nat (n div 10) @ [digit_char (n mod 10)])"

declare format_nat.simps [simp del]

definition format_int :: "int \<Rightarrow> string" where
  "format_int v = (if v < 0 then ''-'' @ format_nat (nat (- v)) else format_nat (nat v))"

definition digits_val :: "string \<Rightarrow> nat" where
  "digits_val s = foldl (\<lambda>n c. 10 * n + digit_val c) 0 s"

definition parse_uint64 :: "string \<Rightarrow> nat option" where
  "parse_uint64 s = (if s \<noteq> [] \<and> list_all is_digit s \<and> digits_val s < 2 ^ 64
                     then Some (digits_val s) else None)"

definition parse_int64 :: "string \<Rightarrow> int option" where
  "parse_int64 s =
     (let (neg, ds) = (case s of
            [] \<Rightarrow> (False, [])
          | c # cs \<Rightarrow> if c = CHR ''-'' then (True, cs)
                     else if c = CHR ''+'' then (False, cs) else (False, s))
      in if ds = [] \<or> \<not> list_all is_digit ds then None
         else if neg then (if digits_val ds \<le> 2 ^ 63 then Some (- int (digits_val ds)) else None)
         else (if digits_val ds < 2 ^ 63 then Some (int (digits_val ds)) else None))"

lemma of_char_digit_char: "d < 10 \<Longrightarrow> (of_char (digit_char d) :: nat) = 48 + d"
  by (simp add: digit_char_def)

lemma is_digit_digit_char: "d < 10 \<Longrightarrow> is_digit (digit_char d)"
  by (simp add: is_digit_def of_char_digit_char)

lemma format_nat_nonempty [simp]: "format_nat n \<noteq> []"
  by (subst format_nat.simps) simp

lemma format_nat_digits: "list_all is_digit (format_nat n)"
proof (induction n rule: format_nat.induct)
  case (1 n)
  show ?case
    by (subst format_nat.simps) (use 1 in \<open>auto simp: is_digit_digit_char\<close>)
qed

lemma digits_val_snoc: "digits_val (s @ [c]) = 10 * digits_val s + digit_val c"
  by (simp add: digits_val_def)

lemma digits_val_format_nat: "digits_val (format_nat n) = n"
proof (induction n rule: format_nat.induct)
  case (1 n)
  show ?case
  proof (cases "n < 10")
    case True
    then show ?thesis
      by (subst format_nat.simps) (simp add: digits_val_def digit_val_def of_char_digit_char)
  next
    case False
    then show ?thesis
      by (subst format_nat.simps)
         (simp add: 1 digits_val_snoc digit_val_def of_char_digit_char)
  qed
qed

lemma parse_uint64_format: "n < 2 ^ 64 \<Longrightarrow> parse_uint64 (format_nat n) = Some n"
  by (simp add: parse_uint64_def format_nat_digits digits_val_format_nat)

lemma format_nat_hd: "\<exists>c cs. format_nat n = c # cs \<and> is_digit c"
  using format_nat_digits [of n] by (cases "format_nat n") auto

lemma parse_int64_digits:
  assumes "list_all is_digit ds" and "ds \<noteq> []"
  shows "parse_int64 ds = (if digits_val ds < 2 ^ 63 then Some (int (digits_val ds)) else None)"
proof -
  obtain c cs where ds: "ds = c # cs" using assms(2) by (cases ds) auto
  with assms(1) have "c \<noteq> CHR ''-''" and "c \<noteq> CHR ''+''" by (auto simp: is_digit_def)
  with ds assms(1) show ?thesis by (simp add: parse_int64_def)
qed

lemma parse_int64_format_int:
  assumes "in_int64 v"
  shows "parse_int64 (format_int v) = Some v"
proof (cases "v < 0")
  case True
  then have "format_int v = CHR ''-'' # format_nat (nat (- v))" by (simp add: format_int_def)
  moreover have "nat (- v) \<le> 2 ^ 63" using assms unfolding in_int64_def by (simp add: nat_le_iff)
  ultimately show ?thesis using True
    by (simp add: parse_int64_def format_nat_digits digits_val_format_nat)
next
  case False
  then have "nat v < 2 ^ 63" using assms by (simp add: in_int64_def)
  with False show ?thesis
    by (simp add: format_int_def parse_int64_digits format_nat_digits digits_val_format_nat)
qed

lemma format_int_inj: "in_int64 v \<Longrightarrow> in_int64 w \<Longrightarrow> format_int v = format_int w \<Longrightarrow> v = w"
  by (metis option.inject parse_int64_format_int)

lemma parse_int64_range: "parse_int64 s = Some v \<Longrightarrow> in_int64 v"
  by (auto simp: parse_int64_def in_int64_def Let_def split: if_splits list.splits)

section \<open>Package encoding/hex\<close>

definition hex_digit :: "nat \<Rightarrow> char" where
  "hex_digit d = (if d < 10 then char_of (48 + d) else char_of (87 + d))"

definition hex_val :: "char \<Rightarrow> nat option" where
  "hex_val c = (let n = of_char c :: nat in
     if 48 \<le> n \<and> n \<le> 57 then Some (n - 48)
     else if 97 \<le> n \<and> n \<le> 102 then Some (n - 87)
     else if 65 \<le> n \<and> n \<le> 70 then Some (n - 55)
     else None)"

fun hex_encode :: "bytes \<Rightarrow> string" where
  "hex_encode [] = []"
| "hex_encode (c # cs) =
     hex_digit (of_char c div 16) # hex_digit (of_char c mod 16) # hex_encode cs"

fun hex_decode :: "string \<Rightarrow> bytes option" where
  "hex_decode [] = Some []"
| "hex_decode [c] = None"
| "hex_decode (a # b # cs) =
     (case (hex_val a, hex_val b) of
        (Some x, Some y) \<Rightarrow> map_option ((#) (char_of (16 * x + y))) (hex_decode cs)
      | _ \<Rightarrow> None)"

lemma hex_val_hex_digit: "d < 16 \<Longrightarrow> hex_val (hex_digit d) = Some d"
  by (auto simp: hex_val_def hex_digit_def Let_def)

lemma of_char_bound: "(of_char c :: nat) < 256"
  by (rule nat_of_char_less_256)

lemma hex_decode_encode: "hex_decode (hex_encode bs) = Some bs"
proof (induction bs)
  case Nil
  then show ?case by simp
next
  case (Cons c bs)
  have "(of_char c :: nat) div 16 < 16" using of_char_bound [of c] by linarith
  with Cons show ?case by (simp add: hex_val_hex_digit)
qed

lemma length_hex_decode: "hex_decode s = Some bs \<Longrightarrow> length s = 2 * length bs"
  by (induction s arbitrary: bs rule: hex_decode.induct) (auto split: option.splits prod.splits)

lemma length_hex_encode [simp]: "length (hex_encode bs) = 2 * length bs"
  by (induction bs) auto

lemma hex_encode_inj: "hex_encode a = hex_encode b \<Longrightarrow> a = b"
  by (metis hex_decode_encode option.inject)


section \<open>Errors\<close>

text \<open>
  An error made by \<open>errors.New\<close> or \<open>fmt.Errorf\<close> is its format string with the
  arguments; \<open>error_text\<close> is its \<open>Error()\<close> text for the verbs the gateway uses
  (\<open>%q\<close> on strings without characters that need escapes, \<open>%s\<close>, \<open>%d\<close>, \<open>%v\<close>).
\<close>

datatype go_error = Errorf string "string list"

fun render_format :: "string \<Rightarrow> string list \<Rightarrow> string" where
  "render_format (c # v # cs) (a # args) =
     (if c = CHR ''%''
      then (if v = CHR ''q'' then [CHR 0x22] @ a @ [CHR 0x22] else a) @ render_format cs args
      else c # render_format (v # cs) (a # args))"
| "render_format cs args = cs"

fun error_text :: "go_error \<Rightarrow> string" where
  "error_text (Errorf format args) = render_format format args"

end
