(* ===== verification/Go_Http.thy ===== *)
theory Go_Http
  imports Go_Strings
begin

text \<open>
  The values of \<open>net/http\<close> that the gateway handles: header maps with canonical keys,
  URLs, requests, body readers, responses and response writers, with \<open>writeFault\<close>,
  \<open>writeJSON\<close> and \<open>statusWriter\<close> of the gateway itself. A header map is an
  association list (Go iterates over its entries), a body that was produced by the JSON
  encoder is kept as the encoded value. The locale \<open>header_ops\<close> is the contract of
  \<open>http.Header\<close> that header transformations rely on.
\<close>

section \<open>Header maps\<close>

type_synonym header = "(string \<times> string list) list"

definition valid_field_byte :: "char \<Rightarrow> bool" where
  "valid_field_byte c \<longleftrightarrow> (let n = of_char c :: nat in
     48 \<le> n \<and> n \<le> 57 \<or> 65 \<le> n \<and> n \<le> 90 \<or> 97 \<le> n \<and> n \<le> 122 \<or>
     c \<in> set ''!#$%&*+-.^_`|~'' \<or> n = 39)"
  \<comment> \<open>a byte of an RFC 7230 token\<close>

fun canon_bytes :: "bool \<Rightarrow> string \<Rightarrow> string" where
  "canon_bytes up [] = []"
| "canon_bytes up (c # cs) =
     (if up then upper_char c else lower_char c) # canon_bytes (c = CHR ''-'') cs"

definition canonical_key :: "string \<Rightarrow> string" where
  "canonical_key k = (if list_all valid_field_byte k then canon_bytes True k else k)"
  \<comment> \<open>\<open>textproto.CanonicalMIMEHeaderKey\<close>\<close>

definition header_get :: "header \<Rightarrow> string \<Rightarrow> string" where
  "header_get h k = (case map_of h (canonical_key k) of Some (v # _) \<Rightarrow> v | _ \<Rightarrow> [])"

definition header_set :: "header \<Rightarrow> string \<Rightarrow> string \<Rightarrow> header" where
  "header_set h k v = AList.update (canonical_key k) [v] h"

definition header_add :: "header \<Rightarrow> string \<Rightarrow> string \<Rightarrow> header" where
  "header_add h k v = AList.update (canonical_key k) (lookup_or [] h (canonical_key k) @ [v]) h"

definition header_del :: "header \<Rightarrow> string \<Rightarrow> header" where
  "header_del h k = AList.delete (canonical_key k) h"

definition header_bytes :: "header \<Rightarrow> int" where
  "header_bytes h = (\<Sum>(k, vs) \<leftarrow> h. int (length k) + (\<Sum>v \<leftarrow> vs. int (length v)))"
  \<comment> \<open>\<open>headerBytes\<close>\<close>

definition copy_header :: "header \<Rightarrow> header \<Rightarrow> header" where
  "copy_header dst src = fold (\<lambda>(k, vs) d. fold (\<lambda>v d. header_add d k v) vs d) src dst"
  \<comment> \<open>\<open>copyHeader\<close>\<close>

definition header_wf :: "header \<Rightarrow> bool" where
  "header_wf h \<longleftrightarrow> distinct (map fst h) \<and> (\<forall>k \<in> fst ` set h. canonical_key k = k)"
  \<comment> \<open>what \<open>net/http\<close> delivers: one entry per key, keys in canonical form\<close>

lemma upper_char_idem [simp]: "upper_char (upper_char c) = upper_char c"
  by (auto simp: upper_char_def Let_def)

lemma dash_upper [simp]: "upper_char c = CHR ''-'' \<longleftrightarrow> c = CHR ''-''"
proof
  assume u: "upper_char c = CHR ''-''"
  show "c = CHR ''-''"
  proof (rule ccontr)
    assume "c \<noteq> CHR ''-''"
    with u have n: "97 \<le> (of_char c :: nat)" "(of_char c :: nat) \<le> 122"
      and e: "char_of ((of_char c :: nat) - 32) = CHR ''-''"
      by (auto simp: upper_char_def Let_def split: if_splits)
    from e have "(of_char (char_of ((of_char c :: nat) - 32)) :: nat) = 45" by simp
    with n show False by simp
  qed
qed (simp add: upper_char_def)

lemma dash_lower [simp]: "lower_char c = CHR ''-'' \<longleftrightarrow> c = CHR ''-''"
proof
  assume u: "lower_char c = CHR ''-''"
  show "c = CHR ''-''"
  proof (rule ccontr)
    assume "c \<noteq> CHR ''-''"
    with u have n: "65 \<le> (of_char c :: nat)" "(of_char c :: nat) \<le> 90"
      and e: "char_of ((of_char c :: nat) + 32) = CHR ''-''"
      by (auto simp: lower_char_def Let_def split: if_splits)
    from e have "(of_char (char_of ((of_char c :: nat) + 32)) :: nat) = 45" by simp
    with n show False by simp
  qed
qed (simp add: lower_char_def)

lemma valid_upper: "valid_field_byte c \<Longrightarrow> valid_field_byte (upper_char c)"
  by (auto simp: valid_field_byte_def upper_char_def Let_def)

lemma valid_lower: "valid_field_byte c \<Longrightarrow> valid_field_byte (lower_char c)"
  by (auto simp: valid_field_byte_def lower_char_def Let_def)

lemma canon_bytes_idem: "canon_bytes up (canon_bytes up k) = canon_bytes up k"
  by (induction up k rule: canon_bytes.induct) auto

lemma canon_bytes_valid: "list_all valid_field_byte k \<Longrightarrow> list_all valid_field_byte (canon_bytes up k)"
  by (induction up k rule: canon_bytes.induct) (auto simp: valid_upper valid_lower)

lemma canonical_key_idem [simp]: "canonical_key (canonical_key k) = canonical_key k"
  by (simp add: canonical_key_def canon_bytes_idem canon_bytes_valid)

lemma header_get_set [hdr_simps]:
  "header_get (header_set h k v) k' = (if canonical_key k' = canonical_key k then v else header_get h k')"
  by (simp add: header_get_def header_set_def)

lemma header_get_del [hdr_simps]:
  "header_get (header_del h k) k' = (if canonical_key k' = canonical_key k then [] else header_get h k')"
  by (simp add: header_get_def header_del_def)

lemma header_wf_set: "header_wf h \<Longrightarrow> header_wf (header_set h k v)"
  unfolding header_wf_def header_set_def
  by (simp add: AList.distinct_update dom_update)

lemma header_wf_del: "header_wf h \<Longrightarrow> header_wf (header_del h k)"
  unfolding header_wf_def header_del_def
  using AList.dom_delete_subset [of "canonical_key k" h] by (blast intro: AList.distinct_delete)

lemma header_wf_add: "header_wf h \<Longrightarrow> header_wf (header_add h k v)"
  unfolding header_wf_def header_add_def
  by (simp add: AList.distinct_update dom_update)

lemma header_wf_Nil [simp]: "header_wf []"
  by (simp add: header_wf_def)

subsection \<open>Interface: the header operations\<close>

locale header_ops =
  fixes get :: "'h \<Rightarrow> string \<Rightarrow> string"
    and put :: "'h \<Rightarrow> string \<Rightarrow> string \<Rightarrow> 'h"
    and del :: "'h \<Rightarrow> string \<Rightarrow> 'h"
    and key :: "string \<Rightarrow> string"
    and wf :: "'h \<Rightarrow> bool"
  assumes get_put: "get (put h k v) k' = (if key k' = key k then v else get h k')"
    and get_del: "get (del h k) k' = (if key k' = key k then [] else get h k')"
    and wf_put: "wf h \<Longrightarrow> wf (put h k v)"
    and wf_del: "wf h \<Longrightarrow> wf (del h k)"
begin

lemma get_del_all:
  "get (fold (\<lambda>k h. del h k) ks h) k' = (if key k' \<in> key ` set ks then [] else get h k')"
  by (induction ks arbitrary: h) (auto simp: get_del)

lemma get_put_all:
  "get (fold (\<lambda>(k, v) h. put h k v) kvs h) k' =
     (case find (\<lambda>kv. key (fst kv) = key k') (rev kvs) of
        None \<Rightarrow> get h k' | Some kv \<Rightarrow> snd kv)"
proof (induction kvs arbitrary: h)
  case Nil
  then show ?case by simp
next
  case (Cons kv kvs)
  then show ?case
    by (cases kv, cases "find (\<lambda>kv. key (fst kv) = key k') (rev kvs)")
       (auto simp: find_append get_put)
qed

lemma wf_del_all: "wf h \<Longrightarrow> wf (fold (\<lambda>k h. del h k) ks h)"
  by (induction ks arbitrary: h) (auto intro: wf_del)

lemma wf_put_all: "wf h \<Longrightarrow> wf (fold (\<lambda>(k, v) h. put h k v) kvs h)"
  by (induction kvs arbitrary: h) (auto intro: wf_put)

end

interpretation hdr: header_ops header_get header_set header_del canonical_key header_wf
  by unfold_locales (simp_all add: hdr_simps header_wf_set header_wf_del)

section \<open>URLs, requests, body readers\<close>

record url =
  u_scheme :: string
  u_user :: "string option"
  u_host :: string
  u_path :: string
  u_raw_query :: string
  u_fragment :: string

datatype read_error = MaxBytesError | ReadFailed

text \<open>
  A reader is the bytes it will deliver and the error it ends with, if it does not end
  with \<open>io.EOF\<close>.
\<close>

record reader =
  rd_data :: bytes
  rd_err :: "read_error option"

definition limit_reader :: "reader \<Rightarrow> int \<Rightarrow> reader" where
  "limit_reader r n =
     (if int (length (rd_data r)) < n then r
      else \<lparr>rd_data = take (nat n) (rd_data r), rd_err = None\<rparr>)"
  \<comment> \<open>\<open>io.LimitReader\<close>: at most \<open>n\<close> bytes, then end of file; nothing when \<open>n \<le> 0\<close>\<close>

definition max_bytes_reader :: "reader \<Rightarrow> int \<Rightarrow> reader" where
  "max_bytes_reader r n =
     (let m = max 0 n in
      if int (length (rd_data r)) \<le> m then r
      else \<lparr>rd_data = take (nat m) (rd_data r), rd_err = Some MaxBytesError\<rparr>)"
  \<comment> \<open>\<open>http.MaxBytesReader\<close>: an error once more than \<open>n\<close> bytes are read\<close>

definition read_all :: "reader \<Rightarrow> read_error + bytes" where
  "read_all r = (case rd_err r of Some e \<Rightarrow> Inl e | None \<Rightarrow> Inr (rd_data r))"

record http_request =
  q_method :: string
  q_url :: url
  q_request_uri :: string  \<comment> \<open>\<open>request.URL.RequestURI()\<close>\<close>
  q_header :: header
  q_host :: string
  q_remote_addr :: string
  q_tls :: bool
  q_content_length :: int
  q_body :: "reader option"

record http_response =
  p_status :: int
  p_header :: header
  p_body :: reader
  p_request_url :: "url option"  \<comment> \<open>\<open>response.Request.URL\<close>\<close>

section \<open>JSON values and response writers\<close>

datatype json = JNull | JBool bool | JNum string | JStr string
  | JArr "json list" | JObj "(string \<times> json) list"

datatype chunk = Bytes bytes | Encoded json

record writer =
  w_header :: header
  w_code :: int     \<comment> \<open>0 until the header is written\<close>
  w_body :: "chunk list"

definition new_writer :: writer where
  "new_writer = \<lparr>w_header = [], w_code = 0, w_body = []\<rparr>"

definition set_header :: "string \<Rightarrow> string \<Rightarrow> writer \<Rightarrow> writer" where
  "set_header k v w = w\<lparr>w_header := header_set (w_header w) k v\<rparr>"

definition add_header :: "string \<Rightarrow> string \<Rightarrow> writer \<Rightarrow> writer" where
  "add_header k v w = w\<lparr>w_header := header_add (w_header w) k v\<rparr>"

definition write_header :: "int \<Rightarrow> writer \<Rightarrow> writer" where
  "write_header status w = (if w_code w = 0 then w\<lparr>w_code := status\<rparr> else w)"
  \<comment> \<open>a second call of \<open>WriteHeader\<close> is ignored\<close>

definition write_chunk :: "chunk \<Rightarrow> writer \<Rightarrow> writer" where
  "write_chunk c w = (let w = write_header 200 w in w\<lparr>w_body := w_body w @ [c]\<rparr>)"

text \<open>\<open>statusWriter\<close> of \<open>app.go\<close>: it remembers the first status for the request counter.\<close>

record status_writer =
  sw_inner :: writer
  sw_status :: int

definition sw_write_header :: "int \<Rightarrow> status_writer \<Rightarrow> status_writer" where
  "sw_write_header status w =
     (let w = (if sw_status w = 0 then w\<lparr>sw_status := status\<rparr> else w)
      in w\<lparr>sw_inner := write_header status (sw_inner w)\<rparr>)"

definition sw_write :: "chunk \<Rightarrow> status_writer \<Rightarrow> status_writer" where
  "sw_write data w =
     (let w = (if sw_status w = 0 then sw_write_header 200 w else w)
      in w\<lparr>sw_inner := write_chunk data (sw_inner w)\<rparr>)"

definition sw_set_header :: "string \<Rightarrow> string \<Rightarrow> status_writer \<Rightarrow> status_writer" where
  "sw_set_header k v w = w\<lparr>sw_inner := set_header k v (sw_inner w)\<rparr>"

definition sw_copy_header :: "header \<Rightarrow> status_writer \<Rightarrow> status_writer" where
  "sw_copy_header h w = w\<lparr>sw_inner := (sw_inner w)\<lparr>w_header := copy_header (w_header (sw_inner w)) h\<rparr>\<rparr>"

lemma sw_status_code:
  assumes "sw_status w = w_code (sw_inner w)"
  shows "sw_status (sw_write_header s w) = w_code (sw_inner (sw_write_header s w))"
    and "sw_status (sw_write d w) = w_code (sw_inner (sw_write d w))"
  using assms
  by (simp_all add: sw_write_header_def sw_write_def write_header_def write_chunk_def Let_def)

lemma sw_status_set_header:
  "sw_status w = w_code (sw_inner w) \<Longrightarrow>
   sw_status (sw_set_header k v w) = w_code (sw_inner (sw_set_header k v w))"
  by (simp add: sw_set_header_def set_header_def)

lemma sw_status_copy_header:
  "sw_status w = w_code (sw_inner w) \<Longrightarrow>
   sw_status (sw_copy_header h w) = w_code (sw_inner (sw_copy_header h w))"
  by (simp add: sw_copy_header_def)

lemma sw_inner_simps:
  "sw_inner (sw_set_header k v w) = set_header k v (sw_inner w)"
  "sw_inner (sw_write_header s w) = write_header s (sw_inner w)"
  "sw_status w = w_code (sw_inner w) \<Longrightarrow> sw_inner (sw_write c w) = write_chunk c (sw_inner w)"
  by (simp_all add: sw_set_header_def sw_write_header_def sw_write_def write_header_def write_chunk_def Let_def)

text \<open>\<open>writeFault\<close> and \<open>writeJSON\<close>, on a writer whose header is not yet written.\<close>

definition fault_json :: "string \<Rightarrow> string \<Rightarrow> json" where
  "fault_json code msg = JObj [(''error'', JObj [(''code'', JStr code), (''message'', JStr msg)])]"

definition write_fault :: "int \<Rightarrow> string \<Rightarrow> string \<Rightarrow> writer \<Rightarrow> writer" where
  "write_fault status code msg w =
     (let w = set_header ''Content-Type'' ''application/json; charset=utf-8'' w;
          w = set_header ''Cache-Control'' ''no-store'' w;
          w = set_header ''X-Content-Type-Options'' ''nosniff'' w;
          w = write_header status w
      in write_chunk (Encoded (fault_json code msg)) w)"

definition sw_fault :: "int \<Rightarrow> string \<Rightarrow> string \<Rightarrow> status_writer \<Rightarrow> status_writer" where
  "sw_fault status code msg w =
     (let w = sw_set_header ''Content-Type'' ''application/json; charset=utf-8'' w;
          w = sw_set_header ''Cache-Control'' ''no-store'' w;
          w = sw_set_header ''X-Content-Type-Options'' ''nosniff'' w;
          w = sw_write_header status w
      in sw_write (Encoded (fault_json code msg)) w)"
  \<comment> \<open>\<open>writeFault\<close> on a \<open>statusWriter\<close>\<close>

lemma sw_fault_inner:
  "sw_status w = w_code (sw_inner w) \<Longrightarrow>
   sw_inner (sw_fault status code msg w) = write_fault status code msg (sw_inner w)"
  unfolding sw_fault_def write_fault_def Let_def
  by (simp only: sw_inner_simps sw_status_code sw_status_set_header)

definition write_json :: "int \<Rightarrow> json \<Rightarrow> writer \<Rightarrow> writer" where
  "write_json status v w =
     (let w = set_header ''Content-Type'' ''application/json; charset=utf-8'' w;
          w = set_header ''X-Content-Type-Options'' ''nosniff'' w;
          w = write_header status w
      in write_chunk (Encoded v) w)"

text \<open>\<open>http.Error\<close> of the Go library.\<close>

definition http_Error :: "string \<Rightarrow> int \<Rightarrow> writer \<Rightarrow> writer" where
  "http_Error msg status w =
     (let w = w\<lparr>w_header := header_del (w_header w) ''Content-Length''\<rparr>;
          w = set_header ''Content-Type'' ''text/plain; charset=utf-8'' w;
          w = set_header ''X-Content-Type-Options'' ''nosniff'' w
      in write_chunk (Bytes (msg @ [CHR 0x0A])) (write_header status w))"

lemma write_fault_code [simp]:
  "w_code w = 0 \<Longrightarrow> s \<noteq> 0 \<Longrightarrow> w_code (write_fault s c m w) = s"
  by (simp add: write_fault_def set_header_def write_header_def write_chunk_def Let_def)

lemma write_json_code [simp]:
  "w_code w = 0 \<Longrightarrow> s \<noteq> 0 \<Longrightarrow> w_code (write_json s v w) = s"
  by (simp add: write_json_def set_header_def write_header_def write_chunk_def Let_def)

lemma http_Error_code [simp]:
  "w_code w = 0 \<Longrightarrow> s \<noteq> 0 \<Longrightarrow> w_code (http_Error msg s w) = s"
  by (simp add: http_Error_def set_header_def write_header_def write_chunk_def Let_def)

lemma new_writer_code [simp]: "w_code new_writer = 0"
  by (simp add: new_writer_def)

end
