(* ===== verification/Gateway_Config.thy ===== *)
theory Gateway_Config
  imports Go_Http
begin

text \<open>
  \<open>cmd/gateway/config.go\<close>: the configuration records, \<open>defaultConfig\<close>, the two
  \<open>Validate\<close> methods with every check in the order of the source, and from
  \<open>app.go\<close> \<open>normalizeRoute\<close> and \<open>routePatterns\<close>. An error carries
  the format string of the source and its arguments.

  Go maps whose entries a loop visits are association lists in the order of that visit.
  The parsers \<open>url.Parse\<close>, \<open>net.ParseIP\<close> and \<open>net.ParseCIDR\<close> are the fields of
  the parameter \<open>parsers\<close>; nothing is assumed of them.
\<close>

section \<open>Configuration data\<close>

record ipnet =
  net_ip :: bytes
  net_mask :: bytes

record parsers =
  url_parse :: "string \<Rightarrow> url option"
  parse_ip :: "string \<Rightarrow> bytes option"
  parse_cidr :: "string \<Rightarrow> ipnet option"

record circuitBreakerConfig =
  cb_failures :: nat
  cb_open_for :: duration

record jsonTransform =
  jt_add :: "(string \<times> json) list"
  jt_remove :: "string list"
  jt_rename :: "(string \<times> string) list"

record transformConfig =
  tr_set_headers :: "(string \<times> string) list"
  tr_remove_headers :: "string list"
  tr_json :: jsonTransform

record cachePolicy =
  cp_ttl :: duration
  cp_max_body_bytes :: int
  cp_per_principal :: bool
  cp_vary_headers :: "string list"

record ratePolicy =
  rp_requests :: int
  rp_burst :: int
  rp_window :: duration

record staticAPIKey =
  ak_name :: string
  ak_sha256 :: string
  ak_scopes :: "string list"

record authPolicy =
  ap_type :: string
  ap_keys :: "staticAPIKey list"
  ap_issuer :: string
  ap_jwks_url :: string
  ap_audiences :: "string list"

record routeConfig =
  r_name :: string
  r_hosts :: "string list"
  r_methods :: "string list"
  r_path_prefix :: string
  r_path_rewrite :: string
  r_rewrite_redirects :: bool
  r_upstreams :: "string list"
  r_health_path :: string
  r_health_interval :: duration
  r_timeout :: duration
  r_max_body_bytes :: int
  r_auth_policy :: string
  r_scopes :: "string list"
  r_rate_policy :: string
  r_concurrency :: int
  r_retries :: int
  r_circuit_breaker :: circuitBreakerConfig
  r_cache_policy :: string
  r_request_transform :: transformConfig
  r_response_transform :: transformConfig
  r_streaming :: bool

record telemetryConfig =
  tc_service_name :: string
  tc_otlp_endpoint :: string

record dynamicDNSConfig =
  dd_enabled :: bool
  dd_check_url :: string
  dd_update_url :: string
  dd_interval :: duration
  dd_timeout :: duration

record GatewayConfig =
  g_schema_version :: int
  g_version :: int
  g_routes :: "routeConfig list"
  g_auth_policies :: "(string \<times> authPolicy) list"
  g_rate_policies :: "(string \<times> ratePolicy) list"
  g_cache_policies :: "(string \<times> cachePolicy) list"
  g_telemetry :: telemetryConfig
  g_dynamic_dns :: dynamicDNSConfig
  g_trusted_proxies :: "string list"
  g_cors_allowed_origins :: "string list"
  g_max_header_bytes :: int

record tlsConfig =
  tls_cert_file :: string
  tls_key_file :: string

record adminConfig =
  ad_enabled :: bool
  ad_external_url :: string
  ad_bootstrap_key_sha :: string
  ad_oidc_issuer :: string
  ad_oidc_client_id :: string
  ad_oidc_client_secret :: string
  ad_oidc_scopes :: "string list"
  ad_prometheus_url :: string
  ad_session_ttl :: duration

record applicationConfig =
  a_environment :: string
  a_http_address :: string
  a_redis_url :: string
  a_dynamic_dns_bearer :: string
  a_control_only :: bool
  a_admin :: adminConfig
  a_tls :: tlsConfig
  a_gateway :: GatewayConfig

type_synonym config_error = go_error

section \<open>Defaults\<close>

abbreviation gatewaySchemaVersion :: int where "gatewaySchemaVersion \<equiv> 1"

definition empty_admin :: adminConfig where
  "empty_admin = \<lparr>ad_enabled = False, ad_external_url = [], ad_bootstrap_key_sha = [],
     ad_oidc_issuer = [], ad_oidc_client_id = [], ad_oidc_client_secret = [], ad_oidc_scopes = [],
     ad_prometheus_url = [], ad_session_ttl = 0\<rparr>"

definition empty_gateway :: GatewayConfig where
  "empty_gateway = \<lparr>g_schema_version = 0, g_version = 0, g_routes = [], g_auth_policies = [],
     g_rate_policies = [], g_cache_policies = [],
     g_telemetry = \<lparr>tc_service_name = [], tc_otlp_endpoint = []\<rparr>,
     g_dynamic_dns = \<lparr>dd_enabled = False, dd_check_url = [], dd_update_url = [], dd_interval = 0, dd_timeout = 0\<rparr>,
     g_trusted_proxies = [], g_cors_allowed_origins = [], g_max_header_bytes = 0\<rparr>"

definition defaultConfig :: applicationConfig where
  "defaultConfig = \<lparr>a_environment = ''development'', a_http_address = [], a_redis_url = [],
     a_dynamic_dns_bearer = [], a_control_only = False,
     a_admin = empty_admin\<lparr>ad_session_ttl := 8 * 3600 * second\<rparr>,
     a_tls = \<lparr>tls_cert_file = [], tls_key_file = []\<rparr>,
     a_gateway = empty_gateway\<lparr>
       g_schema_version := gatewaySchemaVersion, g_max_header_bytes := 2 ^ 20,
       g_telemetry := \<lparr>tc_service_name = ''vial-gateway'', tc_otlp_endpoint = []\<rparr>\<rparr>\<rparr>"

section \<open>Checks\<close>

definition scope_set :: "string list \<Rightarrow> string set" where
  "scope_set scopes = set (filter (\<lambda>s. s \<noteq> []) scopes)"

definition hash_bytes :: "string \<Rightarrow> bytes option" where
  "hash_bytes value = (case hex_decode value of
      None \<Rightarrow> None
    | Some decoded \<Rightarrow> if length decoded \<noteq> 32 then None else Some decoded)"

definition http_scheme :: "url \<Rightarrow> bool" where
  "http_scheme u \<longleftrightarrow> u_scheme u = ''http'' \<or> u_scheme u = ''https''"

definition parseHTTPURL :: "parsers \<Rightarrow> string \<Rightarrow> string \<Rightarrow> config_error + url" where
  "parseHTTPURL P name raw = (case url_parse P (trim_space raw) of
      None \<Rightarrow> Inl (Errorf ''%s URL must be an absolute HTTP or HTTPS URL'' [name])
    | Some parsed \<Rightarrow>
        if \<not> http_scheme parsed \<or> u_host parsed = [] then Inl (Errorf ''%s URL must be an absolute HTTP or HTTPS URL'' [name])
        else if u_user parsed \<noteq> None \<or> u_raw_query parsed \<noteq> [] \<or> u_fragment parsed \<noteq> []
        then Inl (Errorf ''%s URL cannot contain credentials, a query, or a fragment'' [name])
        else Inr parsed)"

definition url_error :: "config_error + url \<Rightarrow> config_error option" where
  "url_error r = (case r of Inl e \<Rightarrow> Some e | Inr _ \<Rightarrow> None)"

definition transform_operations :: "transformConfig \<Rightarrow> nat" where
  "transform_operations t =
     length (tr_set_headers t) + length (tr_remove_headers t) + length (jt_add (tr_json t)) +
     length (jt_remove (tr_json t)) + length (jt_rename (tr_json t))"

definition json_transform_empty :: "jsonTransform \<Rightarrow> bool" where
  "json_transform_empty t \<longleftrightarrow>
     length (jt_add t) = 0 \<and> length (jt_remove t) = 0 \<and> length (jt_rename t) = 0"

definition auth_policy_validate :: "parsers \<Rightarrow> string \<Rightarrow> authPolicy \<Rightarrow> config_error option" where
  "auth_policy_validate P name policy =
     (if ap_type policy = ''none'' then None
      else if ap_type policy = ''api_key'' then
        first_error (\<lambda>key.
          if ak_name key = [] then Some (Errorf ''auth policy %q has unnamed key'' [name])
          else if hash_bytes (ak_sha256 key) = None then Some (Errorf ''auth policy %q key %q has invalid SHA-256'' [name, ak_name key])
          else None) (ap_keys policy)
      else if ap_type policy = ''jwt'' then
        (if ap_issuer policy = [] \<or> ap_jwks_url policy = [] \<or> ap_audiences policy = []
         then Some (Errorf ''JWT auth policy %q requires issuer, jwks_url, and audiences'' [name])
         else url_error (parseHTTPURL P (name @ '' JWKS'') (ap_jwks_url policy)))
      else Some (Errorf ''auth policy %q has unsupported type %q'' [name, ap_type policy]))"

definition dynamic_dns_url_check :: "parsers \<Rightarrow> string \<Rightarrow> string \<times> string \<Rightarrow> config_error option" where
  "dynamic_dns_url_check P environment nv = (case nv of (name, raw) \<Rightarrow>
     (case url_parse P raw of
        None \<Rightarrow> Some (Errorf ''dynamic_dns %s must be an absolute HTTP or HTTPS URL without credentials or a fragment'' [name])
      | Some parsed \<Rightarrow>
          if u_host parsed = [] \<or> \<not> http_scheme parsed \<or> u_user parsed \<noteq> None \<or> u_fragment parsed \<noteq> []
          then Some (Errorf ''dynamic_dns %s must be an absolute HTTP or HTTPS URL without credentials or a fragment'' [name])
          else if environment = ''production'' \<and> u_scheme parsed \<noteq> ''https''
          then Some (Errorf ''dynamic_dns %s must use HTTPS in production'' [name])
          else None))"

definition dynamic_dns_validate :: "parsers \<Rightarrow> string \<Rightarrow> dynamicDNSConfig \<Rightarrow> config_error option" where
  "dynamic_dns_validate P environment c =
     (if \<not> dd_enabled c then None
      else if \<not> contains (dd_update_url c) ''{ip}'' then Some (Errorf ''dynamic_dns update_url must contain {ip}'' [])
      else and_then
        (first_error (dynamic_dns_url_check P environment)
           [(''check_url'', dd_check_url c), (''update_url'', dd_update_url c)])
        (if dd_interval c < 10 * second then Some (Errorf ''dynamic_dns interval must be at least 10s'' [])
         else if dd_timeout c \<le> 0 \<or> dd_timeout c > dd_interval c then Some (Errorf ''dynamic_dns timeout must be positive and no greater than interval'' [])
         else None))"

definition trusted_proxy_check :: "parsers \<Rightarrow> string \<Rightarrow> config_error option" where
  "trusted_proxy_check P t =
     (if parse_ip P t = None \<and> parse_cidr P t = None then Some (Errorf ''trusted proxy %q is not an IP address or CIDR'' [t]) else None)"

definition rate_policy_check :: "string \<times> ratePolicy \<Rightarrow> config_error option" where
  "rate_policy_check np = (case np of (name, policy) \<Rightarrow>
     if rp_requests policy \<le> 0 \<or> rp_burst policy < 0 \<or> rp_window policy \<le> 0
     then Some (Errorf ''rate policy %q requires positive requests/window and non-negative burst'' [name]) else None)"

definition cache_policy_check :: "string \<times> cachePolicy \<Rightarrow> config_error option" where
  "cache_policy_check np = (case np of (name, policy) \<Rightarrow>
     if cp_ttl policy \<le> 0 \<or> cp_max_body_bytes policy \<le> 0
     then Some (Errorf ''cache policy %q requires positive ttl and max_body_bytes'' [name]) else None)"

text \<open>
  The body of the route loop up to the conflict table, with the same order of checks.
\<close>

definition route_cache_check :: "GatewayConfig \<Rightarrow> routeConfig \<Rightarrow> config_error option" where
  "route_cache_check g route =
     (if r_cache_policy route = [] then None
      else (case map_of (g_cache_policies g) (r_cache_policy route) of
          None \<Rightarrow> Some (Errorf ''route %q references unknown cache policy %q'' [r_name route, r_cache_policy route])
        | Some cache \<Rightarrow>
            if r_auth_policy route \<noteq> [] \<and> \<not> cp_per_principal cache
            then Some (Errorf ''route %q authenticated caching requires per_principal'' [r_name route])
            else if r_streaming route then Some (Errorf ''route %q cannot combine streaming and caching'' [r_name route])
            else None))"

definition route_body_check :: "parsers \<Rightarrow> GatewayConfig \<Rightarrow> routeConfig \<Rightarrow> config_error option" where
  "route_body_check P g route =
     (if \<not> has_prefix (r_path_prefix route) ''/'' then Some (Errorf ''route %q path_prefix must start with /'' [r_name route])
      else if r_path_rewrite route \<noteq> [] \<and> \<not> has_prefix (r_path_rewrite route) ''/''
      then Some (Errorf ''route %q path_rewrite must start with /'' [r_name route])
      else if r_upstreams route = [] then Some (Errorf ''route %q requires at least one upstream'' [r_name route])
      else and_then
        (first_error (\<lambda>raw. url_error (parseHTTPURL P (r_name route @ '' upstream'') raw)) (r_upstreams route))
        (if r_timeout route < 0 \<or> r_max_body_bytes route < 0 \<or> r_concurrency route < 0 \<or> r_retries route < 0
         then Some (Errorf ''route %q contains a negative limit'' [r_name route])
         else if r_auth_policy route \<noteq> [] \<and> map_of (g_auth_policies g) (r_auth_policy route) = None
         then Some (Errorf ''route %q references unknown auth policy %q'' [r_name route, r_auth_policy route])
         else if r_rate_policy route \<noteq> [] \<and> map_of (g_rate_policies g) (r_rate_policy route) = None
         then Some (Errorf ''route %q references unknown rate policy %q'' [r_name route, r_rate_policy route])
         else and_then (route_cache_check g route)
           (if r_streaming route \<and> (r_retries route > 0 \<or>
                 \<not> json_transform_empty (tr_json (r_request_transform route)) \<or>
                 \<not> json_transform_empty (tr_json (r_response_transform route)))
            then Some (Errorf ''route %q streaming cannot use retries or body transforms'' [r_name route])
            else if transform_operations (r_request_transform route) +
                    transform_operations (r_response_transform route) > 128
            then Some (Errorf ''route %q has too many transform operations'' [r_name route])
            else None)))"

definition route_methods :: "routeConfig \<Rightarrow> string list" where
  "route_methods route = map to_upper (if r_methods route = [] then [''*''] else r_methods route)"

definition route_hosts :: "routeConfig \<Rightarrow> string list" where
  "route_hosts route = (if r_hosts route = [] then [''*''] else r_hosts route)"

abbreviation nul :: string where "nul \<equiv> [char_of (0::nat)]"

definition conflict_key :: "routeConfig \<Rightarrow> string \<Rightarrow> string \<Rightarrow> string" where
  "conflict_key route method host =
     method @ nul @ to_lower host @ nul @ trim_suffix (r_path_prefix route) ''/''"

type_synonym seen_routes = "(string \<times> string) list"

fun check_hosts :: "routeConfig \<Rightarrow> string \<Rightarrow> string list \<Rightarrow> seen_routes \<Rightarrow> config_error + seen_routes" where
  "check_hosts route method [] seen = Inr seen"
| "check_hosts route method (host # hosts) seen =
     (let key = conflict_key route method host; previous = lookup_or [] seen key in
      if previous \<noteq> [] then Inl (Errorf ''routes %q and %q conflict'' [previous, r_name route])
      else check_hosts route method hosts (AList.update key (r_name route) seen))"

fun check_methods :: "routeConfig \<Rightarrow> string list \<Rightarrow> seen_routes \<Rightarrow> config_error + seen_routes" where
  "check_methods route [] seen = Inr seen"
| "check_methods route (method # methods) seen =
     (if method \<noteq> ''*'' \<and> method = ''CONNECT'' then Inl (Errorf ''route %q cannot proxy CONNECT'' [r_name route])
      else (case check_hosts route method (route_hosts route) seen of
          Inl e \<Rightarrow> Inl e
        | Inr seen \<Rightarrow> check_methods route methods seen))"

fun check_routes :: "parsers \<Rightarrow> GatewayConfig \<Rightarrow> routeConfig list \<Rightarrow> string set \<Rightarrow> seen_routes
    \<Rightarrow> config_error option" where
  "check_routes P g [] seenNames seenRoutes = None"
| "check_routes P g (route # routes) seenNames seenRoutes =
     (if r_name route = [] \<or> r_name route \<in> seenNames then Some (Errorf ''route name %q is empty or duplicated'' [r_name route])
      else and_then (route_body_check P g route)
        (case check_methods route (route_methods route) seenRoutes of
           Inl e \<Rightarrow> Some e
         | Inr seenRoutes \<Rightarrow> check_routes P g routes (insert (r_name route) seenNames) seenRoutes))"

definition gateway_validate :: "parsers \<Rightarrow> GatewayConfig \<Rightarrow> string \<Rightarrow> bool \<Rightarrow> config_error option" where
  "gateway_validate P g environment allowNoRoutes =
     (if g_schema_version g \<noteq> gatewaySchemaVersion then Some (Errorf ''unsupported gateway schema_version %d'' [format_int (g_schema_version g)])
      else if g_version g < 1 then Some (Errorf ''gateway version must be positive'' [])
      else if g_routes g = [] \<and> \<not> allowNoRoutes then Some (Errorf ''at least one route is required'' [])
      else if g_max_header_bytes g < 0 then Some (Errorf ''max_header_bytes cannot be negative'' [])
      else and_then
        (first_error (\<lambda>origin. if origin = ''*'' \<and> environment \<noteq> ''development''
                              then Some (Errorf ''wildcard CORS is development-only'' []) else None) (g_cors_allowed_origins g))
        (and_then (first_error (trusted_proxy_check P) (g_trusted_proxies g))
        (and_then (dynamic_dns_validate P environment (g_dynamic_dns g))
        (and_then (first_error (\<lambda>(name, policy). auth_policy_validate P name policy) (g_auth_policies g))
        (and_then (first_error rate_policy_check (g_rate_policies g))
        (and_then (first_error cache_policy_check (g_cache_policies g))
        (check_routes P g (g_routes g) {} [])))))))"

definition oidc_configured :: "adminConfig \<Rightarrow> nat" where
  "oidc_configured ad =
     length (filter (\<lambda>field. field \<noteq> []) [ad_oidc_issuer ad, ad_oidc_client_id ad])"

definition external_url_check :: "parsers \<Rightarrow> string \<Rightarrow> adminConfig \<Rightarrow> config_error option" where
  "external_url_check P environment ad =
     (if ad_external_url ad = [] then None
      else (case url_parse P (ad_external_url ad) of
          None \<Rightarrow> Some (Errorf ''admin external_url must be an absolute HTTP or HTTPS URL'' [])
        | Some external \<Rightarrow>
            if u_host external = [] \<or> \<not> http_scheme external then Some (Errorf ''admin external_url must be an absolute HTTP or HTTPS URL'' [])
            else if environment = ''production'' \<and> u_scheme external \<noteq> ''https'' then Some (Errorf ''admin external_url must use HTTPS outside development'' [])
            else None))"

definition prometheus_url_check :: "parsers \<Rightarrow> adminConfig \<Rightarrow> config_error option" where
  "prometheus_url_check P ad =
     (if ad_prometheus_url ad = [] then None
      else (case url_parse P (ad_prometheus_url ad) of
          None \<Rightarrow> Some (Errorf ''admin prometheus_url must be an absolute HTTP or HTTPS URL without credentials, a query, or a fragment'' [])
        | Some metrics \<Rightarrow>
            if u_host metrics = [] \<or> \<not> http_scheme metrics \<or> u_user metrics \<noteq> None \<or>
               u_raw_query metrics \<noteq> [] \<or> u_fragment metrics \<noteq> []
            then Some (Errorf ''admin prometheus_url must be an absolute HTTP or HTTPS URL without credentials, a query, or a fragment'' []) else None))"

definition admin_validate :: "parsers \<Rightarrow> applicationConfig \<Rightarrow> config_error option" where
  "admin_validate P c = (let ad = a_admin c; configured = oidc_configured ad in
     if \<not> ad_enabled ad then None
     else if a_redis_url c = [] then Some (Errorf ''admin requires redis_url'' [])
     else if ad_bootstrap_key_sha ad \<noteq> [] \<and> hash_bytes (ad_bootstrap_key_sha ad) = None then Some (Errorf ''admin bootstrap_key_sha256 must contain 64 hexadecimal characters'' [])
     else if configured \<noteq> 0 \<and> configured \<noteq> 2 then Some (Errorf ''admin OIDC requires oidc_issuer and oidc_client_id'' [])
     else if configured > 0 \<and> ad_external_url ad = [] then Some (Errorf ''admin OIDC requires external_url'' [])
     else if configured > 0 \<and> ''gateway.admin'' \<notin> scope_set (ad_oidc_scopes ad) then Some (Errorf ''admin OIDC scopes must include gateway.admin'' [])
     else if a_environment c = ''production'' \<and> configured = 0 then Some (Errorf ''admin OIDC is required outside development'' [])
     else and_then (external_url_check P (a_environment c) ad)
       (if ad_session_ttl ad \<le> 0 then Some (Errorf ''admin session_ttl must be positive'' []) else prometheus_url_check P ad))"

definition redis_url_check :: "parsers \<Rightarrow> string \<Rightarrow> config_error option" where
  "redis_url_check P raw =
     (if raw = [] then None
      else (case url_parse P raw of
          None \<Rightarrow> Some (Errorf ''redis_url must be an absolute redis:// or rediss:// URL'' [])
        | Some parsed \<Rightarrow>
            if (u_scheme parsed \<noteq> ''redis'' \<and> u_scheme parsed \<noteq> ''rediss'') \<or> u_host parsed = []
            then Some (Errorf ''redis_url must be an absolute redis:// or rediss:// URL'' []) else None))"

definition app_validate :: "parsers \<Rightarrow> applicationConfig \<Rightarrow> config_error option" where
  "app_validate P c =
     (if trim_space (a_environment c) = [] then Some (Errorf ''environment is required'' [])
      else and_then (gateway_validate P (a_gateway c) (a_environment c) (a_control_only c))
        (and_then (redis_url_check P (a_redis_url c))
        (and_then (admin_validate P c)
        (if (tls_cert_file (a_tls c) = []) \<noteq> (tls_key_file (a_tls c) = []) then Some (Errorf ''TLS cert_file and key_file must be configured together'' []) else None))))"

section \<open>Route normalisation and mux patterns (app.go)\<close>

definition normalizeRoute :: "routeConfig \<Rightarrow> routeConfig" where
  "normalizeRoute route =
     (let route = (if r_timeout route = 0 then route\<lparr>r_timeout := 15 * second\<rparr> else route);
          route = (if r_max_body_bytes route = 0 then route\<lparr>r_max_body_bytes := 2 ^ 20\<rparr> else route);
          route = (if r_health_interval route = 0 then route\<lparr>r_health_interval := 10 * second\<rparr> else route);
          cb = r_circuit_breaker route;
          cb = (if cb_failures cb = 0 then cb\<lparr>cb_failures := 5\<rparr> else cb);
          cb = (if cb_open_for cb = 0 then cb\<lparr>cb_open_for := 30 * second\<rparr> else cb);
          route = route\<lparr>r_circuit_breaker := cb\<rparr>
      in if r_path_rewrite route = [] then route\<lparr>r_path_rewrite := r_path_prefix route\<rparr> else route)"

lemma normalizeRoute_fields [simp]:
  "r_timeout (normalizeRoute r) = (if r_timeout r = 0 then 15 * second else r_timeout r)"
  "r_max_body_bytes (normalizeRoute r) = (if r_max_body_bytes r = 0 then 2 ^ 20 else r_max_body_bytes r)"
  "r_health_interval (normalizeRoute r) = (if r_health_interval r = 0 then 10 * second else r_health_interval r)"
  "cb_failures (r_circuit_breaker (normalizeRoute r)) =
     (if cb_failures (r_circuit_breaker r) = 0 then 5 else cb_failures (r_circuit_breaker r))"
  "r_path_rewrite (normalizeRoute r) = (if r_path_rewrite r = [] then r_path_prefix r else r_path_rewrite r)"
  "r_name (normalizeRoute r) = r_name r" "r_path_prefix (normalizeRoute r) = r_path_prefix r"
  "r_retries (normalizeRoute r) = r_retries r" "r_concurrency (normalizeRoute r) = r_concurrency r"
  "r_upstreams (normalizeRoute r) = r_upstreams r" "r_health_path (normalizeRoute r) = r_health_path r"
  "r_auth_policy (normalizeRoute r) = r_auth_policy r" "r_scopes (normalizeRoute r) = r_scopes r"
  "r_rate_policy (normalizeRoute r) = r_rate_policy r" "r_cache_policy (normalizeRoute r) = r_cache_policy r"
  "r_streaming (normalizeRoute r) = r_streaming r" "r_hosts (normalizeRoute r) = r_hosts r"
  "r_methods (normalizeRoute r) = r_methods r" "r_rewrite_redirects (normalizeRoute r) = r_rewrite_redirects r"
  "r_request_transform (normalizeRoute r) = r_request_transform r"
  "r_response_transform (normalizeRoute r) = r_response_transform r"
  by (simp_all add: normalizeRoute_def Let_def)

lemma normalizeRoute_open_for [simp]:
  "cb_open_for (r_circuit_breaker (normalizeRoute r)) =
     (if cb_open_for (r_circuit_breaker r) = 0 then 30 * second else cb_open_for (r_circuit_breaker r))"
  by (simp add: normalizeRoute_def Let_def)

lemma normalizeRoute_idem:
  assumes "r_path_prefix r \<noteq> []"
  shows "normalizeRoute (normalizeRoute r) = normalizeRoute r"
proof (rule routeConfig.equality)
  show "r_circuit_breaker (normalizeRoute (normalizeRoute r)) = r_circuit_breaker (normalizeRoute r)"
    by (rule circuitBreakerConfig.equality) (simp_all del: One_nat_def)
qed (use assms in simp_all)

definition routePatterns :: "routeConfig \<Rightarrow> string list" where
  "routePatterns route =
     (let methods = (if r_methods route = [] then [''''] else r_methods route);
          hosts = (if r_hosts route = [] then [''''] else r_hosts route);
          base = trim_suffix (r_path_prefix route) ''/'';
          base = (if base = [] then ''/'' else base)
      in concat (map (\<lambda>method.
           let method = (if method \<noteq> [] then to_upper method @ '' '' else method) in
           concat (map (\<lambda>host.
             if base = ''/'' then [method @ to_lower host @ ''/'']
             else [method @ to_lower host @ base, method @ to_lower host @ base @ ''/'']) hosts)) methods))"


section \<open>What validation accepts\<close>

text \<open>
  The declarative meaning of an accepted configuration: conditions on each part,
  pairwise distinct route names and pairwise distinct conflict keys, with no order of
  checks and no tables.
\<close>

definition http_url_ok :: "parsers \<Rightarrow> string \<Rightarrow> bool" where
  "http_url_ok P raw \<longleftrightarrow> (case url_parse P (trim_space raw) of
      None \<Rightarrow> False
    | Some u \<Rightarrow> http_scheme u \<and> u_host u \<noteq> [] \<and> u_user u = None \<and> u_raw_query u = [] \<and> u_fragment u = [])"

definition auth_policy_ok :: "parsers \<Rightarrow> authPolicy \<Rightarrow> bool" where
  "auth_policy_ok P p \<longleftrightarrow>
     ap_type p = ''none'' \<or>
     ap_type p = ''api_key'' \<and> (\<forall>k \<in> set (ap_keys p). ak_name k \<noteq> [] \<and> hash_bytes (ak_sha256 k) \<noteq> None) \<or>
     ap_type p = ''jwt'' \<and> ap_issuer p \<noteq> [] \<and> ap_jwks_url p \<noteq> [] \<and> ap_audiences p \<noteq> [] \<and>
       http_url_ok P (ap_jwks_url p)"

definition dynamic_dns_url_ok :: "parsers \<Rightarrow> string \<Rightarrow> string \<Rightarrow> bool" where
  "dynamic_dns_url_ok P environment raw \<longleftrightarrow> (case url_parse P raw of
      None \<Rightarrow> False
    | Some u \<Rightarrow> u_host u \<noteq> [] \<and> http_scheme u \<and> u_user u = None \<and> u_fragment u = [] \<and>
        (environment = ''production'' \<longrightarrow> u_scheme u = ''https''))"

definition dynamic_dns_ok :: "parsers \<Rightarrow> string \<Rightarrow> dynamicDNSConfig \<Rightarrow> bool" where
  "dynamic_dns_ok P environment c \<longleftrightarrow> (dd_enabled c \<longrightarrow>
     contains (dd_update_url c) ''{ip}'' \<and>
     dynamic_dns_url_ok P environment (dd_check_url c) \<and>
     dynamic_dns_url_ok P environment (dd_update_url c) \<and>
     10 * second \<le> dd_interval c \<and> 0 < dd_timeout c \<and> dd_timeout c \<le> dd_interval c)"

definition cache_ref_ok :: "GatewayConfig \<Rightarrow> routeConfig \<Rightarrow> bool" where
  "cache_ref_ok g r \<longleftrightarrow> r_cache_policy r = [] \<or>
     (case map_of (g_cache_policies g) (r_cache_policy r) of
        None \<Rightarrow> False
      | Some c \<Rightarrow> (r_auth_policy r \<noteq> [] \<longrightarrow> cp_per_principal c) \<and> \<not> r_streaming r)"

definition route_ok :: "parsers \<Rightarrow> GatewayConfig \<Rightarrow> routeConfig \<Rightarrow> bool" where
  "route_ok P g r \<longleftrightarrow>
     r_name r \<noteq> [] \<and> has_prefix (r_path_prefix r) ''/'' \<and>
     (r_path_rewrite r \<noteq> [] \<longrightarrow> has_prefix (r_path_rewrite r) ''/'') \<and>
     r_upstreams r \<noteq> [] \<and> (\<forall>raw \<in> set (r_upstreams r). http_url_ok P raw) \<and>
     0 \<le> r_timeout r \<and> 0 \<le> r_max_body_bytes r \<and> 0 \<le> r_concurrency r \<and> 0 \<le> r_retries r \<and>
     (r_auth_policy r \<noteq> [] \<longrightarrow> r_auth_policy r \<in> dom (map_of (g_auth_policies g))) \<and>
     (r_rate_policy r \<noteq> [] \<longrightarrow> r_rate_policy r \<in> dom (map_of (g_rate_policies g))) \<and>
     cache_ref_ok g r \<and>
     (r_streaming r \<longrightarrow> r_retries r = 0 \<and> json_transform_empty (tr_json (r_request_transform r)) \<and>
        json_transform_empty (tr_json (r_response_transform r))) \<and>
     transform_operations (r_request_transform r) + transform_operations (r_response_transform r) \<le> 128 \<and>
     ''CONNECT'' \<notin> set (route_methods r)"

definition route_keys :: "routeConfig \<Rightarrow> string list" where
  "route_keys r = concat (map (\<lambda>m. map (conflict_key r m) (route_hosts r)) (route_methods r))"

definition valid_gateway :: "parsers \<Rightarrow> string \<Rightarrow> bool \<Rightarrow> GatewayConfig \<Rightarrow> bool" where
  "valid_gateway P environment allowNoRoutes g \<longleftrightarrow>
     g_schema_version g = 1 \<and> 1 \<le> g_version g \<and> (g_routes g \<noteq> [] \<or> allowNoRoutes) \<and>
     0 \<le> g_max_header_bytes g \<and>
     (''*'' \<in> set (g_cors_allowed_origins g) \<longrightarrow> environment = ''development'') \<and>
     (\<forall>t \<in> set (g_trusted_proxies g). parse_ip P t \<noteq> None \<or> parse_cidr P t \<noteq> None) \<and>
     dynamic_dns_ok P environment (g_dynamic_dns g) \<and>
     (\<forall>(name, p) \<in> set (g_auth_policies g). auth_policy_ok P p) \<and>
     (\<forall>(name, p) \<in> set (g_rate_policies g). 0 < rp_requests p \<and> 0 \<le> rp_burst p \<and> 0 < rp_window p) \<and>
     (\<forall>(name, p) \<in> set (g_cache_policies g). 0 < cp_ttl p \<and> 0 < cp_max_body_bytes p) \<and>
     (\<forall>r \<in> set (g_routes g). route_ok P g r) \<and>
     distinct (map r_name (g_routes g)) \<and>
     distinct (concat (map route_keys (g_routes g)))"

lemma early_return_None [simp]: "((if b then Some e else x) = None) \<longleftrightarrow> \<not> b \<and> x = None"
  by simp

lemma url_error_parse: "url_error (parseHTTPURL P name raw) = None \<longleftrightarrow> http_url_ok P raw"
  by (auto simp: url_error_def parseHTTPURL_def http_url_ok_def split: option.splits)

lemma parseHTTPURL_ok: "http_url_ok P raw \<Longrightarrow> \<exists>u. parseHTTPURL P name raw = Inr u \<and> http_scheme u \<and> u_host u \<noteq> []"
  by (auto simp: parseHTTPURL_def http_url_ok_def split: option.splits)

lemma auth_policy_validate_iff: "auth_policy_validate P name p = None \<longleftrightarrow> auth_policy_ok P p"
  unfolding auth_policy_validate_def auth_policy_ok_def by (auto simp: url_error_parse)

lemma dynamic_dns_url_check_iff:
  "dynamic_dns_url_check P environment (name, raw) = None \<longleftrightarrow> dynamic_dns_url_ok P environment raw"
  by (auto simp: dynamic_dns_url_check_def dynamic_dns_url_ok_def split: option.splits)

lemma dynamic_dns_validate_iff: "dynamic_dns_validate P environment c = None \<longleftrightarrow> dynamic_dns_ok P environment c"
  unfolding dynamic_dns_validate_def dynamic_dns_ok_def
  by (auto simp: dynamic_dns_url_check_iff simp del: first_error.simps)

lemma route_cache_check_iff: "route_cache_check g r = None \<longleftrightarrow> cache_ref_ok g r"
  by (auto simp: route_cache_check_def cache_ref_ok_def split: option.splits)

lemma route_body_check_iff:
  "r_name r \<noteq> [] \<and> route_body_check P g r = None \<and> ''CONNECT'' \<notin> set (route_methods r) \<longleftrightarrow> route_ok P g r"
  unfolding route_body_check_def route_ok_def
  by (auto simp: url_error_parse route_cache_check_iff)

subsection \<open>The conflict table\<close>

definition seen_wf :: "seen_routes \<Rightarrow> bool" where
  "seen_wf seen \<longleftrightarrow> (\<forall>k v. map_of seen k = Some v \<longrightarrow> v \<noteq> [])"

definition fresh_keys :: "string list \<Rightarrow> seen_routes \<Rightarrow> bool" where
  "fresh_keys ks seen \<longleftrightarrow> distinct ks \<and> set ks \<inter> dom (map_of seen) = {}"

lemma seen_lookup: "seen_wf seen \<Longrightarrow> lookup_or [] seen k \<noteq> [] \<longleftrightarrow> k \<in> dom (map_of seen)"
  by (auto simp: lookup_or_def seen_wf_def split: option.splits)

lemma seen_wf_update: "seen_wf seen \<Longrightarrow> v \<noteq> [] \<Longrightarrow> seen_wf (AList.update k v seen)"
  by (simp add: seen_wf_def)

lemma fresh_keys_append:
  "dom (map_of seen') = dom (map_of seen) \<union> set ks \<Longrightarrow>
   fresh_keys (ks @ ls) seen \<longleftrightarrow> fresh_keys ks seen \<and> fresh_keys ls seen'"
  by (auto simp: fresh_keys_def)

lemma fresh_keys_mono: "fresh_keys (ks @ ls) seen \<Longrightarrow> fresh_keys ks seen"
  by (auto simp: fresh_keys_def)

lemma check_hosts_spec:
  assumes "r_name route \<noteq> []" and "seen_wf seen"
  shows "case check_hosts route method hosts seen of
      Inl e \<Rightarrow> \<not> fresh_keys (map (conflict_key route method) hosts) seen
    | Inr seen' \<Rightarrow> fresh_keys (map (conflict_key route method) hosts) seen \<and> seen_wf seen' \<and>
        dom (map_of seen') = dom (map_of seen) \<union> set (map (conflict_key route method) hosts)"
  using assms(2)
proof (induction hosts arbitrary: seen)
  case Nil
  then show ?case by (simp add: fresh_keys_def)
next
  case (Cons host hosts)
  let ?k = "conflict_key route method host"
  let ?seen = "AList.update ?k (r_name route) seen"
  have ks: "fresh_keys (?k # ks) seen \<longleftrightarrow> ?k \<notin> dom (map_of seen) \<and> fresh_keys ks ?seen" for ks
    by (auto simp: fresh_keys_def)
  have "seen_wf ?seen" using Cons.prems assms(1) by (rule seen_wf_update)
  from Cons.IH [OF this] show ?case
    by (simp add: Let_def ks seen_lookup [OF Cons.prems] split: sum.splits) auto
qed

lemma check_methods_spec:
  assumes "r_name route \<noteq> []" and "seen_wf seen"
  shows "case check_methods route ms seen of
      Inl e \<Rightarrow> ''CONNECT'' \<in> set ms \<or>
        \<not> fresh_keys (concat (map (\<lambda>m. map (conflict_key route m) (route_hosts route)) ms)) seen
    | Inr seen' \<Rightarrow> ''CONNECT'' \<notin> set ms \<and> seen_wf seen' \<and>
        fresh_keys (concat (map (\<lambda>m. map (conflict_key route m) (route_hosts route)) ms)) seen \<and>
        dom (map_of seen') = dom (map_of seen) \<union>
          set (concat (map (\<lambda>m. map (conflict_key route m) (route_hosts route)) ms))"
  using assms(2)
proof (induction ms arbitrary: seen)
  case Nil
  then show ?case by (simp add: fresh_keys_def)
next
  case (Cons meth ms)
  let ?ks = "map (conflict_key route meth) (route_hosts route)"
  note H = check_hosts_spec [OF assms(1) Cons.prems, of meth "route_hosts route"]
  show ?case
  proof (cases "check_hosts route meth (route_hosts route) seen")
    case (Inl e)
    with H have "\<not> fresh_keys ?ks seen" by simp
    with Inl show ?thesis by (auto dest: fresh_keys_mono)
  next
    case (Inr seen1)
    with H have f: "fresh_keys ?ks seen" and w: "seen_wf seen1"
      and d: "dom (map_of seen1) = dom (map_of seen) \<union> set ?ks" by auto
    let ?L = "concat (map (\<lambda>m. map (conflict_key route m) (route_hosts route)) ms)"
    have "fresh_keys (?ks @ ?L) seen \<longleftrightarrow> fresh_keys ?L seen1"
      using fresh_keys_append [OF d] f by blast
    with Cons.IH [OF w] Inr d show ?thesis
      by (auto split: sum.splits)
  qed
qed

lemma check_routes_spec:
  "seen_wf seen \<Longrightarrow>
   check_routes P g routes names seen = None \<longleftrightarrow>
     (\<forall>r \<in> set routes. route_ok P g r) \<and> distinct (map r_name routes) \<and>
     r_name ` set routes \<inter> names = {} \<and> fresh_keys (concat (map route_keys routes)) seen"
proof (induction routes arbitrary: names seen)
  case Nil
  then show ?case by (simp add: fresh_keys_def)
next
  case (Cons route routes)
  show ?case
  proof (cases "r_name route = [] \<or> r_name route \<in> names \<or> route_body_check P g route \<noteq> None")
    case True
    then show ?thesis using route_body_check_iff [of route P g] by auto
  next
    case False
    then have n: "r_name route \<noteq> []" by simp
    note M = check_methods_spec [OF n Cons.prems, of "route_methods route", folded route_keys_def]
    show ?thesis
    proof (cases "check_methods route (route_methods route) seen")
      case (Inl e)
      with M have "''CONNECT'' \<in> set (route_methods route) \<or> \<not> fresh_keys (route_keys route) seen" by simp
      with Inl False show ?thesis
        using route_body_check_iff [of route P g] by (auto dest: fresh_keys_mono)
    next
      case (Inr seen1)
      with M have "''CONNECT'' \<notin> set (route_methods route)" and w: "seen_wf seen1"
        and f: "fresh_keys (route_keys route) seen"
        and d: "dom (map_of seen1) = dom (map_of seen) \<union> set (route_keys route)" by auto
      with False have ok: "route_ok P g route" using route_body_check_iff [of route P g] by auto
      from Cons.IH [OF w] Inr False ok f show ?thesis
        by (auto simp: fresh_keys_append [OF d])
    qed
  qed
qed

lemma gateway_validate_iff:
  "gateway_validate P g environment allow = None \<longleftrightarrow> valid_gateway P environment allow g"
proof -
  have routes: "check_routes P g (g_routes g) {} [] = None \<longleftrightarrow>
      (\<forall>r \<in> set (g_routes g). route_ok P g r) \<and> distinct (map r_name (g_routes g)) \<and>
      distinct (concat (map route_keys (g_routes g)))"
    by (simp add: check_routes_spec seen_wf_def fresh_keys_def)
  show ?thesis
    unfolding gateway_validate_def valid_gateway_def and_then_None first_error_None early_return_None
      routes dynamic_dns_validate_iff
    by (auto simp: trusted_proxy_check_def auth_policy_validate_iff rate_policy_check_def
        cache_policy_check_def split: prod.splits)
qed

end
