(* ===== verification/Sample_Config.thy ===== *)
theory Sample_Config
  imports Gateway_Config
begin

text \<open>
  A concrete configuration in the shape of \<open>testApplicationConfig\<close> of
  \<open>app_test.go\<close>, with a concrete URL and address parser, on which the theorems with
  hypotheses are instantiated. The parser covers absolute URLs without escapes and the
  one address the samples use.
\<close>

definition sample_url_parse :: "string \<Rightarrow> url option" where
  "sample_url_parse s =
     (let scheme = takeWhile (\<lambda>c. c \<noteq> CHR '':'') s; rest = drop (length scheme) s in
      if has_prefix rest ''://'' then
        (let auth = takeWhile (\<lambda>c. c \<noteq> CHR ''/'') (drop 3 rest);
             path = drop (3 + length auth) rest;
             (a, b, at) = cut auth (CHR ''@'')
         in Some \<lparr>u_scheme = scheme, u_user = (if at then Some a else None),
                  u_host = (if at then b else auth), u_path = path, u_raw_query = [], u_fragment = []\<rparr>)
      else None)"

definition sample_parsers :: parsers where
  "sample_parsers = \<lparr>url_parse = sample_url_parse,
     parse_ip = (\<lambda>s. if s = ''10.0.0.1'' then Some (map char_of [10::nat, 0, 0, 1])
                     else if s = ''203.0.113.7'' then Some (map char_of [203::nat, 0, 113, 7]) else None),
     parse_cidr = (\<lambda>s. if s = ''10.0.0.0/8''
                       then Some \<lparr>net_ip = map char_of [10::nat, 0, 0, 0], net_mask = map char_of [255::nat, 0, 0, 0]\<rparr>
                       else None)\<rparr>"

definition no_transform :: transformConfig where
  "no_transform = \<lparr>tr_set_headers = [], tr_remove_headers = [],
     tr_json = \<lparr>jt_add = [], jt_remove = [], jt_rename = []\<rparr>\<rparr>"

definition sample_route :: routeConfig where
  "sample_route = \<lparr>r_name = ''users'', r_hosts = [], r_methods = [''GET'', ''POST''],
     r_path_prefix = ''/api'', r_path_rewrite = ''/'', r_rewrite_redirects = False,
     r_upstreams = [''http://one.internal'', ''http://two.internal/base''], r_health_path = [], r_health_interval = 0,
     r_timeout = 2 * second, r_max_body_bytes = 64, r_auth_policy = ''clients'',
     r_scopes = [''users.read''], r_rate_policy = ''default'', r_concurrency = 2, r_retries = 1,
     r_circuit_breaker = \<lparr>cb_failures = 3, cb_open_for = second\<rparr>, r_cache_policy = ''private'',
     r_request_transform = no_transform\<lparr>tr_json := \<lparr>jt_add = [(''tenant'', JStr ''gateway'')],
        jt_remove = [''remove''], jt_rename = []\<rparr>\<rparr>,
     r_response_transform = no_transform, r_streaming = False\<rparr>"

definition open_route :: routeConfig where
  "open_route = sample_route\<lparr>r_name := ''open'', r_path_prefix := ''/open/'', r_path_rewrite := [],
     r_auth_policy := [], r_scopes := [], r_rate_policy := [], r_cache_policy := [], r_timeout := 0,
     r_max_body_bytes := 0, r_request_transform := no_transform\<rparr>"

definition sample_hash :: string where
  "sample_hash = replicate 64 (CHR ''a'')"

definition sample_gateway :: GatewayConfig where
  "sample_gateway = empty_gateway\<lparr>g_schema_version := 1, g_version := 1, g_max_header_bytes := 2 ^ 20,
     g_routes := [sample_route, open_route],
     g_auth_policies := [(''clients'', \<lparr>ap_type = ''api_key'',
        ap_keys = [\<lparr>ak_name = ''test'', ak_sha256 = sample_hash, ak_scopes = [''users.read'']\<rparr>],
        ap_issuer = [], ap_jwks_url = [], ap_audiences = []\<rparr>)],
     g_rate_policies := [(''default'', \<lparr>rp_requests = 100, rp_burst = 10, rp_window = 60 * second\<rparr>)],
     g_cache_policies := [(''private'', \<lparr>cp_ttl = 60 * second, cp_max_body_bytes = 1024,
        cp_per_principal = True, cp_vary_headers = [''Accept'']\<rparr>)],
     g_trusted_proxies := [''10.0.0.0/8''], g_cors_allowed_origins := [''https://client.example'']\<rparr>"

definition sample_app :: applicationConfig where
  "sample_app = defaultConfig\<lparr>a_environment := ''production'', a_redis_url := ''redis://redis.internal'',
     a_gateway := sample_gateway,
     a_admin := empty_admin\<lparr>ad_enabled := True, ad_external_url := ''https://admin.example'',
       ad_oidc_issuer := ''https://issuer.example'', ad_oidc_client_id := ''vial-gateway'',
       ad_oidc_scopes := [''openid'', ''gateway.admin''], ad_session_ttl := 3600 * second\<rparr>\<rparr>"

lemma sample_gateway_valid: "gateway_validate sample_parsers sample_gateway ''production'' False = None"
  by code_simp

lemma sample_app_valid: "app_validate sample_parsers sample_app = None"
  by code_simp

end
