(* ===== verification/Config_Theorems.thy ===== *)
theory Config_Theorems
  imports Sample_Config
begin

text \<open>
  Properties of configuration validation and route normalisation: \<open>Validate\<close> accepts
  exactly the declaratively valid configurations, accepted routes never compete for the
  same method, host and prefix, an accepted production configuration has a secured admin
  plane, and a normalised accepted route has positive limits.
\<close>

text \<open>C24: \<open>GatewayConfig.Validate\<close>, which walks through the parts of the configuration
  with tables of seen names and seen routes and stops at the first error, returns no
  error exactly for the configurations that satisfy the declarative conditions.\<close>

theorem validate_accepts_exactly_valid:
  "gateway_validate P g environment allowNoRoutes = None \<longleftrightarrow> valid_gateway P environment allowNoRoutes g"
  by (rule gateway_validate_iff)

text \<open>C25: in an accepted configuration two different routes that share a method and a host
  (compared without case; no list means any) have different path prefixes, trailing slash
  aside.\<close>

theorem accepted_routes_never_conflict:
  assumes "gateway_validate P g environment allowNoRoutes = None"
    and ij: "i < length (g_routes g)" "j < length (g_routes g)" "i \<noteq> j"
    and "m \<in> set (route_methods (g_routes g ! i))" "m \<in> set (route_methods (g_routes g ! j))"
    and "h \<in> set (route_hosts (g_routes g ! i))" "h' \<in> set (route_hosts (g_routes g ! j))"
    and "to_lower h = to_lower h'"
  shows "trim_suffix (r_path_prefix (g_routes g ! i)) ''/'' \<noteq> trim_suffix (r_path_prefix (g_routes g ! j)) ''/''"
proof
  let ?ri = "g_routes g ! i" and ?rj = "g_routes g ! j"
  assume same: "trim_suffix (r_path_prefix ?ri) ''/'' = trim_suffix (r_path_prefix ?rj) ''/''"
  from assms(1) have "distinct (concat (map route_keys (g_routes g)))"
    by (simp add: gateway_validate_iff valid_gateway_def)
  from distinct_concat_disjoint [OF this, of i j] ij
  have "set (route_keys ?ri) \<inter> set (route_keys ?rj) = {}" by simp
  moreover have "conflict_key ?ri m h \<in> set (route_keys ?ri)"
    using assms(5,7) by (auto simp: route_keys_def)
  moreover have "conflict_key ?rj m h' \<in> set (route_keys ?rj)"
    using assms(6,8) by (auto simp: route_keys_def)
  moreover have "conflict_key ?ri m h = conflict_key ?rj m h'"
    using same assms(9) by (simp add: conflict_key_def)
  ultimately show False by auto
qed

theorem accepted_routes_never_conflict_witness:
  "trim_suffix (r_path_prefix (g_routes sample_gateway ! 0)) ''/''
   \<noteq> trim_suffix (r_path_prefix (g_routes sample_gateway ! 1)) ''/''"
  by (rule accepted_routes_never_conflict [OF sample_gateway_valid, of 0 1 "''GET''" "''*''" "''*''"])
     (code_simp | simp)+

text \<open>an application configuration that \<open>Validate\<close> accepts for production with the
  admin plane enabled names an OIDC issuer and client, requests the \<open>gateway.admin\<close>
  scope, has an absolute HTTPS external URL, a Redis URL and a positive session lifetime.\<close>

lemma production_admin_is_secured:
  assumes "app_validate P c = None" and "a_environment c = ''production''" and "ad_enabled (a_admin c)"
  shows "ad_oidc_issuer (a_admin c) \<noteq> [] \<and> ad_oidc_client_id (a_admin c) \<noteq> [] \<and>
    ''gateway.admin'' \<in> scope_set (ad_oidc_scopes (a_admin c)) \<and>
    (\<exists>u. url_parse P (ad_external_url (a_admin c)) = Some u \<and> u_scheme u = ''https'' \<and> u_host u \<noteq> []) \<and>
    a_redis_url c \<noteq> [] \<and> 0 < ad_session_ttl (a_admin c) \<and> ''*'' \<notin> set (g_cors_allowed_origins (a_gateway c))"
proof -
  from assms(1) have v: "admin_validate P c = None"
    and g: "gateway_validate P (a_gateway c) ''production'' (a_control_only c) = None"
    using assms(2) by (auto simp: app_validate_def split: if_splits)
  have "oidc_configured (a_admin c) \<noteq> 0" and "external_url_check P ''production'' (a_admin c) = None"
    and rest: "ad_external_url (a_admin c) \<noteq> []" "''gateway.admin'' \<in> scope_set (ad_oidc_scopes (a_admin c))"
      "a_redis_url c \<noteq> []" "0 < ad_session_ttl (a_admin c)" "oidc_configured (a_admin c) = 2"
    using v assms(2,3) by (auto simp: admin_validate_def Let_def split: if_splits)
  then have "\<exists>u. url_parse P (ad_external_url (a_admin c)) = Some u \<and> u_scheme u = ''https'' \<and> u_host u \<noteq> []"
    by (auto simp: external_url_check_def split: option.splits if_splits)
  moreover have "ad_oidc_issuer (a_admin c) \<noteq> [] \<and> ad_oidc_client_id (a_admin c) \<noteq> []"
    using rest(5) by (auto simp: oidc_configured_def split: if_splits)
  moreover have "''*'' \<notin> set (g_cors_allowed_origins (a_gateway c))"
    using g by (auto simp: gateway_validate_iff valid_gateway_def)
  ultimately show ?thesis using rest by blast
qed

lemma production_admin_is_secured_witness:
  "ad_oidc_issuer (a_admin sample_app) \<noteq> [] \<and> 0 < ad_session_ttl (a_admin sample_app)"
proof -
  have "a_environment sample_app = ''production''" and "ad_enabled (a_admin sample_app)"
    by (simp_all add: sample_app_def)
  from production_admin_is_secured [OF sample_app_valid this] show ?thesis by blast
qed

text \<open>C26: Every route of a configuration that \<open>Validate\<close> accepts is well formed once
  \<open>normalizeRoute\<close> has filled in its defaults, which is the form the compiler works with: a
  positive timeout, body limit and failure threshold, a rewrite prefix that starts with a slash
  and non-negative retries and concurrency; normalising again changes nothing.\<close>

theorem accepted_routes_are_well_formed:
  assumes "gateway_validate P g environment allowNoRoutes = None" and "r \<in> set (g_routes g)"
  shows "0 < r_timeout (normalizeRoute r) \<and> 0 < r_max_body_bytes (normalizeRoute r) \<and>
    0 < cb_failures (r_circuit_breaker (normalizeRoute r)) \<and>
    has_prefix (r_path_rewrite (normalizeRoute r)) ''/'' \<and>
    0 \<le> r_retries (normalizeRoute r) \<and> 0 \<le> r_concurrency (normalizeRoute r) \<and>
    normalizeRoute (normalizeRoute r) = normalizeRoute r"
proof -
  have ok: "route_ok P g r" using assms by (simp add: gateway_validate_iff valid_gateway_def)
  then have t: "0 \<le> r_timeout r" "0 \<le> r_max_body_bytes r" "0 \<le> r_retries r" "0 \<le> r_concurrency r"
    and p: "has_prefix (r_path_prefix r) ''/''"
      "r_path_rewrite r \<noteq> [] \<longrightarrow> has_prefix (r_path_rewrite r) ''/''"
    by (auto simp: route_ok_def)
  have "r_path_prefix r \<noteq> []" using p(1) by auto
  then have "normalizeRoute (normalizeRoute r) = normalizeRoute r"
    by (rule normalizeRoute_idem)
  with t p show ?thesis by simp
qed

theorem accepted_routes_are_well_formed_witness:
  "0 < r_timeout (normalizeRoute open_route) \<and> 0 < r_max_body_bytes (normalizeRoute open_route)"
proof -
  have "open_route \<in> set (g_routes sample_gateway)" by (simp add: sample_gateway_def)
  from accepted_routes_are_well_formed [OF sample_gateway_valid this] show ?thesis by blast
qed

text \<open>
  Validation reads the method \<open>*\<close> as any method: it accepts it and gives it the conflict keys of a
  route without methods. \<open>routePatterns\<close> registers it as the literal method \<open>*\<close>, so such a route is
  accepted but serves no request with an ordinary method.
\<close>

lemma explicit_wildcard_is_literal:
  assumes "r_methods r = [''*'']"
  shows "route_keys r = route_keys (r\<lparr>r_methods := []\<rparr>)" and "\<forall>p \<in> set (routePatterns r). has_prefix p ''* ''"
proof -
  have star: "to_upper ''*'' = ''*''" by code_simp
  show "route_keys r = route_keys (r\<lparr>r_methods := []\<rparr>)"
    using assms by (simp add: route_keys_def route_methods_def route_hosts_def conflict_key_def star)
  show "\<forall>p \<in> set (routePatterns r). has_prefix p ''* ''"
    using assms by (auto simp: routePatterns_def Let_def star has_prefix_def split: if_splits)
qed

lemma explicit_wildcard_is_accepted:
  "gateway_validate sample_parsers (sample_gateway\<lparr>g_routes := [open_route\<lparr>r_methods := [''*'']\<rparr>]\<rparr>) ''production'' False = None"
  by code_simp

end
