(* ===== verification/Durations.thy ===== *)
theory Durations
  imports Go_Http
begin

text \<open>
  The JSON form of durations (\<open>duration\<close> of \<open>config.go\<close>) with the two functions of Go's
  \<open>time\<close> package it uses: \<open>Duration.String\<close> and \<open>ParseDuration\<close>, over \<open>uint64\<close> as naturals with
  the wrap-around written out.

  \<open>ParseDuration\<close> converts a fraction with floating-point numbers,
  \<open>uint64(float64(f) * (float64(unit) / scale))\<close>; this expression is the parameter \<open>fr f unit scale\<close>.
  The hypothesis \<open>exact_fractions\<close> is what IEEE 754 gives where the result is exact: when \<open>scale\<close>
  divides \<open>unit\<close> and the product stays below 2^53. Everything \<open>String\<close> prints is of that kind.
\<close>

section \<open>Definitions\<close>

subsection \<open>Duration.String\<close>

fun fmtFrac :: "nat \<Rightarrow> nat \<Rightarrow> bool \<Rightarrow> string \<Rightarrow> string \<times> nat" where
  "fmtFrac 0 v print buf = (if print then CHR ''.'' # buf else buf, v)"
| "fmtFrac (Suc i) v print buf =
     (let digit = v mod 10; print = (print \<or> digit \<noteq> 0)
      in fmtFrac i (v div 10) print (if print then digit_char digit # buf else buf))"

definition with_fraction :: "nat \<Rightarrow> nat \<Rightarrow> string \<times> nat" where
  "with_fraction prec u = fmtFrac prec u False []"

abbreviation micro_sign :: string where "micro_sign \<equiv> [CHR 0xC2, CHR 0xB5]"

definition format_seconds :: "nat \<Rightarrow> string" where
  "format_seconds u = (case with_fraction 9 u of (frac, s) \<Rightarrow>
     (let m = s div 60; h = m div 60
      in (if m > 0 then (if h > 0 then format_nat h @ ''h'' else []) @ format_nat (m mod 60) @ ''m'' else []) @
         format_nat (s mod 60) @ frac @ ''s''))"

definition format_magnitude :: "nat \<Rightarrow> string" where
  "format_magnitude u =
     (if u < 1000000000 then
        (if u = 0 then ''0s''
         else if u < 1000 then (case with_fraction 0 u of (frac, v) \<Rightarrow> format_nat v @ frac @ ''ns'')
         else if u < 1000000 then (case with_fraction 3 u of (frac, v) \<Rightarrow> format_nat v @ frac @ micro_sign @ ''s'')
         else (case with_fraction 6 u of (frac, v) \<Rightarrow> format_nat v @ frac @ ''ms''))
      else format_seconds u)"

definition duration_String :: "duration \<Rightarrow> string" where
  "duration_String d = (if d < 0 then ''-'' else []) @ format_magnitude (nat \<bar>d\<bar>)"

subsection \<open>ParseDuration\<close>

fun leadingInt :: "nat \<Rightarrow> string \<Rightarrow> (nat \<times> string) option" where
  "leadingInt x [] = Some (x, [])"
| "leadingInt x (c # s) =
     (if \<not> is_digit c then Some (x, c # s)
      else if x > 2 ^ 63 div 10 then None
      else let x = 10 * x + digit_val c in if x > 2 ^ 63 then None else leadingInt x s)"

fun leadingFraction :: "nat \<Rightarrow> nat \<Rightarrow> bool \<Rightarrow> string \<Rightarrow> nat \<times> nat \<times> string" where
  "leadingFraction x scale overflow [] = (x, scale, [])"
| "leadingFraction x scale overflow (c # s) =
     (if \<not> is_digit c then (x, scale, c # s)
      else if overflow \<or> x > (2 ^ 63 - 1) div 10 \<or> 10 * x + digit_val c > 2 ^ 63 then leadingFraction x scale True s
      else leadingFraction (10 * x + digit_val c) (10 * scale) False s)"

definition unitMap :: "(string \<times> nat) list" where
  "unitMap = [(''ns'', 1), (''us'', 1000), (micro_sign @ ''s'', 1000), ([CHR 0xCE, CHR 0xBC] @ ''s'', 1000),
     (''ms'', 1000000), (''s'', 1000000000), (''m'', 60000000000), (''h'', 3600000000000)]"

abbreviation invalid_duration :: "string \<Rightarrow> go_error" where
  "invalid_duration orig \<equiv> Errorf ''time: invalid duration %q'' [orig]"

definition unit_char :: "char \<Rightarrow> bool" where
  "unit_char c \<longleftrightarrow> c \<noteq> CHR ''.'' \<and> \<not> is_digit c"

definition parse_item :: "(nat \<Rightarrow> nat \<Rightarrow> nat \<Rightarrow> nat) \<Rightarrow> string \<Rightarrow> string \<Rightarrow> go_error + nat \<times> string" where
  "parse_item fr orig s =
     (if unit_char (hd s) then Inl (invalid_duration orig)
      else (case leadingInt 0 s of
          None \<Rightarrow> Inl (invalid_duration orig)
        | Some (v, s1) \<Rightarrow>
            (let pre = (length s1 \<noteq> length s);
                 dot = (s1 \<noteq> [] \<and> hd s1 = CHR ''.'');
                 (f, scale, s2) = (if dot then leadingFraction 0 1 False (tl s1) else (0, 1, s1));
                 post = (dot \<and> length s2 \<noteq> length (tl s1));
                 u = takeWhile unit_char s2
             in if \<not> pre \<and> \<not> post then Inl (invalid_duration orig)
                else if u = [] then Inl (Errorf ''time: missing unit in duration %q'' [orig])
                else (case map_of unitMap u of
                    None \<Rightarrow> Inl (Errorf ''time: unknown unit %q in duration %q'' [u, orig])
                  | Some unit \<Rightarrow>
                      if v > 2 ^ 63 div unit then Inl (invalid_duration orig)
                      else (let v = v * unit; v' = (if f > 0 then (v + fr f unit scale) mod 2 ^ 64 else v)
                            in if f > 0 \<and> v' > 2 ^ 63 then Inl (invalid_duration orig)
                               else Inr (v', dropWhile unit_char s2))))))"

lemma leadingInt_length: "leadingInt x s = Some (v, t) \<Longrightarrow> length t \<le> length s"
  by (induction x s rule: leadingInt.induct) (auto simp: Let_def split: if_splits)

lemma leadingFraction_length: "leadingFraction x scale ov s = (f, sc, t) \<Longrightarrow> length t \<le> length s"
  by (induction x scale ov s rule: leadingFraction.induct) (auto split: if_splits)

lemma dropWhile_shorter: "takeWhile P s \<noteq> [] \<Longrightarrow> length (dropWhile P s) < length s"
  by (cases s) (auto simp: length_dropWhile_le le_imp_less_Suc split: if_splits)

lemma parse_item_shorter:
  assumes "parse_item fr orig s = Inr (v, t)"
  shows "length t < length s"
proof -
  from assms obtain v' s1 f scale s2 where l: "leadingInt 0 s = Some (v', s1)"
    and f: "(f, scale, s2) = (if s1 \<noteq> [] \<and> hd s1 = CHR ''.'' then leadingFraction 0 1 False (tl s1) else (0, 1, s1))"
    and u: "takeWhile unit_char s2 \<noteq> []" "t = dropWhile unit_char s2"
    unfolding parse_item_def Let_def by (fastforce split: if_splits option.splits prod.splits)
  have "length s2 \<le> length s1"
    using f leadingFraction_length [of 0 1 False "tl s1" f scale s2] by (auto split: if_splits)
  with leadingInt_length [OF l] dropWhile_shorter [OF u(1)] u(2) show ?thesis by simp
qed

function parse_units :: "(nat \<Rightarrow> nat \<Rightarrow> nat \<Rightarrow> nat) \<Rightarrow> string \<Rightarrow> nat \<Rightarrow> string \<Rightarrow> go_error + nat" where
  "parse_units fr orig d s =
     (if s = [] then Inr d
      else (case parse_item fr orig s of
          Inl e \<Rightarrow> Inl e
        | Inr (v, s) \<Rightarrow> (let d = (d + v) mod 2 ^ 64 in
            if d > 2 ^ 63 then Inl (invalid_duration orig) else parse_units fr orig d s)))"
  by pat_completeness auto
termination
  by (relation "measure (\<lambda>(fr, orig, d, s). length s)") (auto simp: parse_item_shorter)

declare parse_units.simps [simp del]

definition ParseDuration :: "(nat \<Rightarrow> nat \<Rightarrow> nat \<Rightarrow> nat) \<Rightarrow> string \<Rightarrow> go_error + duration" where
  "ParseDuration fr s =
     (let (neg, t) = (case s of c # cs \<Rightarrow> if c = CHR ''-'' \<or> c = CHR ''+'' then (c = CHR ''-'', cs) else (False, s) | [] \<Rightarrow> (False, s))
      in if t = ''0'' then Inr 0
         else if t = [] then Inl (invalid_duration s)
         else (case parse_units fr s 0 t of
             Inl e \<Rightarrow> Inl e
           | Inr d \<Rightarrow> if neg then Inr (- int d)
               else if d > 2 ^ 63 - 1 then Inl (invalid_duration s) else Inr (int d)))"

subsection \<open>The JSON form\<close>

definition duration_MarshalJSON :: "duration \<Rightarrow> json" where
  "duration_MarshalJSON d = JStr (duration_String d)"

definition duration_UnmarshalJSON :: "(nat \<Rightarrow> nat \<Rightarrow> nat \<Rightarrow> nat) \<Rightarrow> json \<Rightarrow> go_error + duration" where
  "duration_UnmarshalJSON fr v = (case v of
      JStr value \<Rightarrow> ParseDuration fr value
    | JNull \<Rightarrow> ParseDuration fr []   \<comment> \<open>\<open>null\<close> leaves \<open>value\<close> empty\<close>
    | _ \<Rightarrow> Inl (Errorf ''duration must be a string such as 500ms or 2s'' []))"

definition exact_fractions :: "(nat \<Rightarrow> nat \<Rightarrow> nat \<Rightarrow> nat) \<Rightarrow> bool" where
  "exact_fractions fr \<longleftrightarrow> (\<forall>f unit scale. scale dvd unit \<and> f * (unit div scale) < 2 ^ 53 \<longrightarrow> fr f unit scale = f * (unit div scale))"

section \<open>Facts\<close>

lemma fmtFrac_printing:
  "\<exists>ds. fmtFrac i v True buf = (CHR ''.'' # ds @ buf, v div 10 ^ i) \<and> length ds = i \<and> list_all is_digit ds \<and>
     digits_val ds = v mod 10 ^ i"
proof (induction i arbitrary: v buf)
  case 0
  then show ?case by (simp add: digits_val_def)
next
  case (Suc i)
  let ?d = "digit_char (v mod 10)"
  from Suc [of "v div 10" "?d # buf"] obtain ds where
    ds: "fmtFrac i (v div 10) True (?d # buf) = (CHR ''.'' # ds @ ?d # buf, v div 10 div 10 ^ i)" "length ds = i"
      "list_all is_digit ds" "digits_val ds = v div 10 mod 10 ^ i" by blast
  have "digits_val (ds @ [?d]) = v mod 10 ^ Suc i"
    by (simp add: digits_val_snoc ds digit_val_def of_char_digit_char mod_mult2_eq)
  with ds show ?case
    by (intro exI [of _ "ds @ [?d]"]) (simp add: is_digit_digit_char div_mult2_eq)
qed

lemma with_fraction_spec:
  "\<exists>frac. with_fraction i v = (frac, v div 10 ^ i) \<and>
     (v mod 10 ^ i = 0 \<and> frac = [] \<or>
      (\<exists>ds. frac = CHR ''.'' # ds \<and> ds \<noteq> [] \<and> length ds \<le> i \<and> list_all is_digit ds \<and> v mod 10 ^ i \<noteq> 0 \<and>
         digits_val ds * 10 ^ (i - length ds) = v mod 10 ^ i))"
proof (induction i arbitrary: v)
  case 0
  then show ?case by (simp add: with_fraction_def)
next
  case (Suc i)
  have m: "v mod 10 ^ Suc i = 10 * (v div 10 mod 10 ^ i) + v mod 10" by (simp add: mod_mult2_eq)
  show ?case
  proof (cases "v mod 10 = 0")
    case True
    have e: "with_fraction (Suc i) v = with_fraction i (v div 10)" using True by (simp add: with_fraction_def)
    have d: "v div 10 div 10 ^ i = v div 10 ^ Suc i" by (simp add: div_mult2_eq)
    from Suc [of "v div 10"] show ?thesis unfolding e m d using True
      by (auto simp: Suc_diff_le)
  next
    case False
    from fmtFrac_printing [of i "v div 10" "[digit_char (v mod 10)]"] obtain ds where
      ds: "fmtFrac i (v div 10) True [digit_char (v mod 10)] = (CHR ''.'' # ds @ [digit_char (v mod 10)], v div 10 div 10 ^ i)"
        "length ds = i" "list_all is_digit ds" "digits_val ds = v div 10 mod 10 ^ i" by blast
    have "with_fraction (Suc i) v = (CHR ''.'' # ds @ [digit_char (v mod 10)], v div 10 ^ Suc i)"
      using False ds(1) by (simp add: with_fraction_def div_mult2_eq)
    moreover have "digits_val (ds @ [digit_char (v mod 10)]) = v mod 10 ^ Suc i"
      unfolding m by (simp add: digits_val_snoc ds digit_val_def of_char_digit_char)
    ultimately show ?thesis using False ds m
      by (intro exI [of _ "CHR ''.'' # ds @ [digit_char (v mod 10)]"]) (simp add: is_digit_digit_char)
  qed
qed

abbreviation digits_from :: "nat \<Rightarrow> string \<Rightarrow> nat" where
  "digits_from x ds \<equiv> foldl (\<lambda>n c. 10 * n + digit_val c) x ds"

lemma digits_from_ge: "x \<le> digits_from x ds"
proof (induction ds arbitrary: x)
  case Nil
  then show ?case by simp
next
  case (Cons c ds)
  from Cons [of "10 * x + digit_val c"] show ?case by simp
qed

lemma leadingInt_digits:
  assumes "list_all is_digit ds" and "digits_from x ds \<le> 2 ^ 63" and "rest = [] \<or> \<not> is_digit (hd rest)"
  shows "leadingInt x (ds @ rest) = Some (digits_from x ds, rest)"
  using assms(1,2)
proof (induction ds arbitrary: x)
  case Nil
  with assms(3) show ?case by (cases rest) auto
next
  case (Cons c ds)
  have "10 * x + digit_val c \<le> digits_from x (c # ds)" using digits_from_ge [of "10 * x + digit_val c" ds] by simp
  with Cons.prems(2) have b: "10 * x + digit_val c \<le> 2 ^ 63" by linarith
  then have "x \<le> 2 ^ 63 div 10" by simp
  with b Cons.prems Cons.IH [of "10 * x + digit_val c"] show ?case by (simp add: Let_def)
qed

lemma leadingFraction_digits:
  assumes "list_all is_digit ds" and "digits_from x ds \<le> 2 ^ 53" and "rest = [] \<or> \<not> is_digit (hd rest)"
  shows "leadingFraction x scale False (ds @ rest) = (digits_from x ds, scale * 10 ^ length ds, rest)"
  using assms(1,2)
proof (induction ds arbitrary: x scale)
  case Nil
  with assms(3) show ?case by (cases rest) auto
next
  case (Cons c ds)
  have "10 * x + digit_val c \<le> digits_from x (c # ds)" using digits_from_ge [of "10 * x + digit_val c" ds] by simp
  with Cons.prems(2) have b: "10 * x + digit_val c \<le> 2 ^ 53" by linarith
  then have "\<not> x > (2 ^ 63 - 1) div 10" "\<not> 10 * x + digit_val c > 2 ^ 63" by simp_all
  with Cons.prems Cons.IH [of "10 * x + digit_val c" "10 * scale"] show ?case by (simp add: mult.commute)
qed

lemma takeWhile_unit:
  assumes "list_all unit_char u" and "rest = [] \<or> is_digit (hd rest)"
  shows "takeWhile unit_char (u @ rest) = u" and "dropWhile unit_char (u @ rest) = rest"
  using assms by (induction u) (auto simp: unit_char_def hd_conv_nth split: list.splits, (cases rest, auto simp: unit_char_def)+)

text \<open>A number with its optional fraction, as \<open>String\<close> prints it, parses back to its value.\<close>

lemma parse_item_whole:
  assumes u: "map_of unitMap u = Some unit" "list_all unit_char u" "u \<noteq> []" "0 < unit"
    and rest: "rest = [] \<or> is_digit (hd rest)" and n: "n * unit \<le> 2 ^ 63"
  shows "parse_item fr orig (format_nat n @ u @ rest) = Inr (n * unit, rest)"
proof -
  obtain c cs where f: "format_nat n = c # cs" "is_digit c" using format_nat_hd by blast
  from u have h: "u @ rest \<noteq> []" "unit_char (hd (u @ rest))" by (cases u; simp)+
  from n u(4) have n': "n \<le> 2 ^ 63 div unit" by (simp add: less_eq_div_iff_mult_less_eq)
  also have "\<dots> \<le> 2 ^ 63" by simp
  finally have "leadingInt 0 (format_nat n @ u @ rest) = Some (n, u @ rest)"
    using leadingInt_digits [OF format_nat_digits, of 0 n "u @ rest"] digits_val_format_nat [of n] h
    by (simp add: digits_val_def unit_char_def)
  with f h n' u(1,3) takeWhile_unit [OF u(2) rest] show ?thesis
    by (simp add: parse_item_def unit_char_def Let_def)
qed

lemma parse_item_fraction:
  assumes u: "map_of unitMap u = Some (10 ^ i)" "list_all unit_char u" "u \<noteq> []"
    and rest: "rest = [] \<or> is_digit (hd rest)"
    and fr: "exact_fractions fr" and i: "i \<le> 9" and v: "v \<le> 2 ^ 63" and w: "with_fraction i v = (frac, n)"
  shows "parse_item fr orig (format_nat n @ frac @ u @ rest) = Inr (v, rest)"
proof -
  from with_fraction_spec [of i v] w have n: "n = v div 10 ^ i" by auto
  have n63: "n * 10 ^ i \<le> 2 ^ 63" unfolding n using v div_times_less_eq_dividend order_trans by blast
  from with_fraction_spec [of i v] w consider "v mod 10 ^ i = 0" "frac = []"
    | ds where "frac = CHR ''.'' # ds" "ds \<noteq> []" "length ds \<le> i" "list_all is_digit ds" "v mod 10 ^ i \<noteq> 0"
        "digits_val ds * 10 ^ (i - length ds) = v mod 10 ^ i" by auto
  then show ?thesis
  proof cases
    case 1
    then have "n * 10 ^ i = v" using n div_mult_mod_eq [of v "10 ^ i"] by simp
    with parse_item_whole [OF u, of rest n fr orig] rest n63 1 show ?thesis by simp
  next
    case 2
    let ?k = "length ds" and ?f = "digits_val ds"
    obtain c cs where f: "format_nat n = c # cs" "is_digit c" using format_nat_hd by blast
    from u have h: "u @ rest \<noteq> []" "unit_char (hd (u @ rest))" by (cases u; simp)+
    have "v mod 10 ^ i < 10 ^ i" by simp
    also have "(10::nat) ^ i \<le> 10 ^ 9" using i by (intro power_increasing) simp_all
    finally have small: "v mod 10 ^ i < 2 ^ 53" by simp
    have "?f * 1 \<le> ?f * 10 ^ (i - ?k)" by (intro mult_le_mono2) simp
    with 2 small have f53: "?f \<le> 2 ^ 53" by simp
    have quot: "(10::nat) ^ i div 10 ^ ?k = 10 ^ (i - ?k)" using 2(3) by (simp add: power_diff)
    have "(10::nat) ^ ?k dvd 10 ^ i" using 2(3) by (rule le_imp_power_dvd)
    with fr quot 2(6) small have fr': "fr ?f (10 ^ i) (10 ^ ?k) = v mod 10 ^ i" by (auto simp: exact_fractions_def)
    have "n \<le> n * 10 ^ i" by simp
    then have "n \<le> 2 ^ 63" using n63 by (rule order_trans)
    then have "leadingInt 0 (format_nat n @ frac @ u @ rest) = Some (n, frac @ u @ rest)"
      using leadingInt_digits [OF format_nat_digits, of 0 n "frac @ u @ rest"] digits_val_format_nat [of n] 2(1)
      by (simp add: digits_val_def is_digit_def)
    moreover have "leadingFraction 0 1 False (ds @ u @ rest) = (?f, 10 ^ ?k, u @ rest)"
      using leadingFraction_digits [OF 2(4), of 0 "u @ rest" 1] f53 h by (simp add: digits_val_def unit_char_def)
    moreover have "?f > 0" using 2(5,6) by (cases "?f") auto
    moreover have "n \<le> 2 ^ 63 div 10 ^ i" using n63 by (simp add: less_eq_div_iff_mult_less_eq)
    moreover have "n * 10 ^ i + v mod 10 ^ i = v" unfolding n by (rule div_mult_mod_eq)
    ultimately show ?thesis using f u(1,3) takeWhile_unit [OF u(2) rest] fr' v 2(1,2)
      by (simp add: parse_item_def unit_char_def Let_def)
  qed
qed

lemma unit_chars:
  "list_all unit_char ''ns''" "list_all unit_char (micro_sign @ ''s'')" "list_all unit_char ''ms''" "list_all unit_char ''s''"
  "list_all unit_char ''m''" "list_all unit_char ''h''"
  by (simp_all add: unit_char_def is_digit_def)

lemma unit_values:
  "map_of unitMap ''ns'' = Some (10 ^ 0)" "map_of unitMap (micro_sign @ ''s'') = Some (10 ^ 3)" "map_of unitMap ''ms'' = Some (10 ^ 6)"
  "map_of unitMap ''s'' = Some (10 ^ 9)" "map_of unitMap ''m'' = Some 60000000000" "map_of unitMap ''h'' = Some 3600000000000"
  by (simp_all add: unitMap_def)

lemma parse_units_last:
  "d \<le> 2 ^ 63 \<Longrightarrow> s \<noteq> [] \<Longrightarrow> parse_item fr orig s = Inr (v, []) \<Longrightarrow> d + v \<le> 2 ^ 63 \<Longrightarrow> parse_units fr orig d s = Inr (d + v)"
  by (simp add: parse_units.simps [of fr orig d s] parse_units.simps [of fr orig _ "[]"] Let_def)

lemma parse_units_next:
  "d \<le> 2 ^ 63 \<Longrightarrow> s \<noteq> [] \<Longrightarrow> parse_item fr orig s = Inr (v, t) \<Longrightarrow> d + v \<le> 2 ^ 63 \<Longrightarrow>
   parse_units fr orig d s = parse_units fr orig (d + v) t"
  by (simp add: parse_units.simps [of fr orig d s] Let_def)

lemma format_nat_digit_hd: "is_digit (hd (format_nat n @ t))"
  using format_nat_hd [of n] by auto

text \<open>The printed fraction only depends on the last digits.\<close>

lemma fmtFrac_cong: "v mod 10 ^ i = w mod 10 ^ i \<Longrightarrow> fst (fmtFrac i v p buf) = fst (fmtFrac i w p buf)"
proof (induction i arbitrary: v w p buf)
  case 0
  then show ?case by simp
next
  case (Suc i)
  from Suc.prems have eq: "10 * (v div 10 mod 10 ^ i) + v mod 10 = 10 * (w div 10 mod 10 ^ i) + w mod 10"
    by (simp add: mod_mult2_eq)
  have r: "v mod 10 = w mod 10" using arg_cong [OF eq, of "\<lambda>x. x mod 10"] by simp
  with eq have "v div 10 mod 10 ^ i = w div 10 mod 10 ^ i" by simp
  from Suc.IH [OF this] show ?case by (simp only: fmtFrac.simps Let_def r)
qed

lemma with_fraction_mod:
  assumes "10 ^ i dvd m" and "with_fraction i v = (frac, n)"
  shows "with_fraction i (v mod m) = (frac, n mod (m div 10 ^ i))"
proof -
  from assms(1) obtain k where m: "m = 10 ^ i * k" ..
  have n: "n = v div 10 ^ i" using with_fraction_spec [of i v] assms(2) by auto
  have "fst (with_fraction i (v mod m)) = frac"
    using fmtFrac_cong [of "v mod m" i v False "[]"] assms by (simp add: with_fraction_def mod_mod_cancel)
  moreover have "snd (with_fraction i (v mod m)) = v mod m div 10 ^ i" using with_fraction_spec [of i "v mod m"] by auto
  moreover have "v mod m div 10 ^ i = n mod (m div 10 ^ i)" unfolding n m by (simp add: mod_mult2_eq)
  ultimately show ?thesis by (metis prod.collapse)
qed

text \<open>Seconds and their fraction close the text.\<close>

lemma parse_seconds:
  assumes "exact_fractions fr" and "with_fraction 9 u = (frac, s)" and "d + u mod 60000000000 \<le> 2 ^ 63"
  shows "parse_units fr orig d (format_nat (s mod 60) @ frac @ ''s'') = Inr (d + u mod 60000000000)"
proof (rule parse_units_last)
  have "with_fraction 9 (u mod 60000000000) = (frac, s mod 60)"
    using with_fraction_mod [OF _ assms(2), of 60000000000] by simp
  from parse_item_fraction [OF unit_values(4) unit_chars(4) _ _ assms(1) _ _ this, of "[]" orig] assms(3)
  show "parse_item fr orig (format_nat (s mod 60) @ frac @ ''s'') = Inr (u mod 60000000000, [])" by simp
qed (use assms(3) in simp_all)

lemma parse_magnitude:
  assumes fr: "exact_fractions fr" and u: "u \<le> 2 ^ 63"
  shows "parse_units fr orig 0 (format_magnitude u) = Inr u"
proof -
  have small: "parse_units fr orig 0 (format_nat n @ frac @ un) = Inr u"
    if "with_fraction i u = (frac, n)" "map_of unitMap un = Some (10 ^ i)" "list_all unit_char un" "un \<noteq> []" "i \<le> 9" for i n frac un
    using parse_units_last [of 0 "format_nat n @ frac @ un" fr orig u]
      parse_item_fraction [OF that(2-4) _ fr that(5) u that(1), of "[]" orig] u by simp
  obtain frac s where w: "with_fraction 9 u = (frac, s)" by fastforce
  have s: "s = u div 10 ^ 9" using with_fraction_spec [of 9 u] w by auto
  let ?m = "s div 60" and ?h = "s div 60 div 60"
  have split: "u = ?h * 3600000000000 + (?m mod 60) * 60000000000 + u mod 60000000000"
  proof -
    have "u = u div 60000000000 * 60000000000 + u mod 60000000000" by (rule div_mult_mod_eq [symmetric])
    moreover have "u div 60000000000 = ?m" unfolding s by (simp flip: div_mult2_eq)
    moreover have "?m = ?h * 60 + ?m mod 60" by (rule div_mult_mod_eq [symmetric])
    ultimately show ?thesis by linarith
  qed
  let ?tail = "format_nat (s mod 60) @ frac @ ''s''"
  have tail: "parse_units fr orig d ?tail = Inr (d + u mod 60000000000)" if "d + u mod 60000000000 \<le> 2 ^ 63" for d
    by (rule parse_seconds [OF fr w that])
  have minutes: "parse_units fr orig d (format_nat (?m mod 60) @ ''m'' @ ?tail) = Inr (d + (?m mod 60) * 60000000000 + u mod 60000000000)"
    if "d + (?m mod 60) * 60000000000 + u mod 60000000000 \<le> 2 ^ 63" for d
  proof -
    have "parse_item fr orig (format_nat (?m mod 60) @ ''m'' @ ?tail) = Inr ((?m mod 60) * 60000000000, ?tail)"
      by (rule parse_item_whole [OF unit_values(5) unit_chars(5)]) (use that format_nat_digit_hd in simp_all)
    from parse_units_next [OF _ _ this, of d] tail [of "d + (?m mod 60) * 60000000000"] that show ?thesis by simp
  qed
  have hours: "parse_units fr orig 0 (format_nat ?h @ ''h'' @ format_nat (?m mod 60) @ ''m'' @ ?tail) = Inr u"
  proof -
    have "parse_item fr orig (format_nat ?h @ ''h'' @ format_nat (?m mod 60) @ ''m'' @ ?tail) =
        Inr (?h * 3600000000000, format_nat (?m mod 60) @ ''m'' @ ?tail)"
      by (rule parse_item_whole [OF unit_values(6) unit_chars(6)]) (use split u format_nat_digit_hd in simp_all)
    from parse_units_next [OF _ _ this, of 0] minutes [of "?h * 3600000000000"] split u show ?thesis by simp
  qed
  have "parse_units fr orig 0 (format_seconds u) = Inr u"
    using tail [of 0] minutes [of 0] hours split u unfolding format_seconds_def w Let_def
    by (cases "?m > 0"; cases "?h > 0") simp_all
  moreover have "parse_units fr orig 0 ''0s'' = Inr u" if "u = 0"
  proof -
    have "with_fraction 9 0 = ([], 0)" "format_nat 0 = ''0''" by code_simp+
    with small [OF _ unit_values(4) unit_chars(4), of "[]" 0] that show ?thesis by simp
  qed
  moreover note small [OF _ unit_values(1) unit_chars(1)] small [OF _ unit_values(2) unit_chars(2)] small [OF _ unit_values(3) unit_chars(3)]
  ultimately show ?thesis by (simp add: format_magnitude_def split: prod.split)
qed

lemma format_magnitude_shape:
  "is_digit (hd (format_magnitude u))" "format_magnitude u \<noteq> []" "last (format_magnitude u) = CHR ''s''"
proof -
  have d: "is_digit (hd (format_nat n))" for n using format_nat_digit_hd [of n "[]"] by simp
  have z: "is_digit (CHR ''0'')" by code_simp
  show "is_digit (hd (format_magnitude u))" "format_magnitude u \<noteq> []" "last (format_magnitude u) = CHR ''s''"
    unfolding format_magnitude_def format_seconds_def Let_def by (simp_all add: d z split: prod.split)
qed

lemma ParseDuration_unsigned:
  assumes "is_digit (hd t)" and "t \<noteq> []" and "t \<noteq> ''0''"
  shows "ParseDuration fr t = (case parse_units fr t 0 t of
      Inl e \<Rightarrow> Inl e
    | Inr d \<Rightarrow> if d > 2 ^ 63 - 1 then Inl (invalid_duration t) else Inr (int d))"
proof -
  from assms(1,2) obtain c cs where t: "t = c # cs" "is_digit c" by (cases t) auto
  then have "c \<noteq> CHR ''-''" "c \<noteq> CHR ''+''" by (auto simp: is_digit_def)
  with t(1) have "(case t of c # cs \<Rightarrow> if c = CHR ''-'' \<or> c = CHR ''+'' then (c = CHR ''-'', cs) else (False, t) | [] \<Rightarrow> (False, t)) = (False, t)"
    by simp
  with assms(2,3) show ?thesis unfolding ParseDuration_def by (simp only: Let_def prod.case if_False)
qed

section \<open>Properties\<close>

text \<open>
  C27: Every duration survives its JSON form: what \<open>MarshalJSON\<close> writes into a stored
  configuration, \<open>UnmarshalJSON\<close> reads back as the same number of nanoseconds, for all 2^64
  values including the smallest one; \<open>null\<close>, numbers and other values are refused.
\<close>

theorem duration_json_round_trip:
  assumes "exact_fractions fr" and "in_int64 d"
  shows "duration_UnmarshalJSON fr (duration_MarshalJSON d) = Inr d \<and>
    isl (duration_UnmarshalJSON fr JNull) \<and> isl (duration_UnmarshalJSON fr (JNum n)) \<and> isl (duration_UnmarshalJSON fr (JObj fs))"
proof -
  let ?u = "nat \<bar>d\<bar>" and ?t = "format_magnitude (nat \<bar>d\<bar>)"
  note sh = format_magnitude_shape [of ?u]
  have u: "?u \<le> 2 ^ 63" and pos: "0 \<le> d \<Longrightarrow> ?u \<le> 2 ^ 63 - 1" using assms(2) by (auto simp: in_int64_def)
  have p: "parse_units fr orig 0 ?t = Inr ?u" for orig by (rule parse_magnitude [OF assms(1) u])
  have nz: "?t \<noteq> ''0''" using sh(3) by auto
  have "ParseDuration fr (duration_String d) = Inr d"
  proof (cases "d < 0")
    case True
    then show ?thesis using p nz sh(2) by (simp add: ParseDuration_def duration_String_def)
  next
    case False
    with ParseDuration_unsigned [OF sh(1,2) nz, of fr] p pos show ?thesis by (simp add: duration_String_def)
  qed
  then show ?thesis by (simp add: duration_UnmarshalJSON_def duration_MarshalJSON_def ParseDuration_def)
qed

theorem duration_json_round_trip_witness:
  "duration_UnmarshalJSON (\<lambda>f unit scale. f * unit div scale) (duration_MarshalJSON (- 5400000000001)) = Inr (- 5400000000001)"
proof -
  have "exact_fractions (\<lambda>f unit scale. f * unit div scale)" by (auto simp: exact_fractions_def div_mult_swap)
  from duration_json_round_trip [OF this, of "- 5400000000001"] show ?thesis by (simp add: in_int64_def)
qed

end
