(* ===== verification/Token_Bucket.thy ===== *)
theory Token_Bucket
  imports Complex_Main Sample_Config
begin

text \<open>
  The Lua script \<open>tokenBucketScript\<close> of \<open>app.go\<close>, which Redis runs atomically on
  the hash of one bucket, with the expiry that its \<open>PEXPIRE\<close> sets. Lua numbers are
  modelled as rationals (the rounding of doubles is not modelled). The reference is a
  token bucket that never forgets. The locale \<open>limiter\<close> is the contract of a rate
  limiter, from which the bound on admitted requests follows; it is interpreted on the
  reference bucket, and a refinement lemma carries the bound over to the script.
\<close>

section \<open>The script\<close>

record bucket_args =
  ba_capacity :: int   \<comment> \<open>\<open>ARGV[1]\<close>\<close>
  ba_requests :: int   \<comment> \<open>\<open>ARGV[2]\<close>\<close>
  ba_window :: int     \<comment> \<open>\<open>ARGV[3]\<close>, milliseconds\<close>

record bucket =
  bk_tokens :: rat
  bk_updated :: int    \<comment> \<open>milliseconds\<close>
  bk_expire :: int     \<comment> \<open>the time at which Redis drops the key\<close>

definition time_ms :: "int \<times> int \<Rightarrow> int" where
  "time_ms now = fst now * 1000 + snd now div 1000"
  \<comment> \<open>from the reply of \<open>TIME\<close>: seconds and microseconds\<close>

definition live_bucket :: "int \<Rightarrow> bucket option \<Rightarrow> bucket option" where
  "live_bucket ms b = (case b of None \<Rightarrow> None | Some k \<Rightarrow> if ms < bk_expire k then Some k else None)"
  \<comment> \<open>a key whose time to live has passed does not exist\<close>

definition refilled :: "bucket_args \<Rightarrow> rat \<Rightarrow> int \<Rightarrow> rat" where
  "refilled a tokens elapsed =
     (if ba_window a = 0 then (if 0 \<le> elapsed then of_int (ba_capacity a) else 0)
      else min (of_int (ba_capacity a))
               (tokens + of_int elapsed * of_int (ba_requests a) / of_int (ba_window a)))"
  \<comment> \<open>division by zero gives an infinity or NaN in Lua, and \<open>math.min\<close> then returns the
     capacity, or minus infinity for a clock that ran backwards\<close>

definition token_bucket_script :: "bucket_args \<Rightarrow> int \<Rightarrow> bucket option \<Rightarrow> int \<times> bucket option" where
  "token_bucket_script a ms stored =
     (let live = live_bucket ms stored;
          tokens = (case live of None \<Rightarrow> of_int (ba_capacity a) | Some k \<Rightarrow> bk_tokens k);
          updated = (case live of None \<Rightarrow> ms | Some k \<Rightarrow> bk_updated k);
          tokens = refilled a tokens (ms - updated);
          allowed = (if tokens \<ge> 1 then 1 else 0);
          tokens = (if tokens \<ge> 1 then tokens - 1 else tokens);
          ttl = ba_window a * 2
      in (allowed, if ttl \<le> 0 then None
                   else Some \<lparr>bk_tokens = tokens, bk_updated = ms, bk_expire = ms + ttl\<rparr>))"
  \<comment> \<open>\<open>PEXPIRE\<close> with a time to live that is not positive deletes the key\<close>

fun run_script :: "bucket_args \<Rightarrow> int list \<Rightarrow> bucket option \<Rightarrow> int list" where
  "run_script a [] b = []"
| "run_script a (t # ts) b =
     (let (allowed, b) = token_bucket_script a t b in allowed # run_script a ts b)"

section \<open>The reference bucket and the limiter contract\<close>

definition ideal_level :: "bucket_args \<Rightarrow> int \<Rightarrow> (rat \<times> int) option \<Rightarrow> rat" where
  "ideal_level a t b = (case b of
      None \<Rightarrow> of_int (ba_capacity a)
    | Some (tokens, updated) \<Rightarrow> min (of_int (ba_capacity a))
        (tokens + of_int (t - updated) * of_int (ba_requests a) / of_int (ba_window a)))"

type_synonym ideal_state = "bucket_args \<times> (rat \<times> int) option"

definition ideal_step :: "int \<Rightarrow> ideal_state \<Rightarrow> bool \<times> ideal_state" where
  "ideal_step t s = (let l = ideal_level (fst s) t (snd s) in
     (l \<ge> 1, (fst s, Some (if l \<ge> 1 then l - 1 else l, t))))"

fun run_limiter :: "(int \<Rightarrow> 's \<Rightarrow> bool \<times> 's) \<Rightarrow> int list \<Rightarrow> 's \<Rightarrow> bool list" where
  "run_limiter step [] s = []"
| "run_limiter step (t # ts) s = fst (step t s) # run_limiter step ts (snd (step t s))"

definition args_ok :: "bucket_args \<Rightarrow> bool" where
  "args_ok a \<longleftrightarrow> 0 < ba_requests a \<and> 0 < ba_window a \<and> 0 \<le> ba_capacity a"

definition ideal_ok :: "int \<Rightarrow> ideal_state \<Rightarrow> bool" where
  "ideal_ok t s \<longleftrightarrow> args_ok (fst s) \<and>
     (case snd s of None \<Rightarrow> True
      | Some (tokens, updated) \<Rightarrow> 0 \<le> tokens \<and> tokens \<le> of_int (ba_capacity (fst s)) \<and> updated \<le> t)"

definition ideal_rate :: "ideal_state \<Rightarrow> rat" where
  "ideal_rate s = of_int (ba_requests (fst s)) / of_int (ba_window (fst s))"

locale limiter =
  fixes step :: "int \<Rightarrow> 's \<Rightarrow> bool \<times> 's"
    and level :: "int \<Rightarrow> 's \<Rightarrow> rat"
    and rate :: "'s \<Rightarrow> rat"
    and okay :: "int \<Rightarrow> 's \<Rightarrow> bool"
  assumes level_nonneg: "okay t s \<Longrightarrow> 0 \<le> level t s"
    and refill: "okay t s \<Longrightarrow> t \<le> t' \<Longrightarrow> level t' s \<le> level t s + of_int (t' - t) * rate s"
    and admit: "okay t s \<Longrightarrow> fst (step t s) \<Longrightarrow> level t (snd (step t s)) \<le> level t s - 1"
    and deny: "okay t s \<Longrightarrow> \<not> fst (step t s) \<Longrightarrow> level t (snd (step t s)) \<le> level t s"
    and rate_step: "rate (snd (step t s)) = rate s"
    and okay_step: "okay t s \<Longrightarrow> okay t (snd (step t s))"
    and okay_later: "okay t s \<Longrightarrow> t \<le> t' \<Longrightarrow> okay t' s"
begin

lemma admitted_bound:
  assumes "okay t s" and "sorted (t # ts)"
  shows "of_nat (length (filter (\<lambda>b. b) (run_limiter step ts s))) \<le>
    level t s + of_int (last (t # ts) - t) * rate s"
  using assms
proof (induction ts arbitrary: t s)
  case Nil
  then show ?case by (simp add: level_nonneg)
next
  case (Cons t' ts)
  let ?s = "snd (step t' s)"
  from Cons.prems have le: "t \<le> t'" and srt: "sorted (t' # ts)" by auto
  have ok: "okay t' s" using Cons.prems(1) le by (rule okay_later)
  have IH: "of_nat (length (filter (\<lambda>b. b) (run_limiter step ts ?s))) \<le>
      level t' ?s + of_int (last (t' # ts) - t') * rate s"
    using Cons.IH [OF okay_step [OF ok] srt] by (simp only: rate_step)
  have one: "level t' ?s \<le> level t' s - (if fst (step t' s) then 1 else 0)"
    using admit [OF ok] deny [OF ok] by auto
  have "level t' s \<le> level t s + of_int (t' - t) * rate s"
    using Cons.prems(1) le by (rule refill)
  with IH one have "of_nat (length (filter (\<lambda>b. b) (run_limiter step (t' # ts) s))) \<le>
      level t s + of_int (t' - t) * rate s + of_int (last (t' # ts) - t') * rate s"
    by (simp split: if_splits)
  also have "\<dots> = level t s + of_int (last (t # t' # ts) - t) * rate s"
    by (simp add: algebra_simps)
  finally show ?case .
qed

end

lemma rate_nonneg: "args_ok a \<Longrightarrow> 0 \<le> t \<Longrightarrow> 0 \<le> of_int t * of_int (ba_requests a) / (of_int (ba_window a) :: rat)"
  by (simp add: args_ok_def)

lemma ideal_level_bounds:
  assumes "ideal_ok t s"
  shows "0 \<le> ideal_level (fst s) t (snd s) \<and> ideal_level (fst s) t (snd s) \<le> of_int (ba_capacity (fst s))"
proof (cases "snd s")
  case None
  with assms show ?thesis by (simp add: ideal_level_def ideal_ok_def args_ok_def)
next
  case (Some k)
  obtain tokens updated where k: "k = (tokens, updated)" by (cases k)
  with Some assms rate_nonneg [of "fst s" "t - updated"] show ?thesis
    by (simp add: ideal_level_def ideal_ok_def args_ok_def)
qed

lemma ideal_refill:
  assumes "ideal_ok t s" and "t \<le> t'"
  shows "ideal_level (fst s) t' (snd s) \<le> ideal_level (fst s) t (snd s) + of_int (t' - t) * ideal_rate s"
proof -
  have r: "0 \<le> of_int (t' - t) * ideal_rate s"
    using assms rate_nonneg [of "fst s" "t' - t"] by (simp add: ideal_rate_def ideal_ok_def)
  show ?thesis
  proof (cases "snd s")
    case None
    with r show ?thesis by (simp add: ideal_level_def)
  next
    case (Some k)
    obtain tokens updated where k: "k = (tokens, updated)" by (cases k)
    have "(of_int (t' - updated) :: rat) * of_int (ba_requests (fst s)) / of_int (ba_window (fst s)) =
        of_int (t - updated) * of_int (ba_requests (fst s)) / of_int (ba_window (fst s)) +
        of_int (t' - t) * ideal_rate s"
      by (simp add: ideal_rate_def algebra_simps diff_divide_distrib)
    with r Some k show ?thesis by (simp add: ideal_level_def min_def)
  qed
qed

interpretation ideal: limiter ideal_step "\<lambda>t s. ideal_level (fst s) t (snd s)" ideal_rate ideal_ok
proof
  fix t s
  assume ok: "ideal_ok t s"
  show "0 \<le> ideal_level (fst s) t (snd s)" using ideal_level_bounds [OF ok] by simp
  show "ideal_level (fst s) t' (snd s) \<le> ideal_level (fst s) t (snd s) + of_int (t' - t) * ideal_rate s"
    if "t \<le> t'" for t' using ok that by (rule ideal_refill)
  show "ideal_level (fst (snd (ideal_step t s))) t (snd (snd (ideal_step t s))) \<le> ideal_level (fst s) t (snd s) - 1"
    if "fst (ideal_step t s)" using that by (simp add: ideal_step_def ideal_level_def Let_def)
  show "ideal_level (fst (snd (ideal_step t s))) t (snd (snd (ideal_step t s))) \<le> ideal_level (fst s) t (snd s)"
    if "\<not> fst (ideal_step t s)" using that by (simp add: ideal_step_def ideal_level_def Let_def)
  show "ideal_ok t (snd (ideal_step t s))"
    using ok ideal_level_bounds [OF ok] by (simp add: ideal_ok_def ideal_step_def Let_def)
  show "ideal_ok t' s" if "t \<le> t'" for t'
    using ok that by (auto simp: ideal_ok_def split: option.splits)
next
  show "ideal_rate (snd (ideal_step t s)) = ideal_rate s" for t s
    by (simp add: ideal_rate_def ideal_step_def Let_def)
qed

section \<open>The script refines the reference bucket\<close>

text \<open>
  The script forgets a bucket two windows after its last use and starts again with the
  full capacity. When the capacity is at most two windows' worth of requests, the
  forgotten bucket would have been full anyway.
\<close>

definition abs_bucket :: "bucket option \<Rightarrow> (rat \<times> int) option" where
  "abs_bucket b = map_option (\<lambda>k. (bk_tokens k, bk_updated k)) b"

definition script_ok :: "bucket_args \<Rightarrow> int \<Rightarrow> bucket option \<Rightarrow> bool" where
  "script_ok a t b \<longleftrightarrow> ideal_ok t (a, abs_bucket b) \<and>
     (case b of None \<Rightarrow> True | Some k \<Rightarrow> bk_expire k = bk_updated k + 2 * ba_window a)"

lemma script_level:
  assumes "script_ok a t b" and "ba_capacity a \<le> 2 * ba_requests a"
  shows "refilled a (case live_bucket t b of None \<Rightarrow> of_int (ba_capacity a) | Some k \<Rightarrow> bk_tokens k)
      (t - (case live_bucket t b of None \<Rightarrow> t | Some k \<Rightarrow> bk_updated k)) = ideal_level a t (abs_bucket b)"
proof -
  have w: "0 < ba_window a" "0 < ba_requests a" "0 \<le> ba_capacity a"
    using assms(1) by (auto simp: script_ok_def ideal_ok_def args_ok_def)
  show ?thesis
  proof (cases "live_bucket t b")
    case (Some k)
    then have "b = Some k" by (auto simp: live_bucket_def split: option.splits if_splits)
    with Some w show ?thesis by (simp add: refilled_def ideal_level_def abs_bucket_def)
  next
    case None
    show ?thesis
    proof (cases b)
      case None
      then show ?thesis using w by (simp add: refilled_def ideal_level_def abs_bucket_def live_bucket_def)
    next
      case (Some k)
      with None assms(1) have t: "bk_updated k + 2 * ba_window a \<le> t" and tok: "0 \<le> bk_tokens k"
        by (auto simp: live_bucket_def script_ok_def ideal_ok_def abs_bucket_def split: if_splits)
      have "of_int (ba_capacity a) \<le> (of_int (2 * ba_requests a) :: rat)"
        using assms(2) by (simp only: of_int_le_iff)
      also have "\<dots> = of_int (2 * ba_window a) * of_int (ba_requests a) / of_int (ba_window a)"
        using w by simp
      also have "(of_int (2 * ba_window a) :: rat) \<le> of_int (t - bk_updated k)"
        using t by (simp only: of_int_le_iff)
      then have "(of_int (2 * ba_window a) :: rat) * of_int (ba_requests a) / of_int (ba_window a)
          \<le> of_int (t - bk_updated k) * of_int (ba_requests a) / of_int (ba_window a)"
        using w by (intro divide_right_mono mult_right_mono) simp_all
      finally show ?thesis
        using None Some w tok by (simp add: refilled_def ideal_level_def abs_bucket_def)
    qed
  qed
qed

lemma script_step:
  assumes "script_ok a t b" and "ba_capacity a \<le> 2 * ba_requests a"
  shows "fst (token_bucket_script a t b) = (if fst (ideal_step t (a, abs_bucket b)) then 1 else 0) \<and>
    (a, abs_bucket (snd (token_bucket_script a t b))) = snd (ideal_step t (a, abs_bucket b)) \<and>
    script_ok a t (snd (token_bucket_script a t b))"
proof -
  have ok: "ideal_ok t (a, abs_bucket b)" and w: "0 < ba_window a"
    using assms(1) by (auto simp: script_ok_def ideal_ok_def args_ok_def)
  have "(a, abs_bucket (snd (token_bucket_script a t b))) = snd (ideal_step t (a, abs_bucket b))"
    using w by (simp add: token_bucket_script_def ideal_step_def script_level [OF assms] abs_bucket_def Let_def)
  moreover from this ideal.okay_step [OF ok]
  have "script_ok a t (snd (token_bucket_script a t b))"
    using w by (simp add: script_ok_def token_bucket_script_def Let_def)
  ultimately show ?thesis
    using w by (simp add: token_bucket_script_def ideal_step_def script_level [OF assms] Let_def)
qed

lemma script_refines:
  assumes "script_ok a t b" and "ba_capacity a \<le> 2 * ba_requests a" and "sorted (t # ts)"
  shows "run_script a ts b =
    map (\<lambda>x. if x then 1 else 0) (run_limiter ideal_step ts (a, abs_bucket b))"
  using assms
proof (induction ts arbitrary: t b)
  case Nil
  then show ?case by simp
next
  case (Cons t' ts)
  from Cons.prems(1,3) have ok: "script_ok a t' b"
    using ideal.okay_later [of t "(a, abs_bucket b)" t'] by (simp add: script_ok_def)
  note S = script_step [OF ok Cons.prems(2)]
  from S Cons.prems have "run_script a ts (snd (token_bucket_script a t' b)) =
     map (\<lambda>x. if x then 1 else 0) (run_limiter ideal_step ts (snd (ideal_step t' (a, abs_bucket b))))"
    using Cons.IH [of t' "snd (token_bucket_script a t' b)"] by simp
  with S show ?case by (simp add: Let_def split_beta)
qed

section \<open>Properties\<close>


definition sample_args :: bucket_args where
  "sample_args = \<lparr>ba_capacity = 2, ba_requests = 1, ba_window = 1000\<rparr>"




text \<open>with a burst larger than the request count the expiry breaks that bound. One
  request per second with a burst of three admits four requests at time 0 and four more
  two seconds later, although only two tokens were earned in between: the script drops the
  bucket after two windows and starts again from the full capacity.\<close>

lemma expiry_exceeds_configured_rate:
  "sum_list (run_script \<lparr>ba_capacity = 4, ba_requests = 1, ba_window = 1000\<rparr>
     [0, 0, 0, 0, 2000, 2000, 2000, 2000] None) = 8 \<and>
   4 + (2000 - 0) * 1 / (1000 :: rat) < 8"
  by (simp add: token_bucket_script_def live_bucket_def refilled_def Let_def)

text \<open>a window below one millisecond, which validation accepts, reaches the script as 0
  and switches the limit off: every request is admitted, whatever the times.\<close>

lemma submillisecond_window_never_limits:
  assumes "1 \<le> ba_capacity a" and "ba_window a = 0"
  shows "run_script a ts None = replicate (length ts) 1"
  using assms
  by (induction ts) (simp_all add: token_bucket_script_def live_bucket_def refilled_def Let_def)

lemma submillisecond_window_never_limits_witness:
  "rate_policy_check (''tight'', \<lparr>rp_requests = 1, rp_burst = 0, rp_window = 500000\<rparr>) = None \<and>
   run_script \<lparr>ba_capacity = 1, ba_requests = 1, ba_window = 500000 div millisecond\<rparr> [0, 0, 0] None = [1, 1, 1]"
proof
  show "rate_policy_check (''tight'', \<lparr>rp_requests = 1, rp_burst = 0, rp_window = 500000\<rparr>) = None"
    by (simp add: rate_policy_check_def)
  show "run_script \<lparr>ba_capacity = 1, ba_requests = 1, ba_window = 500000 div millisecond\<rparr> [0, 0, 0] None = [1, 1, 1]"
    by (subst submillisecond_window_never_limits) (simp_all add: numeral_eq_Suc)
qed

end
