(* ===== verification/Paths.thy ===== *)
theory Paths
  imports Sample_Config
begin

text \<open>
  Path handling of \<open>app.go\<close>: \<open>joinURLPath\<close>, \<open>rewritePath\<close> and
  \<open>rewriteRedirectLocation\<close>. The URL operations \<open>url.Parse\<close>, \<open>URL.String\<close> and
  \<open>URL.ResolveReference\<close> that the redirect rewriting calls are its parameters. The
  theorems say what path the upstream sees and that a redirect to a rewritten path sends
  the client back under the prefix of the route.
\<close>

section \<open>Definitions\<close>

definition joinURLPath :: "string \<Rightarrow> string \<Rightarrow> string" where
  "joinURLPath left right =
     (let left = (if left = [] then ''/'' else left)
      in trim_suffix left ''/'' @ ''/'' @ trim_prefix right ''/'')"

definition rewritePath :: "string \<Rightarrow> string \<Rightarrow> string \<Rightarrow> string" where
  "rewritePath pathValue prefix replacement =
     (let remainder = trim_prefix pathValue (trim_suffix prefix ''/'')
      in joinURLPath replacement remainder)"

record url_ops =
  uo_parse :: "string \<Rightarrow> url option"
  uo_string :: "url \<Rightarrow> string"
  uo_resolve :: "url \<Rightarrow> url \<Rightarrow> url"  \<comment> \<open>\<open>base.ResolveReference(ref)\<close>\<close>

definition redirect_path :: "routeConfig \<Rightarrow> string \<Rightarrow> string" where
  "redirect_path route path =
     (let rewrite = trim_suffix (r_path_rewrite route) ''/'' in
      if rewrite \<noteq> [] \<and> rewrite \<noteq> ''/'' \<and> (path = rewrite \<or> has_prefix path (rewrite @ ''/''))
      then trim_prefix path rewrite else path)"

definition rewriteRedirectLocation :: "url_ops \<Rightarrow> http_response \<Rightarrow> routeConfig \<Rightarrow> http_response" where
  "rewriteRedirectLocation U response route =
     (case p_request_url response of
        None \<Rightarrow> response
      | Some base \<Rightarrow>
          (case uo_parse U (header_get (p_header response) ''Location'') of
             None \<Rightarrow> response
           | Some location \<Rightarrow>
               if uo_string U location = [] then response
               else (let resolved = uo_resolve U base location in
                 if \<not> equal_fold (u_host resolved) (u_host base) then response
                 else (let path = redirect_path route (u_path resolved);
                           resolved = resolved\<lparr>u_scheme := [], u_host := [], u_user := None,
                             u_path := joinURLPath (r_path_prefix route) path\<rparr>
                       in response\<lparr>p_header :=
                            header_set (p_header response) ''Location'' (uo_string U resolved)\<rparr>))))"

section \<open>Facts\<close>

definition clean_path :: "string \<Rightarrow> bool" where
  "clean_path p \<longleftrightarrow> p = [] \<or> has_prefix p ''/''"
  \<comment> \<open>empty or starting with a slash, as the remainder of a matched path is\<close>

lemma joinURLPath_clean: "clean_path right \<Longrightarrow> left \<noteq> [] \<Longrightarrow>
   joinURLPath left right = trim_suffix left ''/'' @ (if right = [] then ''/'' else right)"
  by (auto simp: joinURLPath_def clean_path_def has_prefix_iff trim_prefix_def)

lemma joinURLPath_starts: "has_prefix left ''/'' \<or> left = [] \<Longrightarrow> has_prefix (joinURLPath left right) ''/''"
proof -
  assume left: "has_prefix left ''/'' \<or> left = []"
  have root: "trim_suffix ''/'' ''/'' = []"
    by (simp add: trim_suffix_def has_suffix_def)
  show ?thesis
  proof (cases "trim_suffix (if left = [] then ''/'' else left) ''/''")
    case Nil
    then show ?thesis by (simp add: joinURLPath_def has_prefix_def)
  next
    case (Cons c cs)
    with root have "left \<noteq> []" by auto
    with left obtain t where t: "left = CHR ''/'' # t" by (auto simp: has_prefix_iff)
    with Cons trim_suffix_slash [of left] have "c = CHR ''/''" by auto
    with Cons show ?thesis by (simp add: joinURLPath_def has_prefix_def)
  qed
qed

lemma rewritePath_matched:
  assumes "clean_path rest" and "replacement \<noteq> []"
  shows "rewritePath (trim_suffix prefix ''/'' @ rest) prefix replacement =
     trim_suffix replacement ''/'' @ (if rest = [] then ''/'' else rest)"
  using joinURLPath_clean [OF assms] by (simp add: rewritePath_def)

text \<open>
  A redirect that the upstream issues to the path that \<open>rewritePath\<close> computed for
  some request is turned back into the path of that request, trailing slash aside.
\<close>

lemma redirect_path_inverse:
  assumes "clean_path rest" and "r_path_rewrite route \<noteq> ''//''"
  shows "redirect_path route (trim_suffix (r_path_rewrite route) ''/'' @ (if rest = [] then ''/'' else rest))
     = (if rest = [] then ''/'' else rest)"
proof -
  let ?w = "trim_suffix (r_path_rewrite route) ''/''"
  let ?q = "if rest = [] then ''/'' else rest"
  have "has_prefix ?q ''/''" using assms(1) by (auto simp: clean_path_def)
  then obtain t where t: "?q = ''/'' @ t" by (auto simp: has_prefix_iff)
  show ?thesis
  proof (cases "?w = [] \<or> ?w = ''/''")
    case True
    moreover have "r_path_rewrite route = ''/''" if "?w = ''/''"
      using trim_suffix_slash [of "r_path_rewrite route"] that assms(2) by simp
    moreover have "trim_suffix ''/'' ''/'' = []" by (simp add: trim_suffix_def has_suffix_def)
    ultimately have "?w = []" by fastforce
    then show ?thesis by (simp add: redirect_path_def)
  next
    case False
    have "has_prefix (?w @ ?q) (?w @ ''/'')" unfolding t by (simp add: has_prefix_def)
    with False show ?thesis by (simp add: redirect_path_def Let_def)
  qed
qed

section \<open>Properties\<close>

text \<open>for a request path that consists of the route's prefix (trailing slash aside) and
  a rest that is empty or starts with a slash, \<open>rewritePath\<close> replaces exactly the
  prefix by the rewrite prefix and keeps the rest; the result starts with a slash.\<close>

lemma rewritePath_replaces_prefix:
  assumes "clean_path rest" and "has_prefix replacement ''/''"
  shows "rewritePath (trim_suffix prefix ''/'' @ rest) prefix replacement =
      trim_suffix replacement ''/'' @ (if rest = [] then ''/'' else rest) \<and>
    has_prefix (rewritePath (trim_suffix prefix ''/'' @ rest) prefix replacement) ''/''"
proof -
  have "replacement \<noteq> []" using assms(2) by auto
  moreover have "has_prefix (rewritePath path prefix replacement) ''/''" for path
    using joinURLPath_starts assms(2) by (simp add: rewritePath_def Let_def)
  ultimately show ?thesis using rewritePath_matched [OF assms(1)] by blast
qed

lemma rewritePath_replaces_prefix_witness:
  "rewritePath ''/api/users'' ''/api'' ''/v2/'' = ''/v2/users''"
proof -
  have "clean_path ''/users''" and "has_prefix ''/v2/'' ''/''"
    by (simp_all add: clean_path_def has_prefix_def)
  from rewritePath_replaces_prefix [OF this, of "''/api/''"] show ?thesis
    by (simp add: trim_suffix_def has_suffix_def rewritePath_def)
qed

text \<open>C36: when the upstream answers with a redirect to the path that \<open>rewritePath\<close>
  gave it for some request, \<open>rewriteRedirectLocation\<close> puts the path of that request
  (with a slash for an empty rest) back into the \<open>Location\<close>, without scheme and host.\<close>

theorem redirect_returns_under_prefix:
  assumes "clean_path rest" and "r_path_rewrite route \<noteq> ''//''"
    and "has_prefix (r_path_rewrite route) ''/''" and "has_prefix (r_path_prefix route) ''/''"
    and "p_request_url response = Some base"
    and "uo_parse U (header_get (p_header response) ''Location'') = Some location"
    and "uo_string U location \<noteq> []"
    and "equal_fold (u_host (uo_resolve U base location)) (u_host base)"
    and "u_path (uo_resolve U base location) =
      rewritePath (trim_suffix (r_path_prefix route) ''/'' @ rest) (r_path_prefix route) (r_path_rewrite route)"
  shows "header_get (p_header (rewriteRedirectLocation U response route)) ''Location'' =
    uo_string U ((uo_resolve U base location)\<lparr>u_scheme := [], u_host := [], u_user := None,
      u_path := trim_suffix (r_path_prefix route) ''/'' @ (if rest = [] then ''/'' else rest)\<rparr>)"
proof -
  let ?q = "if rest = [] then ''/'' else rest"
  have ne: "r_path_rewrite route \<noteq> []" "r_path_prefix route \<noteq> []" using assms(3,4) by auto
  have "redirect_path route (u_path (uo_resolve U base location)) = ?q"
    unfolding assms(9) rewritePath_matched [OF assms(1) ne(1)]
    by (rule redirect_path_inverse [OF assms(1,2)])
  moreover have "clean_path ?q" using assms(1) by (auto simp: clean_path_def)
  ultimately have "joinURLPath (r_path_prefix route) (redirect_path route (u_path (uo_resolve U base location)))
      = trim_suffix (r_path_prefix route) ''/'' @ ?q"
    using joinURLPath_clean [of ?q "r_path_prefix route"] ne by (simp split: if_splits)
  with assms(5-8) show ?thesis
    by (simp add: rewriteRedirectLocation_def Let_def hdr_simps)
qed

definition sample_url_ops :: url_ops where
  "sample_url_ops = \<lparr>uo_parse = (\<lambda>s. Some \<lparr>u_scheme = [], u_user = None, u_host = [], u_path = s,
      u_raw_query = [], u_fragment = []\<rparr>),
     uo_string = (\<lambda>u. (if u_scheme u = [] then [] else u_scheme u @ '':'') @
       (if u_host u = [] then [] else ''//'' @ u_host u) @ u_path u),
     uo_resolve = (\<lambda>base ref. if u_host ref = [] then ref\<lparr>u_scheme := u_scheme base, u_host := u_host base\<rparr> else ref)\<rparr>"

definition sample_redirect :: "string \<Rightarrow> http_response" where
  "sample_redirect location = \<lparr>p_status = 302, p_header = [(''Location'', [location])],
     p_body = \<lparr>rd_data = [], rd_err = None\<rparr>,
     p_request_url = Some \<lparr>u_scheme = ''http'', u_user = None, u_host = ''hub.lab.lan'', u_path = ''/app/current'',
       u_raw_query = [], u_fragment = []\<rparr>\<rparr>"

theorem redirect_returns_under_prefix_witness:
  "header_get (p_header (rewriteRedirectLocation sample_url_ops (sample_redirect ''/app/login'')
     (sample_route\<lparr>r_path_prefix := ''/homar'', r_path_rewrite := ''/app''\<rparr>))) ''Location'' = ''/homar/login''"
  by (subst redirect_returns_under_prefix [where rest = "''/login''" and base = "the (p_request_url (sample_redirect []))"
        and location = "the (uo_parse sample_url_ops ''/app/login'')"])
     (simp_all add: clean_path_def has_prefix_def sample_redirect_def sample_url_ops_def header_get_def canonical_key_def
        valid_field_byte_def upper_char_def lower_char_def equal_fold_def trim_suffix_def has_suffix_def
        rewritePath_def joinURLPath_def trim_prefix_def)

text \<open>the base path of the upstream URL is not taken off again. With upstream base path
  \<open>/base\<close>, prefix \<open>/homar\<close> and rewrite \<open>/app\<close>, the request \<open>/homar/login\<close> reaches
  the upstream as \<open>/base/app/login\<close>, but a redirect of the upstream to that same path is
  rewritten to \<open>/homar/base/app/login\<close>, not to \<open>/homar/login\<close>.\<close>

lemma redirect_keeps_upstream_base_path:
  "joinURLPath ''/base'' (rewritePath ''/homar/login'' ''/homar'' ''/app'') = ''/base/app/login'' \<and>
   header_get (p_header (rewriteRedirectLocation sample_url_ops (sample_redirect ''/base/app/login'')
     (sample_route\<lparr>r_path_prefix := ''/homar'', r_path_rewrite := ''/app''\<rparr>))) ''Location'' =
       ''/homar/base/app/login''"
  by code_simp

end
