(* ===== verification/Upstream_Pool.thy ===== *)
theory Upstream_Pool
  imports Paths
begin

text \<open>
  The upstream pool of \<open>app.go\<close>: endpoints with their health flags, the round-robin
  counter (a \<open>uint64\<close> that wraps around), \<open>pick\<close>, \<open>hasHealthy\<close> and the health
  checkers. An endpoint is named by its index in the pool. The locale \<open>balancer\<close> is
  the contract the proxy loop relies on; it is interpreted on \<open>pick\<close>.
\<close>

section \<open>Definitions\<close>

record upstreamEndpoint =
  ep_url :: url
  ep_healthy :: bool

record upstreamPool =
  pool_name :: string
  pool_endpoints :: "upstreamEndpoint list"
  pool_next :: "64 word"

function pick_loop :: "upstreamEndpoint list \<Rightarrow> 64 word \<Rightarrow> nat \<Rightarrow> nat option" where
  "pick_loop eps start offset =
     (if offset < length eps then
        (let i = unat ((start + word_of_nat offset) mod word_of_nat (length eps)) in
         if ep_healthy (eps ! i) then Some i else pick_loop eps start (Suc offset))
      else None)"
  by pat_completeness auto
termination
  by (relation "measure (\<lambda>(eps, start, offset). length eps - offset)") auto

declare pick_loop.simps [simp del]

definition pick :: "upstreamPool \<Rightarrow> nat option \<times> upstreamPool" where
  "pick pool =
     (let next = pool_next pool + 1; start = next - 1
      in (pick_loop (pool_endpoints pool) start 0, pool\<lparr>pool_next := next\<rparr>))"

definition hasHealthy :: "upstreamPool \<Rightarrow> bool" where
  "hasHealthy pool \<longleftrightarrow> list_ex ep_healthy (pool_endpoints pool)"

text \<open>
  The result of \<open>client.Do\<close> in a health check: a response with its status, and
  whether an error came with it.
\<close>

definition check_healthy :: "int option \<Rightarrow> bool \<Rightarrow> bool" where
  "check_healthy response err =
     (case response of None \<Rightarrow> False | Some status \<Rightarrow> \<not> err \<and> 200 \<le> status \<and> status < 400)"

definition health_url :: "upstreamEndpoint \<Rightarrow> string \<Rightarrow> url" where
  "health_url ep healthPath = (ep_url ep)\<lparr>u_path := joinURLPath (u_path (ep_url ep)) healthPath\<rparr>"

definition health_check :: "(url \<Rightarrow> int option \<times> bool) \<Rightarrow> string \<Rightarrow> nat \<Rightarrow> upstreamPool \<Rightarrow> upstreamPool" where
  "health_check client_do healthPath i pool =
     (let ep = pool_endpoints pool ! i; (response, err) = client_do (health_url ep healthPath)
      in pool\<lparr>pool_endpoints := (pool_endpoints pool)[i := ep\<lparr>ep_healthy := check_healthy response err\<rparr>]\<rparr>)"

datatype outcome = Started "nat list" | Panicked

definition startHealthChecks :: "upstreamPool \<Rightarrow> duration \<Rightarrow> outcome" where
  "startHealthChecks pool interval =
     (if pool_endpoints pool \<noteq> [] \<and> interval \<le> 0 then Panicked
      else Started [0..<length (pool_endpoints pool)])"
  \<comment> \<open>one goroutine per endpoint; \<open>time.NewTicker\<close> panics unless the interval is positive\<close>

text \<open>
  The checker goroutines: each waits in its \<open>select\<close>, starts a check on a tick of its own
  ticker (also when the context is done by then: \<open>select\<close> takes any ready case), stores the
  flag when the check ends, and returns when it takes the \<open>Done\<close> case. Checks of different
  endpoints overlap; the answer of \<open>client.Do\<close> is arbitrary.
\<close>

record health_state =
  hs_pool :: upstreamPool
  hs_done :: bool
  hs_waiting :: "nat list"   \<comment> \<open>goroutines in \<open>select\<close>\<close>
  hs_checking :: "nat list"  \<comment> \<open>goroutines inside \<open>check\<close>\<close>

definition health_start :: "upstreamPool \<Rightarrow> nat list \<Rightarrow> health_state" where
  "health_start pool started = \<lparr>hs_pool = pool, hs_done = False, hs_waiting = started, hs_checking = []\<rparr>"

inductive health_step :: "string \<Rightarrow> health_state \<Rightarrow> health_state \<Rightarrow> bool" for healthPath where
  tick: "i \<in> set (hs_waiting s) \<Longrightarrow>
     health_step healthPath s (s\<lparr>hs_waiting := remove1 i (hs_waiting s), hs_checking := i # hs_checking s\<rparr>)"
| finish: "i \<in> set (hs_checking s) \<Longrightarrow>
     health_step healthPath s (s\<lparr>hs_pool := health_check (\<lambda>_. (response, err)) healthPath i (hs_pool s),
       hs_checking := remove1 i (hs_checking s), hs_waiting := i # hs_waiting s\<rparr>)"
| cancel: "health_step healthPath s (s\<lparr>hs_done := True\<rparr>)"
| stop: "i \<in> set (hs_waiting s) \<Longrightarrow> hs_done s \<Longrightarrow>
     health_step healthPath s (s\<lparr>hs_waiting := remove1 i (hs_waiting s)\<rparr>)"

section \<open>The balancing contract\<close>

definition pool_ok :: "upstreamPool \<Rightarrow> bool" where
  "pool_ok pool \<longleftrightarrow> length (pool_endpoints pool) < 2 ^ 63"
  \<comment> \<open>the length of a Go slice\<close>

definition healthy_set :: "upstreamPool \<Rightarrow> nat set" where
  "healthy_set pool = {i. i < length (pool_endpoints pool) \<and> ep_healthy (pool_endpoints pool ! i)}"

lemma hasHealthy_iff: "hasHealthy pool \<longleftrightarrow> healthy_set pool \<noteq> {}"
  by (auto simp: hasHealthy_def healthy_set_def list_ex_length)

definition pick_index :: "nat \<Rightarrow> 64 word \<Rightarrow> nat \<Rightarrow> nat" where
  "pick_index n start offset = unat ((start + word_of_nat offset) mod word_of_nat n)"

lemma pick_index_mod:
  assumes "n < 2 ^ 63"
  shows "pick_index n start offset = unat (start + word_of_nat offset) mod n"
proof -
  have "unat (word_of_nat n :: 64 word) = n"
    using assms by (simp add: unat_of_nat)
  then show ?thesis by (simp add: pick_index_def unat_mod_distrib)
qed

lemma pick_index_bound: "0 < n \<Longrightarrow> n < 2 ^ 63 \<Longrightarrow> pick_index n start offset < n"
  by (simp add: pick_index_mod)

lemma pick_index_no_wrap:
  assumes "n < 2 ^ 63" and "unat start + offset < 2 ^ 64"
  shows "pick_index n start offset = (unat start + offset) mod n"
  using assms by (simp add: pick_index_mod unat_word_ariths unat_of_nat)

lemma pick_loop_find:
  "pick_loop eps start offset =
     find (\<lambda>i. ep_healthy (eps ! i)) (map (pick_index (length eps) start) [offset..<length eps])"
proof (induction eps start offset rule: pick_loop.induct)
  case (1 eps start offset)
  show ?case
  proof (cases "offset < length eps")
    case True
    with 1 show ?thesis
      by (simp add: pick_loop.simps [of eps start offset] upt_conv_Cons pick_index_def Let_def)
  next
    case False
    then show ?thesis by (simp add: pick_loop.simps [of eps start offset])
  qed
qed

lemma mod_shift_inj: "inj_on (\<lambda>k. (s + k) mod n) {..<n :: nat}"
proof (rule linorder_inj_onI)
  fix k k' :: nat
  assume "k < k'" and "k \<in> {..<n}" and "k' \<in> {..<n}"
  then have "\<not> n dvd (s + k') - (s + k)" by (auto dest: dvd_imp_le)
  then show "(s + k) mod n \<noteq> (s + k') mod n"
    using \<open>k < k'\<close> mod_eq_dvd_iff_nat [of "s + k" "s + k'" n] by auto
qed auto

lemma mod_shift_image: "(\<lambda>k. (s + k) mod n) ` {..<n :: nat} = {..<n}"
proof (cases "n = 0")
  case False
  then have "(\<lambda>k. (s + k) mod n) ` {..<n} \<subseteq> {..<n}" by auto
  then show ?thesis by (simp add: card_image mod_shift_inj card_subset_eq)
qed simp

lemma pick_loop_healthy:
  assumes "length eps < 2 ^ 63" and "pick_loop eps start 0 = Some i"
  shows "i < length eps \<and> ep_healthy (eps ! i)"
proof -
  from assms(2) obtain k where "k < length eps" and "i = pick_index (length eps) start k"
    and "ep_healthy (eps ! i)"
    by (auto simp: pick_loop_find find_Some_iff)
  then show ?thesis using assms(1) pick_index_bound [of "length eps" start k] by fastforce
qed

lemma pick_loop_None:
  assumes "length eps < 2 ^ 63" and "unat start + length eps \<le> 2 ^ 64"
  shows "pick_loop eps start 0 = None \<longleftrightarrow> (\<forall>i < length eps. \<not> ep_healthy (eps ! i))"
proof -
  have "pick_index (length eps) start k = (unat start + k) mod length eps" if "k < length eps" for k
    by (rule pick_index_no_wrap) (use that assms in auto)
  then have "pick_index (length eps) start ` {..<length eps} = (\<lambda>k. (unat start + k) mod length eps) ` {..<length eps}"
    by (intro image_cong) auto
  then have "set (map (pick_index (length eps) start) [0..<length eps]) = {..<length eps}"
    by (simp add: mod_shift_image atLeast0LessThan)
  then show ?thesis by (auto simp: pick_loop_find find_None_iff)
qed

primrec iterate_choice :: "('p \<Rightarrow> nat option \<times> 'p) \<Rightarrow> nat \<Rightarrow> 'p \<Rightarrow> nat option list \<times> 'p" where
  "iterate_choice f 0 p = ([], p)"
| "iterate_choice f (Suc n) p =
     (let rs = iterate_choice f n (snd (f p)) in (fst (f p) # fst rs, snd rs))"

locale balancer =
  fixes balance :: "'p \<Rightarrow> nat option \<times> 'p" and good :: "'p \<Rightarrow> nat set" and okay :: "'p \<Rightarrow> bool"
  assumes balance_good: "okay p \<Longrightarrow> fst (balance p) = Some i \<Longrightarrow> i \<in> good p"
    and good_balance: "good (snd (balance p)) = good p"
    and okay_balance: "okay p \<Longrightarrow> okay (snd (balance p))"
begin

lemma iterate_good:
  "okay p \<Longrightarrow> Some i \<in> set (fst (iterate_choice balance n p)) \<Longrightarrow> i \<in> good p"
proof (induction n arbitrary: p)
  case 0
  then show ?case by simp
next
  case (Suc n)
  have "okay (snd (balance p))" using Suc.prems(1) by (rule okay_balance)
  from Suc.prems(2) consider "fst (balance p) = Some i"
    | "Some i \<in> set (fst (iterate_choice balance n (snd (balance p))))"
    by (auto simp: Let_def)
  then show ?case
  proof cases
    case 1
    with Suc.prems(1) show ?thesis by (rule balance_good)
  next
    case 2
    with \<open>okay (snd (balance p))\<close> have "i \<in> good (snd (balance p))" by (rule Suc.IH)
    then show ?thesis by (simp add: good_balance)
  qed
qed

lemma iterate_keeps:
  "okay p \<Longrightarrow> good (snd (iterate_choice balance n p)) = good p \<and> okay (snd (iterate_choice balance n p))"
  by (induction n arbitrary: p) (simp_all add: Let_def good_balance okay_balance)

end

lemma pick_pool [simp]:
  "pool_endpoints (snd (pick pool)) = pool_endpoints pool"
  "pool_name (snd (pick pool)) = pool_name pool"
  "pool_next (snd (pick pool)) = pool_next pool + 1"
  by (simp_all add: pick_def)

interpretation rr: balancer pick healthy_set pool_ok
  by unfold_locales
     (use pick_loop_healthy in \<open>fastforce simp: healthy_set_def pool_ok_def pick_def Let_def\<close>)+

section \<open>Properties\<close>

text \<open>C35: \<open>pick\<close> only returns the index of a healthy endpoint of the pool, and as long as
  the \<open>uint64\<close> counter does not wrap around within the pool it finds one whenever
  \<open>hasHealthy\<close> holds.\<close>

theorem pick_finds_healthy:
  assumes "pool_ok pool" and "unat (pool_next pool) + length (pool_endpoints pool) \<le> 2 ^ 64"
  shows "(case fst (pick pool) of
      None \<Rightarrow> \<not> hasHealthy pool
    | Some i \<Rightarrow> i < length (pool_endpoints pool) \<and> ep_healthy (pool_endpoints pool ! i))"
proof (cases "fst (pick pool)")
  case None
  then have "pick_loop (pool_endpoints pool) (pool_next pool) 0 = None" by (simp add: pick_def)
  with pick_loop_None [OF _ assms(2)] assms(1) have "healthy_set pool = {}"
    by (simp add: pool_ok_def healthy_set_def)
  with None show ?thesis by (simp add: hasHealthy_iff)
next
  case (Some i)
  with rr.balance_good [OF assms(1)] show ?thesis by (simp add: healthy_set_def)
qed

definition sample_pool :: "64 word \<Rightarrow> bool list \<Rightarrow> upstreamPool" where
  "sample_pool n hs = \<lparr>pool_name = ''users'',
     pool_endpoints = map (\<lambda>h. \<lparr>ep_url = \<lparr>u_scheme = ''http'', u_user = None, u_host = ''one.internal'',
       u_path = [], u_raw_query = [], u_fragment = []\<rparr>, ep_healthy = h\<rparr>) hs,
     pool_next = n\<rparr>"

theorem pick_finds_healthy_witness:
  "case fst (pick (sample_pool 4 [False, False, True])) of
      None \<Rightarrow> False | Some i \<Rightarrow> i < 3"
proof -
  have "pool_ok (sample_pool 4 [False, False, True])"
    and "unat (pool_next (sample_pool 4 [False, False, True])) +
      length (pool_endpoints (sample_pool 4 [False, False, True])) \<le> 2 ^ 64"
    by (simp_all add: pool_ok_def sample_pool_def)
  from pick_finds_healthy [OF this] show ?thesis
    by (simp add: hasHealthy_def sample_pool_def split: option.splits)
qed

lemma pick_all_healthy:
  assumes "pool_ok pool" and "pool_endpoints pool \<noteq> []" and "\<forall>ep \<in> set (pool_endpoints pool). ep_healthy ep"
    and "unat (pool_next pool) < 2 ^ 64"
  shows "fst (pick pool) = Some (unat (pool_next pool) mod length (pool_endpoints pool))"
proof -
  let ?n = "length (pool_endpoints pool)"
  have "pick_index ?n (pool_next pool) 0 = unat (pool_next pool) mod ?n"
    using assms(1) unfolding pool_ok_def by (simp add: pick_index_mod)
  moreover have "ep_healthy (pool_endpoints pool ! (unat (pool_next pool) mod ?n))"
    using assms(2,3) by simp
  ultimately show ?thesis
    using assms(2) by (simp add: pick_def pick_loop_find upt_conv_Cons Let_def)
qed

lemma picks_all_healthy:
  assumes "pool_ok pool" and "pool_endpoints pool \<noteq> []" and "\<forall>ep \<in> set (pool_endpoints pool). ep_healthy ep"
    and "unat (pool_next pool) + k \<le> 2 ^ 64"
  shows "fst (iterate_choice pick k pool) =
     map (\<lambda>j. Some ((unat (pool_next pool) + j) mod length (pool_endpoints pool))) [0..<k]"
  using assms
proof (induction k arbitrary: pool)
  case 0
  then show ?case by simp
next
  case (Suc k)
  let ?p = "snd (pick pool)"
  have nxt: "unat (pool_next ?p) = Suc (unat (pool_next pool))" if "k \<noteq> 0"
    using Suc.prems(4) that by (simp add: unat_word_ariths)
  have first: "fst (pick pool) = Some (unat (pool_next pool) mod length (pool_endpoints pool))"
    using Suc.prems by (intro pick_all_healthy) auto
  have rest: "fst (iterate_choice pick k ?p) =
     map (\<lambda>j. Some ((unat (pool_next pool) + Suc j) mod length (pool_endpoints pool))) [0..<k]"
  proof (cases "k = 0")
    case False
    with Suc.IH [of ?p] Suc.prems nxt show ?thesis
      by (simp add: pool_ok_def)
  qed simp
  have "[0..<Suc k] = 0 # map Suc [0..<k]" by (simp add: upt_conv_Cons map_Suc_upt)
  with first rest show ?case
    by (simp add: Let_def del: upt_Suc)
qed

text \<open>with all endpoints healthy and no wrap-around, as many consecutive calls of
  \<open>pick\<close> as there are endpoints return every endpoint exactly once.\<close>

lemma round_robin_is_fair:
  assumes "pool_ok pool" and "pool_endpoints pool \<noteq> []" and "\<forall>ep \<in> set (pool_endpoints pool). ep_healthy ep"
    and "unat (pool_next pool) + length (pool_endpoints pool) \<le> 2 ^ 64"
  shows "distinct (fst (iterate_choice pick (length (pool_endpoints pool)) pool)) \<and>
    set (fst (iterate_choice pick (length (pool_endpoints pool)) pool)) = Some ` {..<length (pool_endpoints pool)}"
proof -
  let ?n = "length (pool_endpoints pool)" and ?s = "unat (pool_next pool)"
  have e: "fst (iterate_choice pick ?n pool) = map Some (map (\<lambda>j. (?s + j) mod ?n) [0..<?n])"
    using picks_all_healthy [OF assms] by simp
  have "distinct (map (\<lambda>j. (?s + j) mod ?n) [0..<?n])"
    using mod_shift_inj [of ?s ?n] by (simp add: distinct_map atLeast0LessThan)
  moreover have "set (map (\<lambda>j. (?s + j) mod ?n) [0..<?n]) = {..<?n}"
    by (simp add: mod_shift_image atLeast0LessThan)
  ultimately show ?thesis unfolding e set_map [of Some] distinct_map [of Some] by simp
qed

lemma round_robin_is_fair_witness:
  "set (fst (iterate_choice pick 3 (sample_pool 4 [True, True, True]))) = Some ` {..<3}"
proof -
  have "pool_ok (sample_pool 4 [True, True, True])" and "pool_endpoints (sample_pool 4 [True, True, True]) \<noteq> []"
    and "\<forall>ep \<in> set (pool_endpoints (sample_pool 4 [True, True, True])). ep_healthy ep"
    and "unat (pool_next (sample_pool 4 [True, True, True])) +
      length (pool_endpoints (sample_pool 4 [True, True, True])) \<le> 2 ^ 64"
    by (simp_all add: pool_ok_def sample_pool_def)
  from round_robin_is_fair [OF this] show ?thesis
    by (simp add: sample_pool_def numeral_3_eq_3 del: iterate_choice.simps)
qed

text \<open>when the counter wraps around, \<open>pick\<close> can miss the only healthy endpoint:
  with three endpoints and the counter at \<open>2^64 - 1\<close> the loop visits the indices 0, 0
  and 1, so it reports no healthy upstream although \<open>hasHealthy\<close> holds.\<close>

lemma pick_misses_healthy_at_wrap:
  "hasHealthy (sample_pool (- 1) [False, False, True]) \<and>
   fst (pick (sample_pool (- 1) [False, False, True])) = None"
proof
  show "hasHealthy (sample_pool (- 1) [False, False, True])"
    by (simp add: hasHealthy_def sample_pool_def)
  show "fst (pick (sample_pool (- 1) [False, False, True])) = None"
    by (simp add: pick_def pick_loop.simps sample_pool_def Let_def)
qed

definition health_inv :: "upstreamPool \<Rightarrow> health_state \<Rightarrow> bool" where
  "health_inv pool s \<longleftrightarrow>
     pool_name (hs_pool s) = pool_name pool \<and> pool_next (hs_pool s) = pool_next pool \<and>
     map ep_url (pool_endpoints (hs_pool s)) = map ep_url (pool_endpoints pool) \<and>
     distinct (hs_waiting s @ hs_checking s) \<and>
     set (hs_waiting s @ hs_checking s) \<subseteq> {..<length (pool_endpoints pool)} \<and>
     (\<not> hs_done s \<longrightarrow> set (hs_waiting s @ hs_checking s) = {..<length (pool_endpoints pool)})"

lemma health_check_urls:
  "i < length (pool_endpoints pool) \<Longrightarrow>
   map ep_url (pool_endpoints (health_check c p i pool)) = map ep_url (pool_endpoints pool)"
  by (simp add: health_check_def Let_def map_update split: prod.split)
     (metis length_map list_update_id nth_map)

lemma health_check_other [simp]:
  "pool_name (health_check c p i pool) = pool_name pool" "pool_next (health_check c p i pool) = pool_next pool"
  by (simp_all add: health_check_def Let_def split: prod.split)

lemma health_inv_step:
  assumes "health_inv pool s" and "health_step p s t"
  shows "health_inv pool t"
  using assms(2)
proof cases
  case (finish i response err)
  have "length (pool_endpoints (hs_pool s)) = length (pool_endpoints pool)"
    using assms(1) by (metis health_inv_def length_map)
  moreover have "i < length (pool_endpoints pool)"
    using assms(1) finish(2) by (auto simp: health_inv_def)
  ultimately show ?thesis
    using assms(1) finish by (auto simp: health_inv_def health_check_urls)
qed (use assms(1) in \<open>auto simp: health_inv_def\<close>)

interpretation hc: invariant_system "\<lambda>s. s = health_start pool [0..<length (pool_endpoints pool)]"
  "health_step healthPath" "health_inv pool" for pool healthPath
  by (unfold_locales, simp add: health_inv_def health_start_def lessThan_atLeast0, erule (1) health_inv_step)

text \<open>While the checkers started for a pool run, whatever their interleaving and the answers
  they get, they change nothing of the pool but health flags: its name, counter and endpoint
  addresses stay; every endpoint keeps exactly one live checker until the snapshot's context is
  done, and never gets a second one.\<close>

lemma health_checkers_touch_only_flags:
  assumes "startHealthChecks pool interval = Started is"
    and "reach (\<lambda>s. s = health_start pool is) (health_step healthPath) s"
  shows "health_inv pool s"
proof -
  from assms(1) have "is = [0..<length (pool_endpoints pool)]"
    by (simp add: startHealthChecks_def split: if_splits)
  with assms(2) show ?thesis using hc.reach_inv by simp
qed

lemma health_checkers_touch_only_flags_witness:
  "health_inv (sample_pool 0 [True, True])
     \<lparr>hs_pool = sample_pool 0 [True, True], hs_done = False, hs_waiting = [1], hs_checking = [0]\<rparr>"
proof -
  let ?p = "sample_pool 0 [True, True]"
  have started: "startHealthChecks ?p second = Started [0, 1]" by code_simp
  have "reach (\<lambda>s. s = health_start ?p [0, 1]) (health_step []) (health_start ?p [0, 1])"
    by (rule reach_start) simp
  then have "reach (\<lambda>s. s = health_start ?p [0, 1]) (health_step [])
      ((health_start ?p [0, 1])\<lparr>hs_waiting := remove1 0 (hs_waiting (health_start ?p [0, 1])),
        hs_checking := 0 # hs_checking (health_start ?p [0, 1])\<rparr>)"
    by (rule reach_step) (rule tick, simp add: health_start_def)
  from health_checkers_touch_only_flags [OF started this] show ?thesis
    by (simp add: health_start_def)
qed

end
