(* ===== verification/Body_Transform.thy ===== *)
theory Body_Transform
  imports Sample_Config
begin

text \<open>
  Body and header transformations of \<open>app.go\<close>: \<open>readBounded\<close>, \<open>transformJSON\<close>,
  \<open>applyHeaderTransform\<close> and \<open>removeHopHeaders\<close>. The JSON decoder and encoder are
  parameters. A Go map of the configuration is the list of its entries in the order in
  which one run of the loop visits them, which Go leaves open, so a statement that holds
  for one order only says so.
\<close>

section \<open>Definitions\<close>

definition readBounded :: "reader \<Rightarrow> int \<Rightarrow> go_error + bytes" where
  "readBounded r maximum =
     (case read_all (limit_reader r (wrap64 (maximum + 1))) of
        Inl e \<Rightarrow> Inl (Errorf ''read failed'' [])
      | Inr data \<Rightarrow> if int (length data) > maximum
                    then Inl (Errorf ''body exceeds configured limit'' []) else Inr data)"

definition remove_keys :: "string list \<Rightarrow> (string \<times> json) list \<Rightarrow> (string \<times> json) list" where
  "remove_keys ks obj = fold AList.delete ks obj"

definition rename_key :: "string \<times> string \<Rightarrow> (string \<times> json) list \<Rightarrow> (string \<times> json) list" where
  "rename_key ft obj = (case map_of obj (fst ft) of
      None \<Rightarrow> obj
    | Some value \<Rightarrow> AList.delete (fst ft) (AList.update (snd ft) value obj))"

definition transform_object :: "jsonTransform \<Rightarrow> (string \<times> json) list \<Rightarrow> (string \<times> json) list" where
  "transform_object t obj =
     (let obj = remove_keys (jt_remove t) obj;
          obj = fold rename_key (jt_rename t) obj
      in fold (\<lambda>(key, value). AList.update key value) (jt_add t) obj)"

record json_codec =
  jc_decode :: "bytes \<Rightarrow> (string \<times> json) list option"
    \<comment> \<open>\<open>Decode\<close> into \<open>map[string]any\<close>; \<open>None\<close> on an error or \<open>null\<close>\<close>
  jc_encode :: "json \<Rightarrow> bytes"

definition transformJSON :: "json_codec \<Rightarrow> bytes \<Rightarrow> jsonTransform \<Rightarrow> go_error + bytes" where
  "transformJSON J data t = (case jc_decode J data of
      None \<Rightarrow> Inl (Errorf ''body must be a JSON object'' [])
    | Some obj \<Rightarrow> Inr (jc_encode J (JObj (transform_object t obj))))"

definition hop_headers :: "string list" where
  "hop_headers = [''Connection'', ''Proxy-Connection'', ''Keep-Alive'', ''Proxy-Authenticate'',
     ''Proxy-Authorization'', ''Te'', ''Trailer'', ''Transfer-Encoding'', ''Upgrade'']"

definition removeHopHeaders :: "header \<Rightarrow> header" where
  "removeHopHeaders h = fold (\<lambda>name h. header_del h name) hop_headers h"

definition applyHeaderTransform :: "header \<Rightarrow> transformConfig \<Rightarrow> header" where
  "applyHeaderTransform h t =
     (let h = fold (\<lambda>name h. header_del h name) (tr_remove_headers t) h
      in fold (\<lambda>(name, value) h. header_set h name value) (tr_set_headers t) h)"

section \<open>Facts\<close>

lemma map_of_remove_keys: "map_of (remove_keys ks obj) = (map_of obj) |` (- set ks)"
  unfolding remove_keys_def
proof (induction ks arbitrary: obj)
  case Nil
  then show ?case by simp
next
  case (Cons k ks)
  then show ?case by (auto simp: restrict_map_def fun_eq_iff)
qed

lemma map_of_fold_add:
  "distinct (map fst kvs) \<Longrightarrow>
   map_of (fold (\<lambda>(key, value). AList.update key value) kvs obj) = map_of obj ++ map_of kvs"
proof (induction kvs arbitrary: obj)
  case Nil
  then show ?case by simp
next
  case (Cons kv kvs)
  obtain k v where kv: "kv = (k, v)" by (cases kv)
  with Cons.prems have "k \<notin> dom (map_of kvs)" by (simp add: dom_map_of_conv_image_fst)
  then have "(map_of obj)(k \<mapsto> v) ++ map_of kvs = map_of obj ++ (map_of kvs)(k \<mapsto> v)"
    by (simp only: map_add_upd_left map_add_upd not_False_eq_True)
  with Cons kv show ?case by (simp del: fun_upd_apply)
qed

definition independent_renames :: "(string \<times> string) list \<Rightarrow> bool" where
  "independent_renames rs \<longleftrightarrow> distinct (map fst rs) \<and> distinct (map snd rs) \<and>
     fst ` set rs \<inter> snd ` set rs = {}"

definition renamed :: "(string \<times> string) list \<Rightarrow> (string \<rightharpoonup> json) \<Rightarrow> string \<rightharpoonup> json" where
  "renamed rs m k = (case find (\<lambda>ft. snd ft = k \<and> m (fst ft) \<noteq> None) rs of
      Some ft \<Rightarrow> m (fst ft)
    | None \<Rightarrow> if k \<in> fst ` set rs then None else m k)"

lemma map_of_rename_key:
  "fst ft \<noteq> snd ft \<Longrightarrow> map_of (rename_key ft obj) =
     (case map_of obj (fst ft) of None \<Rightarrow> map_of obj
      | Some v \<Rightarrow> (map_of obj)(snd ft \<mapsto> v, fst ft := None))"
  by (auto simp: rename_key_def split: option.splits)

lemma renamed_cong:
  assumes "\<And>k. k \<in> fst ` set rs \<Longrightarrow> m k = m' k"
  shows "find (\<lambda>ft. snd ft = k \<and> m (fst ft) \<noteq> None) rs = find (\<lambda>ft. snd ft = k \<and> m' (fst ft) \<noteq> None) rs"
  using assms by (intro find_cong) auto

lemma map_of_fold_rename:
  "independent_renames rs \<Longrightarrow> map_of (fold rename_key rs obj) = renamed rs (map_of obj)"
proof (induction rs arbitrary: obj)
  case Nil
  then show ?case by (simp add: renamed_def fun_eq_iff)
next
  case (Cons ft rs)
  obtain f t where ft: "ft = (f, t)" by (cases ft)
  from Cons.prems have ind: "independent_renames rs" and fresh: "f \<notin> fst ` set rs" "t \<notin> snd ` set rs"
      "f \<noteq> t" "t \<notin> fst ` set rs" "f \<notin> snd ` set rs"
    by (auto simp: independent_renames_def ft)
  let ?m = "map_of obj" and ?m' = "map_of (rename_key (f, t) obj)"
  have m': "?m' = (case ?m f of None \<Rightarrow> ?m | Some v \<Rightarrow> ?m(t \<mapsto> v, f := None))"
    using fresh(3) by (simp add: map_of_rename_key split: option.split)
  have same: "?m' k = ?m k" if "k \<in> fst ` set rs" for k
    using that fresh by (auto simp: m' split: option.splits)
  have no_t: "find (\<lambda>ft. snd ft = t \<and> ?m (fst ft) \<noteq> None) rs = None"
    using fresh(2) by (force simp: find_None_iff)
  have no_f: "find (\<lambda>ft. snd ft = f \<and> ?m (fst ft) \<noteq> None) rs = None"
    using fresh(5) by (force simp: find_None_iff)
  have "renamed rs ?m' k = renamed (ft # rs) ?m k" for k
  proof -
    have fnd: "find (\<lambda>ft. snd ft = k \<and> ?m' (fst ft) \<noteq> None) rs = find (\<lambda>ft. snd ft = k \<and> ?m (fst ft) \<noteq> None) rs"
      by (rule renamed_cong) (rule same)
    show ?thesis
    proof (cases "find (\<lambda>ft. snd ft = k \<and> ?m (fst ft) \<noteq> None) rs")
      case (Some g)
      then have "g \<in> set rs" and "snd g = k" by (auto simp: find_Some_iff)
      with fresh(2) have "k \<noteq> t" and "?m' (fst g) = ?m (fst g)" by (auto intro!: same)
      with Some fnd show ?thesis by (simp add: renamed_def ft)
    next
      case None
      with fnd fresh no_t no_f show ?thesis
        by (auto simp: renamed_def ft m' split: option.splits)
    qed
  qed
  with Cons.IH [OF ind] show ?case by (simp add: fun_eq_iff ft)
qed

lemma applyHeaderTransform_wf: "header_wf h \<Longrightarrow> header_wf (applyHeaderTransform h t)"
  by (simp add: applyHeaderTransform_def Let_def hdr.wf_put_all hdr.wf_del_all)

lemma removeHopHeaders_wf: "header_wf h \<Longrightarrow> header_wf (removeHopHeaders h)"
  by (simp add: removeHopHeaders_def hdr.wf_del_all)

lemma removeHopHeaders_get:
  "header_get (removeHopHeaders h) k =
     (if canonical_key k \<in> canonical_key ` set hop_headers then [] else header_get h k)"
  by (simp add: removeHopHeaders_def hdr.get_del_all)

lemma applyHeaderTransform_get:
  "header_get (applyHeaderTransform h t) k =
     (case find (\<lambda>kv. canonical_key (fst kv) = canonical_key k) (rev (tr_set_headers t)) of
        Some kv \<Rightarrow> snd kv
      | None \<Rightarrow> if canonical_key k \<in> canonical_key ` set (tr_remove_headers t) then [] else header_get h k)"
  by (simp add: applyHeaderTransform_def Let_def hdr.get_put_all hdr.get_del_all split: option.splits)

section \<open>Properties\<close>

text \<open>below the largest 64-bit value, \<open>readBounded\<close> returns the whole body exactly
  when the reader ends without an error and the body is within the limit; otherwise it is
  an error.\<close>

lemma readBounded_exact:
  assumes "0 \<le> maximum" and "maximum < 2 ^ 63 - 1"
  shows "readBounded r maximum = Inr data \<longleftrightarrow>
    rd_err r = None \<and> int (length (rd_data r)) \<le> maximum \<and> data = rd_data r"
proof -
  have "wrap64 (maximum + 1) = maximum + 1"
    using assms by (simp add: in_int64_def)
  moreover have "int (length (take (nat (maximum + 1)) (rd_data r))) > maximum"
    if "\<not> int (length (rd_data r)) < maximum + 1"
    using that assms by auto
  ultimately show ?thesis
    by (auto simp: readBounded_def limit_reader_def read_all_def split: option.splits sum.splits if_splits)
qed

lemma readBounded_exact_witness:
  "readBounded \<lparr>rd_data = ''abc'', rd_err = None\<rparr> 3 = Inr ''abc'' \<and>
   readBounded \<lparr>rd_data = ''abcd'', rd_err = None\<rparr> 3 \<noteq> Inr ''abcd''"
  using readBounded_exact [of 3 "\<lparr>rd_data = ''abc'', rd_err = None\<rparr>" "''abc''"]
    readBounded_exact [of 3 "\<lparr>rd_data = ''abcd'', rd_err = None\<rparr>" "''abcd''"] by simp

text \<open>at the largest 64-bit value the limit \<open>maximum + 1\<close> wraps around to a negative
  number, and \<open>readBounded\<close> returns an empty body without an error for every reader: a
  route with that body limit silently drops all request and buffered response bodies.\<close>

lemma readBounded_overflow_drops_body:
  "readBounded r (2 ^ 63 - 1) = Inr []"
  by (simp add: readBounded_def limit_reader_def read_all_def wrap64_def)

text \<open>for rename entries whose sources and targets are all different, the object that
  \<open>transformJSON\<close> encodes is, whatever the iteration order of the maps: the added values
  at the added keys, then for a rename target the value of its source, no value at a
  removed or renamed key, and the old value elsewhere.\<close>

lemma transform_object_spec:
  assumes "independent_renames (jt_rename t)" and "distinct (map fst (jt_add t))"
  shows "map_of (transform_object t obj) k = (case map_of (jt_add t) k of
      Some v \<Rightarrow> Some v
    | None \<Rightarrow> renamed (jt_rename t) ((map_of obj) |` (- set (jt_remove t))) k)"
  using assms
  by (simp add: transform_object_def Let_def map_of_fold_add map_of_fold_rename map_of_remove_keys
      map_add_def split: option.splits)

lemma transform_object_spec_witness:
  "map_of (transform_object \<lparr>jt_add = [(''tenant'', JStr ''gateway'')], jt_remove = [''remove''],
      jt_rename = [(''name'', ''label'')]\<rparr> [(''name'', JStr ''Ada''), (''remove'', JStr ''me'')]) ''label''
     = Some (JStr ''Ada'')"
  by (subst transform_object_spec)
     (simp_all add: independent_renames_def renamed_def restrict_map_def)

text \<open>with a chain of renames the result depends on the iteration order of the rename
  map, which Go leaves open: \<open>a\<close> to \<open>b\<close> and \<open>b\<close> to \<open>c\<close> move the value of \<open>a\<close> to \<open>c\<close>
  in one order and to \<open>b\<close> in the other; and renaming a key to itself deletes it.\<close>

lemma rename_depends_on_order:
  "map_of (fold rename_key [(''a'', ''b''), (''b'', ''c'')] [(''a'', JNull)]) ''c'' = Some JNull \<and>
   map_of (fold rename_key [(''b'', ''c''), (''a'', ''b'')] [(''a'', JNull)]) ''b'' = Some JNull \<and>
   rename_key (''a'', ''a'') [(''a'', JNull)] = []"
  by (simp add: rename_key_def)

end
