(* ===== verification/Access_Control.thy ===== *)
theory Access_Control
  imports Token_Bucket Upstream_Pool Body_Transform
begin

unbundle bit_operations_syntax

text \<open>
  Who a data-plane request belongs to and whether it may pass: from \<open>app.go\<close> the
  functions \<open>authenticate\<close>, \<open>verifyJWT\<close>, \<open>hasScopes\<close>, \<open>audienceMatches\<close>,
  \<open>splitSpace\<close>, \<open>allowRequest\<close>, \<open>parseTrustedProxies\<close>, \<open>isTrusted\<close>,
  \<open>clientIP\<close> and \<open>setForwardedHeaders\<close>.

  Redis and the JWT library are parameters: records of the calls the code makes, each a
  function of the state \<open>'w\<close> of the outside world that returns the result and the next
  state. SHA-256 is a parameter too.
\<close>

section \<open>External calls, metrics, principals\<close>

record 'w redis_client =
  rc_hgetall :: "string \<Rightarrow> 'w \<Rightarrow> (string \<times> string) list option \<times> 'w"
  rc_eval :: "string \<Rightarrow> bucket_args \<Rightarrow> 'w \<Rightarrow> int option \<times> 'w"  \<comment> \<open>\<open>tokenBucketScript\<close> on one key\<close>
  rc_get :: "string \<Rightarrow> 'w \<Rightarrow> bytes option \<times> 'w"
  rc_set :: "string \<Rightarrow> bytes \<Rightarrow> duration \<Rightarrow> 'w \<Rightarrow> bool \<times> 'w"  \<comment> \<open>\<open>False\<close> on an error\<close>

record jwt_token =
  tk_audience :: "string list option"
  tk_subject :: "string option"
  tk_scope :: "string option"
  tk_scp :: "string list option"

record ('w, 'k) jwt_lib =
  jl_fetch :: "string \<Rightarrow> 'w \<Rightarrow> 'k option \<times> 'w"                      \<comment> \<open>\<open>jwk.Fetch\<close>\<close>
  jl_parse :: "string \<Rightarrow> 'k \<Rightarrow> 'w \<Rightarrow> jwt_token option"
    \<comment> \<open>\<open>jwt.ParseString\<close> with key set and validation\<close>
  jl_issuer :: "jwt_token \<Rightarrow> string \<Rightarrow> 'w \<Rightarrow> bool"            \<comment> \<open>\<open>jwt.Validate\<close> with \<open>WithIssuer\<close>\<close>
  jl_now :: "'w \<Rightarrow> int"

record gatewayMetrics =
  gm_requests :: "string \<times> string \<Rightarrow> nat"
  gm_upstream :: "string \<times> string \<times> string \<Rightarrow> nat"
  gm_reloads :: "string \<Rightarrow> nat"
  gm_rate_fail_open :: nat
  gm_cache :: "string \<times> string \<Rightarrow> nat"
  gm_dynamic_dns :: "string \<Rightarrow> nat"

definition newGatewayMetrics :: gatewayMetrics where
  "newGatewayMetrics = \<lparr>gm_requests = (\<lambda>_. 0), gm_upstream = (\<lambda>_. 0), gm_reloads = (\<lambda>_. 0),
     gm_rate_fail_open = 0, gm_cache = (\<lambda>_. 0), gm_dynamic_dns = (\<lambda>_. 0)\<rparr>"

record principal =
  pr_id :: string
  pr_scopes :: "string set"

record 'k compiledAuth =
  ca_policy :: authPolicy
  ca_keys :: "(bytes \<times> principal) list"
  ca_jwks :: "'k option"
  ca_jwks_at :: int

definition splitSpace :: "string \<Rightarrow> string list" where
  "splitSpace value = Go_Strings.fields (replace_all value '','' '' '')"

definition hasScopes :: "string set \<Rightarrow> string list \<Rightarrow> bool" where
  "hasScopes actual required \<longleftrightarrow> list_all (\<lambda>scope. scope \<in> actual) required"

definition audienceMatches :: "string list \<Rightarrow> string list \<Rightarrow> bool" where
  "audienceMatches actual expected \<longleftrightarrow> list_ex (\<lambda>wanted. list_ex (\<lambda>value. value = wanted) actual) expected"

definition sha256Text :: "(bytes \<Rightarrow> bytes) \<Rightarrow> string \<Rightarrow> string" where
  "sha256Text sha value = hex_encode (sha value)"

definition api_key_redis_key :: "string \<Rightarrow> string" where
  "api_key_redis_key hash = ''vial-gateway:apikey:'' @ hash"

section \<open>Authentication\<close>

definition jwks_stale :: "('w, 'k) jwt_lib \<Rightarrow> 'k compiledAuth \<Rightarrow> 'w \<Rightarrow> bool" where
  "jwks_stale L auth w \<longleftrightarrow> ca_jwks auth = None \<or> jl_now L w - ca_jwks_at auth > 5 * 60 * second"

definition refresh_jwks :: "('w, 'k) jwt_lib \<Rightarrow> 'k compiledAuth \<Rightarrow> 'w \<Rightarrow> 'k option \<times> 'k compiledAuth \<times> 'w" where
  "refresh_jwks L auth w =
     (if jwks_stale L auth w then
        (case jl_fetch L (ap_jwks_url (ca_policy auth)) w of
           (None, w) \<Rightarrow> (None, auth, w)
         | (Some fresh, w) \<Rightarrow> (Some fresh, auth\<lparr>ca_jwks := Some fresh, ca_jwks_at := jl_now L w\<rparr>, w))
      else (ca_jwks auth, auth, w))"
  \<comment> \<open>the check repeated under \<open>jwtRefreshMu\<close> reads the same fields again\<close>

definition token_scopes :: "jwt_token \<Rightarrow> string list" where
  "token_scopes token =
     (let scopes = splitSpace (case tk_scope token of None \<Rightarrow> [] | Some s \<Rightarrow> s)
      in if scopes = [] then (case tk_scp token of None \<Rightarrow> [] | Some scp \<Rightarrow> scp) else scopes)"

definition check_token :: "('w, 'k) jwt_lib \<Rightarrow> authPolicy \<Rightarrow> 'k \<Rightarrow> string \<Rightarrow> 'w \<Rightarrow> go_error + principal" where
  "check_token L policy keys raw w = (case jl_parse L raw keys w of
      None \<Rightarrow> Inl (Errorf ''bearer token is invalid'' [])
    | Some token \<Rightarrow>
        if \<not> jl_issuer L token (ap_issuer policy) w
        then Inl (Errorf ''bearer token claims are invalid'' [])
        else (case tk_audience token of
            None \<Rightarrow> Inl (Errorf ''bearer token audience is invalid'' [])
          | Some audiences \<Rightarrow>
              if \<not> audienceMatches audiences (ap_audiences policy)
              then Inl (Errorf ''bearer token audience is invalid'' [])
              else (case tk_subject token of
                  None \<Rightarrow> Inl (Errorf ''bearer token subject is missing'' [])
                | Some subject \<Rightarrow>
                    if subject = [] then Inl (Errorf ''bearer token subject is missing'' [])
                    else Inr \<lparr>pr_id = subject, pr_scopes = scope_set (token_scopes token)\<rparr>)))"

definition verifyJWT :: "('w, 'k) jwt_lib \<Rightarrow> 'k compiledAuth \<Rightarrow> string \<Rightarrow> 'w
    \<Rightarrow> (go_error + principal) \<times> 'k compiledAuth \<times> 'w" where
  "verifyJWT L auth raw w = (case refresh_jwks L auth w of
      (None, auth, w) \<Rightarrow> (Inl (Errorf ''JWT keys are unavailable'' []), auth, w)
    | (Some keys, auth, w) \<Rightarrow> (check_token L (ca_policy auth) keys raw w, auth, w))"

definition anonymous :: principal where
  "anonymous = \<lparr>pr_id = ''anonymous'', pr_scopes = {}\<rparr>"

definition redis_principal :: "(string \<times> string) list \<Rightarrow> principal option" where
  "redis_principal record =
     (if lookup_or [] record ''revoked'' \<noteq> ''1'' \<and> lookup_or [] record ''name'' \<noteq> []
      then Some \<lparr>pr_id = lookup_or [] record ''name'',
                 pr_scopes = scope_set (splitSpace (lookup_or [] record ''scopes''))\<rparr>
      else None)"

definition authenticate_api_key :: "(bytes \<Rightarrow> bytes) \<Rightarrow> 'w redis_client option \<Rightarrow> 'k compiledAuth
    \<Rightarrow> http_request \<Rightarrow> 'w \<Rightarrow> (go_error + principal) \<times> 'w" where
  "authenticate_api_key sha redis auth request w =
     (let value = header_get (q_header request) ''X-API-Key'';
          refused = Inl (Errorf ''a valid API key is required'' []);
          hash = sha value in
      if value = [] then (refused, w)
      else (case find (\<lambda>e. hash = fst e) (ca_keys auth) of
          Some e \<Rightarrow> (Inr (snd e), w)
        | None \<Rightarrow> (case redis of
              None \<Rightarrow> (refused, w)
            | Some R \<Rightarrow> (case rc_hgetall R (api_key_redis_key (hex_encode hash)) w of
                  (None, w) \<Rightarrow> (refused, w)
                | (Some record, w) \<Rightarrow> (case redis_principal record of
                      None \<Rightarrow> (refused, w)
                    | Some p \<Rightarrow> (Inr p, w))))))"

definition authenticate :: "(bytes \<Rightarrow> bytes) \<Rightarrow> 'w redis_client option \<Rightarrow> ('w, 'k) jwt_lib \<Rightarrow> 'k compiledAuth option
    \<Rightarrow> http_request \<Rightarrow> 'w \<Rightarrow> (go_error + principal) \<times> 'k compiledAuth option \<times> 'w" where
  "authenticate sha redis L auth request w = (case auth of
      None \<Rightarrow> (Inr anonymous, None, w)
    | Some a \<Rightarrow>
        if ap_type (ca_policy a) = ''none'' then (Inr anonymous, Some a, w)
        else if ap_type (ca_policy a) = ''api_key'' then
          (case authenticate_api_key sha redis a request w of (r, w) \<Rightarrow> (r, Some a, w))
        else (let value = trim_space (trim_prefix (header_get (q_header request) ''Authorization'') ''Bearer '') in
          if value = [] then (Inl (Errorf ''a valid bearer token is required'' []), Some a, w)
          else (case verifyJWT L a value w of (r, a, w) \<Rightarrow> (r, Some a, w))))"

section \<open>Trusted proxies\<close>

definition ip_to4 :: "bytes \<Rightarrow> bytes option" where
  "ip_to4 ip =
     (if length ip = 4 then Some ip
      else if length ip = 16 \<and> take 10 ip = replicate 10 (char_of (0::nat)) \<and>
              take 2 (drop 10 ip) = replicate 2 (char_of (255::nat))
      then Some (drop 12 ip) else None)"

definition network_number_mask :: "ipnet \<Rightarrow> (bytes \<times> bytes) option" where
  "network_number_mask n =
     (let ip = (case ip_to4 (net_ip n) of Some x \<Rightarrow> x | None \<Rightarrow> net_ip n); m = net_mask n in
      if length ip \<noteq> 4 \<and> length ip \<noteq> 16 then None
      else if length m = 4 then (if length ip = 4 then Some (ip, m) else None)
      else if length m = 16 then Some (ip, if length ip = 4 then drop 12 m else m)
      else None)"

definition masked :: "bytes \<Rightarrow> bytes \<Rightarrow> nat list" where
  "masked ip m = map (\<lambda>(a, b). (of_char a :: nat) AND of_char b) (zip ip m)"

definition net_contains :: "ipnet \<Rightarrow> bytes \<Rightarrow> bool" where
  "net_contains n ip =
     (let ip = (case ip_to4 ip of Some x \<Rightarrow> x | None \<Rightarrow> ip) in
      (case network_number_mask n of
         None \<Rightarrow> ip = []
       | Some (nn, m) \<Rightarrow> length ip = length nn \<and> masked nn m = masked ip m))"
  \<comment> \<open>\<open>IPNet.Contains\<close>; a nil IP is the empty byte list\<close>

definition isTrusted :: "bytes option \<Rightarrow> ipnet list \<Rightarrow> bool" where
  "isTrusted ip trusted \<longleftrightarrow> list_ex (\<lambda>network. net_contains network (case ip of None \<Rightarrow> [] | Some b \<Rightarrow> b)) trusted"

fun parseTrustedProxies :: "parsers \<Rightarrow> string list \<Rightarrow> string + ipnet list" where
  "parseTrustedProxies P [] = Inr []"
| "parseTrustedProxies P (value # values) =
     (case parse_ip P value of
        Some ip \<Rightarrow>
          (let (bits, ip) = (case ip_to4 ip of Some ip4 \<Rightarrow> (32, ip4) | None \<Rightarrow> (128, ip))
           in map_sum id ((#) \<lparr>net_ip = ip, net_mask = replicate (bits div 8) (char_of (255::nat))\<rparr>)
                (parseTrustedProxies P values))
      | None \<Rightarrow> (case parse_cidr P value of
            None \<Rightarrow> Inl value
          | Some network \<Rightarrow> map_sum id ((#) network) (parseTrustedProxies P values)))"

definition index_of :: "char \<Rightarrow> string \<Rightarrow> nat option" where
  "index_of c s = (if c \<in> set s then Some (length (takeWhile (\<lambda>x. x \<noteq> c) s)) else None)"

definition last_index_of :: "char \<Rightarrow> string \<Rightarrow> nat option" where
  "last_index_of c s = (if c \<in> set s then Some (length s - 1 - length (takeWhile (\<lambda>x. x \<noteq> c) (rev s))) else None)"

definition split_host :: "string \<Rightarrow> string" where
  "split_host hostport = (case last_index_of (CHR '':'') hostport of
      None \<Rightarrow> []
    | Some i \<Rightarrow>
        if hostport ! 0 = CHR ''['' then
          (case index_of (CHR '']'') hostport of
             None \<Rightarrow> []
           | Some e \<Rightarrow> if e + 1 \<noteq> i \<or> CHR ''['' \<in> set (drop 1 hostport) \<or> CHR '']'' \<in> set (drop (e + 1) hostport)
                       then [] else take (e - 1) (drop 1 hostport))
        else (let host = take i hostport in
          if CHR '':'' \<in> set host \<or> CHR ''['' \<in> set hostport \<or> CHR '']'' \<in> set hostport then [] else host))"
  \<comment> \<open>the host of \<open>net.SplitHostPort\<close>, empty on an error\<close>

definition clientIP :: "parsers \<Rightarrow> http_request \<Rightarrow> ipnet list \<Rightarrow> string" where
  "clientIP P request trusted =
     (let remote = split_host (q_remote_addr request) in
      if isTrusted (parse_ip P remote) trusted then
        (case split_char (header_get (q_header request) ''X-Forwarded-For'') (CHR '','') of
           value # _ \<Rightarrow> if parse_ip P (trim_space value) \<noteq> None then trim_space value else remote
         | [] \<Rightarrow> remote)
      else remote)"

definition setForwardedHeaders :: "parsers \<Rightarrow> header \<Rightarrow> http_request \<Rightarrow> ipnet list \<Rightarrow> header" where
  "setForwardedHeaders P upstream original trusted =
     (let remote = split_host (q_remote_addr original);
          h = (if \<not> isTrusted (parse_ip P remote) trusted then header_del upstream ''X-Forwarded-For'' else upstream);
          previous = header_get h ''X-Forwarded-For'';
          h = header_set h ''X-Forwarded-For'' (if previous \<noteq> [] then previous @ '', '' @ remote else remote);
          h = header_set h ''X-Forwarded-Host'' (q_host original)
      in header_set h ''X-Forwarded-Proto'' (if q_tls original then ''https'' else ''http''))"

section \<open>Rate limiting\<close>

definition rate_key :: "(bytes \<Rightarrow> bytes) \<Rightarrow> string \<Rightarrow> string \<Rightarrow> string" where
  "rate_key sha route keyID = ''vial-gateway:rate:'' @ route @ '':'' @ sha256Text sha keyID"

definition milliseconds :: "duration \<Rightarrow> int" where
  "milliseconds d = (if 0 \<le> d then d div millisecond else - (- d div millisecond))"
  \<comment> \<open>\<open>Duration.Milliseconds\<close>: division truncates\<close>

definition rate_args :: "ratePolicy \<Rightarrow> bucket_args" where
  "rate_args p = \<lparr>ba_capacity = wrap64 (rp_requests p + rp_burst p), ba_requests = rp_requests p,
     ba_window = milliseconds (rp_window p)\<rparr>"

definition allowRequest :: "(bytes \<Rightarrow> bytes) \<Rightarrow> parsers \<Rightarrow> 'w redis_client option \<Rightarrow> ratePolicy option \<Rightarrow> string
    \<Rightarrow> ipnet list \<Rightarrow> http_request \<Rightarrow> principal \<Rightarrow> gatewayMetrics \<Rightarrow> 'w \<Rightarrow> bool \<times> gatewayMetrics \<times> 'w" where
  "allowRequest sha P redis rate route trusted request identity m w = (case rate of
      None \<Rightarrow> (True, m, w)
    | Some policy \<Rightarrow> (case redis of
          None \<Rightarrow> (True, m\<lparr>gm_rate_fail_open := Suc (gm_rate_fail_open m)\<rparr>, w)
        | Some R \<Rightarrow>
            (let keyID = (if pr_id identity = ''anonymous'' then clientIP P request trusted else pr_id identity)
             in (case rc_eval R (rate_key sha route keyID) (rate_args policy) w of
                   (None, w) \<Rightarrow> (True, m\<lparr>gm_rate_fail_open := Suc (gm_rate_fail_open m)\<rparr>, w)
                 | (Some allowed, w) \<Rightarrow> (allowed = 1, m, w)))))"

section \<open>Lemmas\<close>

lemma hasScopes_iff: "hasScopes actual required \<longleftrightarrow> set required \<subseteq> actual"
  by (auto simp: hasScopes_def list_all_iff)

lemma audienceMatches_iff: "audienceMatches actual expected \<longleftrightarrow> set actual \<inter> set expected \<noteq> {}"
  by (auto simp: audienceMatches_def list_ex_iff)

lemma redis_principal_Some:
  "redis_principal record = Some p \<longleftrightarrow>
     lookup_or [] record ''revoked'' \<noteq> ''1'' \<and> lookup_or [] record ''name'' \<noteq> [] \<and>
     pr_id p = lookup_or [] record ''name'' \<and> pr_scopes p = scope_set (splitSpace (lookup_or [] record ''scopes''))"
  by (cases p) (auto simp: redis_principal_def)

lemma check_token_Inr:
  "check_token L policy keys raw w = Inr p \<longleftrightarrow>
     (\<exists>token audiences. jl_parse L raw keys w = Some token \<and> jl_issuer L token (ap_issuer policy) w \<and>
        tk_audience token = Some audiences \<and> set audiences \<inter> set (ap_audiences policy) \<noteq> {} \<and>
        tk_subject token = Some (pr_id p) \<and> pr_id p \<noteq> [] \<and> pr_scopes p = scope_set (token_scopes token))"
  by (cases p) (auto simp: check_token_def audienceMatches_iff split: option.splits)

lemma refresh_jwks_fresh:
  assumes "refresh_jwks L auth w = (Some keys, auth', w')"
  shows "(\<exists>t. ca_jwks auth' = Some keys \<and> ca_policy auth' = ca_policy auth \<and>
            ca_jwks_at auth' = t \<and> jl_now L w' - t \<le> 5 * 60 * second) \<and>
         (ca_jwks auth' = ca_jwks auth \<or> jl_fetch L (ap_jwks_url (ca_policy auth)) w = (Some keys, w'))"
  using assms by (auto simp: refresh_jwks_def jwks_stale_def split: if_splits option.splits prod.splits)

lemma authenticate_api_key_Inr:
  "fst (authenticate_api_key sha redis auth request w) = Inr p \<longleftrightarrow>
     (let value = header_get (q_header request) ''X-API-Key'';
          static = find (\<lambda>e. sha value = fst e) (ca_keys auth) in
      value \<noteq> [] \<and>
      ((\<exists>e. static = Some e \<and> p = snd e) \<or>
       static = None \<and> (\<exists>R record w'. redis = Some R \<and>
          rc_hgetall R (api_key_redis_key (hex_encode (sha value))) w = (Some record, w') \<and>
          redis_principal record = Some p)))"
  by (auto simp: authenticate_api_key_def Let_def split: option.splits prod.splits)

lemma api_key_redis_key_inj:
  "api_key_redis_key (hex_encode a) = api_key_redis_key (hex_encode b) \<Longrightarrow> a = b"
  by (auto simp: api_key_redis_key_def dest: hex_encode_inj)

section \<open>Properties\<close>

text \<open>
  C30: An API-key route accepts a request as principal p exactly when the request carries a
  non-empty \<open>X-API-Key\<close> whose SHA-256 is the digest of a configured key of p, or, when no
  configured key has that digest, Redis returned for it a record that names p, is not marked
  revoked and carries p's scopes. In particular a missing Redis client and a failed Redis
  call refuse the request: authentication never fails open.
\<close>

theorem api_key_accepts_exactly_known_keys:
  assumes "ap_type (ca_policy auth) = ''api_key''"
  shows "fst (authenticate sha redis L (Some auth) request w) = Inr p \<longleftrightarrow>
     (let value = header_get (q_header request) ''X-API-Key'';
          static = find (\<lambda>e. sha value = fst e) (ca_keys auth) in
      value \<noteq> [] \<and>
      ((\<exists>e. static = Some e \<and> p = snd e) \<or>
       static = None \<and> (\<exists>R record w'. redis = Some R \<and>
          rc_hgetall R (api_key_redis_key (hex_encode (sha value))) w = (Some record, w') \<and>
          lookup_or [] record ''revoked'' \<noteq> ''1'' \<and> lookup_or [] record ''name'' \<noteq> [] \<and>
          pr_id p = lookup_or [] record ''name'' \<and>
          pr_scopes p = scope_set (splitSpace (lookup_or [] record ''scopes'')))))"
proof -
  have "fst (authenticate sha redis L (Some auth) request w) =
        fst (authenticate_api_key sha redis auth request w)"
    using assms by (simp add: authenticate_def split: prod.split)
  then show ?thesis
    by (simp only: authenticate_api_key_Inr redis_principal_Some)
qed

definition sample_request :: http_request where
  "sample_request = \<lparr>q_method = ''GET'',
     q_url = \<lparr>u_scheme = [], u_user = None, u_host = [], u_path = ''/api/users'', u_raw_query = [], u_fragment = []\<rparr>,
     q_request_uri = ''/api/users'', q_header = [(''X-Api-Key'', [''secret'']), (''X-Forwarded-For'', [''1.2.3.4''])],
     q_host = ''gw.example'', q_remote_addr = ''203.0.113.7:4711'', q_tls = True, q_content_length = 0, q_body = None\<rparr>"

definition sample_redis :: "unit redis_client" where
  "sample_redis = \<lparr>
     rc_hgetall = (\<lambda>k w. (if k = ''vial-gateway:apikey:'' @ hex_encode ''terces''
                          then Some [(''name'', ''ci''), (''scopes'', ''users.read users.write'')] else Some [], w)),
     rc_eval = (\<lambda>k a w. (Some 1, w)), rc_get = (\<lambda>k w. (None, w)), rc_set = (\<lambda>k v d w. (True, w))\<rparr>"

definition sample_token :: jwt_token where
  "sample_token = \<lparr>tk_audience = Some [''api''], tk_subject = Some ''alice'', tk_scope = Some ''users.read'', tk_scp = None\<rparr>"

definition sample_jwt :: "(unit, unit) jwt_lib" where
  "sample_jwt = \<lparr>jl_fetch = (\<lambda>u w. (Some (), w)),
     jl_parse = (\<lambda>raw k w. if raw = ''tok'' then Some sample_token else None),
     jl_issuer = (\<lambda>t i w. i = ''https://issuer.example''), jl_now = (\<lambda>w. 0)\<rparr>"

definition sample_key_auth :: "unit compiledAuth" where
  "sample_key_auth = \<lparr>ca_policy = \<lparr>ap_type = ''api_key'', ap_keys = [], ap_issuer = [], ap_jwks_url = [], ap_audiences = []\<rparr>,
     ca_keys = [], ca_jwks = None, ca_jwks_at = 0\<rparr>"

definition sample_jwt_auth :: "unit compiledAuth" where
  "sample_jwt_auth = \<lparr>ca_policy = \<lparr>ap_type = ''jwt'', ap_keys = [], ap_issuer = ''https://issuer.example'',
     ap_jwks_url = ''https://issuer.example/jwks'', ap_audiences = [''api'']\<rparr>,
     ca_keys = [], ca_jwks = None, ca_jwks_at = 0\<rparr>"

theorem api_key_accepts_exactly_known_keys_witness:
  "fst (authenticate rev (Some sample_redis) sample_jwt (Some sample_key_auth) sample_request ()) =
     Inr \<lparr>pr_id = ''ci'', pr_scopes = {''users.read'', ''users.write''}\<rparr>"
proof -
  have r: "rc_hgetall sample_redis (api_key_redis_key (hex_encode (rev ''secret''))) () =
             (Some [(''name'', ''ci''), (''scopes'', ''users.read users.write'')], ())"
    and h: "header_get (q_header sample_request) ''X-API-Key'' = ''secret''"
    and s: "scope_set (splitSpace ''users.read users.write'') = {''users.read'', ''users.write''}"
    and t: "ap_type (ca_policy sample_key_auth) = ''api_key''"
    and k: "ca_keys sample_key_auth = []"
    by code_simp+
  show ?thesis
    apply (rule api_key_accepts_exactly_known_keys [OF t, THEN iffD2])
    apply (simp only: h k Let_def find.simps)
    using r s by (auto simp: lookup_or_def simp del: hex_encode.simps)
qed

text \<open>
  C31: A bearer route accepts a request as principal p only on a token that the JWT library
  parsed and verified against a key set, whose issuer validates, whose audience meets the
  configured ones and whose subject is p's non-empty identity, with p's scopes those of the
  token. The key set is the one the route remembers after the call; it was fetched from the
  policy's JWKS URL by this call or is at most five minutes old.
\<close>

theorem bearer_principal_is_verified:
  assumes "ap_type (ca_policy auth) \<noteq> ''none''" and "ap_type (ca_policy auth) \<noteq> ''api_key''"
    and "authenticate sha redis L (Some auth) request w = (Inr p, Some auth', w')"
  shows "\<exists>raw keys token audiences.
      raw = trim_space (trim_prefix (header_get (q_header request) ''Authorization'') ''Bearer '') \<and> raw \<noteq> [] \<and>
      ca_jwks auth' = Some keys \<and>
      (jl_fetch L (ap_jwks_url (ca_policy auth)) w = (Some keys, w') \<or>
       ca_jwks auth = Some keys) \<and> jl_now L w' - ca_jwks_at auth' \<le> 5 * 60 * second \<and>
      jl_parse L raw keys w' = Some token \<and> jl_issuer L token (ap_issuer (ca_policy auth)) w' \<and>
      tk_audience token = Some audiences \<and> set audiences \<inter> set (ap_audiences (ca_policy auth)) \<noteq> {} \<and>
      tk_subject token = Some (pr_id p) \<and> pr_id p \<noteq> [] \<and> pr_scopes p = scope_set (token_scopes token)"
proof -
  define raw where "raw = trim_space (trim_prefix (header_get (q_header request) ''Authorization'') ''Bearer '')"
  from assms have raw: "raw \<noteq> []" and v: "verifyJWT L auth raw w = (Inr p, auth', w')"
    by (auto simp: authenticate_def Let_def raw_def split: if_splits prod.splits)
  then obtain keys where k: "refresh_jwks L auth w = (Some keys, auth', w')"
    and c: "check_token L (ca_policy auth') keys raw w' = Inr p"
    by (auto simp: verifyJWT_def split: prod.splits option.splits)
  note f = refresh_jwks_fresh [OF k]
  with c have "check_token L (ca_policy auth) keys raw w' = Inr p" by simp
  with f raw show ?thesis
    unfolding check_token_Inr raw_def by auto
qed

theorem bearer_principal_is_verified_witness:
  "\<exists>w' auth'. authenticate rev None sample_jwt (Some sample_jwt_auth)
       (sample_request\<lparr>q_header := [(''Authorization'', [''Bearer tok''])]\<rparr>) () =
     (Inr \<lparr>pr_id = ''alice'', pr_scopes = {''users.read''}\<rparr>, Some auth', w') \<and> ca_jwks auth' = Some ()"
proof -
  let ?r = "sample_request\<lparr>q_header := [(''Authorization'', [''Bearer tok''])]\<rparr>"
  let ?a = "sample_jwt_auth\<lparr>ca_jwks := Some (), ca_jwks_at := 0\<rparr>"
  have a: "authenticate rev None sample_jwt (Some sample_jwt_auth) ?r () =
     (Inr \<lparr>pr_id = ''alice'', pr_scopes = {''users.read''}\<rparr>, Some ?a, ())"
    by code_simp
  have "ap_type (ca_policy sample_jwt_auth) \<noteq> ''none''" "ap_type (ca_policy sample_jwt_auth) \<noteq> ''api_key''"
    by code_simp+
  from bearer_principal_is_verified [OF this a] a show ?thesis by auto
qed

text \<open>
  C32: A peer that is not a configured trusted proxy cannot choose its address: whatever
  forwarding headers it sends, the client address that rate limiting uses is the one of its
  connection, and the upstream receives exactly that address as \<open>X-Forwarded-For\<close>. From a
  trusted proxy the previous chain is kept and the proxy's address appended.
\<close>

theorem forwarded_chain:
  "(if isTrusted (parse_ip P (split_host (q_remote_addr request))) trusted
    then header_get (setForwardedHeaders P h request trusted) ''X-Forwarded-For'' =
           (let previous = header_get h ''X-Forwarded-For'' in
            if previous = [] then split_host (q_remote_addr request)
            else previous @ '', '' @ split_host (q_remote_addr request))
    else header_get (setForwardedHeaders P h request trusted) ''X-Forwarded-For'' = split_host (q_remote_addr request) \<and>
         (\<forall>hs. clientIP P (request\<lparr>q_header := hs\<rparr>) trusted = split_host (q_remote_addr request)))"
proof -
  have keys: "canonical_key ''X-Forwarded-For'' \<noteq> canonical_key ''X-Forwarded-Host''"
    "canonical_key ''X-Forwarded-For'' \<noteq> canonical_key ''X-Forwarded-Proto''"
    by code_simp+
  show ?thesis
    by (simp add: setForwardedHeaders_def clientIP_def Let_def hdr_simps keys)
qed

text \<open>
  \<open>allowRequest\<close> refuses a request only when the route has a rate policy and Redis ran
  the token-bucket script and did not answer 1; in every other case the request passes. It
  passes without a verdict of Redis only when there is no Redis client or the call failed,
  and exactly those passes increment the fail-open counter.
\<close>

lemma allowRequest_decision:
  "case allowRequest sha P redis rate route trusted request identity m w of (ok, m', w') \<Rightarrow>
     (let verdict = (case (rate, redis) of
            (Some policy, Some R) \<Rightarrow> Some (fst (rc_eval R
                (rate_key sha route (if pr_id identity = ''anonymous'' then clientIP P request trusted else pr_id identity))
                (rate_args policy) w))
          | _ \<Rightarrow> None)
      in (ok \<longleftrightarrow> rate = None \<or> verdict = None \<or> verdict = Some None \<or> verdict = Some (Some 1)) \<and>
         m' = m\<lparr>gm_rate_fail_open := gm_rate_fail_open m +
            (if rate \<noteq> None \<and> (verdict = None \<or> verdict = Some None) then 1 else 0)\<rparr>)"
  by (simp add: allowRequest_def Let_def split: option.splits prod.splits)

end
