(* ===== verification/Response_Cache.thy ===== *)
theory Response_Cache
  imports Access_Control
begin

text \<open>
  The response cache of \<open>app.go\<close>: \<open>cacheKey\<close>, \<open>serveCached\<close>, \<open>storeCached\<close> and
  \<open>cacheMaxAge\<close>. The JSON codec of \<open>cachedResponse\<close> is a parameter, Redis is the
  client record of the access-control theory. \<open>serveCached\<close> and \<open>storeCached\<close> take
  the cache policy and the client that \<open>cacheKey\<close> has found to be present: a non-empty
  key is only made when both are.
\<close>

section \<open>Definitions\<close>

record cachedResponse =
  cr_status :: int
  cr_header :: header
  cr_body :: bytes

record cache_codec =
  cc_marshal :: "cachedResponse \<Rightarrow> bytes option"
  cc_unmarshal :: "bytes \<Rightarrow> cachedResponse option"

text \<open>
  \<open>strconv.Atoi\<close> with its error ignored (zero on a syntax error, the nearest bound on a
  range error); \<open>float64\<close> of an \<open>int\<close> rounds to 53 significant bits, ties to even.
  Converting a float that is out of range back to an integer is left to the implementation:
  the result is the parameter \<open>ovf\<close>.
\<close>

definition atoi_value :: "string \<Rightarrow> int" where
  "atoi_value s = (case parse_int64 s of
      Some v \<Rightarrow> v
    | None \<Rightarrow>
        (let (neg, ds) = (case s of
              [] \<Rightarrow> (False, [])
            | c # cs \<Rightarrow> if c = CHR ''-'' then (True, cs)
                       else if c = CHR ''+'' then (False, cs) else (False, s))
         in if ds = [] \<or> \<not> list_all is_digit ds then 0
            else if neg then - (2 ^ 63) else 2 ^ 63 - 1))"

fun round_at :: "nat \<Rightarrow> nat \<Rightarrow> nat" where
  "round_at n k =
     (let q = n div 2 ^ k; r = n mod 2 ^ k in
      if 2 * r > 2 ^ k \<or> 2 * r = 2 ^ k \<and> odd q then (q + 1) * 2 ^ k else q * 2 ^ k)"

definition float64_of_nat :: "nat \<Rightarrow> nat" where
  "float64_of_nat n = (case find (\<lambda>k. n < 2 ^ (53 + k)) [0..<12] of Some k \<Rightarrow> round_at n k | None \<Rightarrow> n)"
  \<comment> \<open>exact below \<open>2^53\<close>; an argument is at most \<open>2^63 - 1\<close>\<close>

definition seconds_duration :: "int \<Rightarrow> int \<Rightarrow> duration" where
  "seconds_duration ovf seconds =
     (let f = int (float64_of_nat (nat seconds)); d = (if f < 2 ^ 63 then f else wrap64 ovf)
      in wrap64 (d * second))"
  \<comment> \<open>\<open>time.Duration(math.Max(0, float64(seconds))) * time.Second\<close>\<close>

fun max_age_loop :: "int \<Rightarrow> string list \<Rightarrow> duration" where
  "max_age_loop ovf [] = 0"
| "max_age_loop ovf (directive # rest) =
     (let (name, value, ok) = cut (trim_space directive) (CHR ''='') in
      if ok \<and> name = ''max-age'' then seconds_duration ovf (atoi_value value)
      else max_age_loop ovf rest)"

definition cacheMaxAge :: "int \<Rightarrow> string \<Rightarrow> duration" where
  "cacheMaxAge ovf control = max_age_loop ovf (split_char control (CHR '',''))"

abbreviation nul_byte :: char where "nul_byte \<equiv> CHR 0x00"

definition cache_parts :: "cachePolicy \<Rightarrow> string \<Rightarrow> http_request \<Rightarrow> principal \<Rightarrow> string list" where
  "cache_parts cache name request identity =
     [name, q_method request, q_request_uri request] @
     (if cp_per_principal cache then [pr_id identity] else []) @
     concat (map (\<lambda>h. [canonical_key h, header_get (q_header request) h]) (cp_vary_headers cache))"

definition cacheKey :: "(bytes \<Rightarrow> bytes) \<Rightarrow> cachePolicy option \<Rightarrow> bool \<Rightarrow> string \<Rightarrow> http_request \<Rightarrow> principal \<Rightarrow> string" where
  "cacheKey sha cache has_redis name request identity = (case cache of
      None \<Rightarrow> []
    | Some policy \<Rightarrow>
        if \<not> has_redis \<or> q_method request \<noteq> ''GET'' \<and> q_method request \<noteq> ''HEAD'' then []
        else (let requestControl = to_lower (header_get (q_header request) ''Cache-Control'') in
          if contains requestControl ''no-cache'' \<or> contains requestControl ''no-store'' then []
          else ''vial-gateway:cache:'' @ name @ '':'' @
                 sha256Text sha (join (cache_parts policy name request identity) [nul_byte])))"

definition serveCached :: "cache_codec \<Rightarrow> 'w redis_client \<Rightarrow> string \<Rightarrow> http_request \<Rightarrow> string
    \<Rightarrow> status_writer \<Rightarrow> gatewayMetrics \<Rightarrow> 'w \<Rightarrow> bool \<times> status_writer \<times> gatewayMetrics \<times> 'w" where
  "serveCached C R name request key sw m w = (case rc_get R key w of
      (None, w) \<Rightarrow> (False, sw, m\<lparr>gm_cache := inc (gm_cache m) (name, ''miss'')\<rparr>, w)
    | (Some data, w) \<Rightarrow> (case cc_unmarshal C data of
          None \<Rightarrow> (False, sw, m, w)
        | Some cached \<Rightarrow>
            (let sw = sw_copy_header (cr_header cached) sw;
                 sw = sw_set_header ''X-Cache'' ''HIT'' sw;
                 sw = sw_write_header (cr_status cached) sw;
                 sw = (if q_method request \<noteq> ''HEAD'' then sw_write (Bytes (cr_body cached)) sw else sw)
             in (True, sw, m\<lparr>gm_cache := inc (gm_cache m) (name, ''hit'')\<rparr>, w))))"

definition cacheable :: "cachePolicy \<Rightarrow> int \<Rightarrow> header \<Rightarrow> bytes \<Rightarrow> bool" where
  "cacheable cache status h body \<longleftrightarrow>
     \<not> (status \<noteq> 200 \<or> int (length body) > cp_max_body_bytes cache \<or> header_get h ''Set-Cookie'' \<noteq> []) \<and>
     (let control = to_lower (header_get h ''Cache-Control'')
      in \<not> (contains control ''no-store'' \<or> contains control ''private''))"

definition cache_ttl :: "int \<Rightarrow> cachePolicy \<Rightarrow> header \<Rightarrow> duration" where
  "cache_ttl ovf cache h =
     (let maxAge = cacheMaxAge ovf (to_lower (header_get h ''Cache-Control'')) in
      if maxAge > 0 \<and> maxAge < cp_ttl cache then maxAge else cp_ttl cache)"

definition storeCached :: "int \<Rightarrow> cache_codec \<Rightarrow> 'w redis_client \<Rightarrow> cachePolicy \<Rightarrow> string \<Rightarrow> string \<Rightarrow> int \<Rightarrow> header \<Rightarrow> bytes
    \<Rightarrow> gatewayMetrics \<Rightarrow> 'w \<Rightarrow> gatewayMetrics \<times> 'w" where
  "storeCached ovf C R cache name key status h body m w =
     (if \<not> cacheable cache status h body then (m, w)
      else (case cc_marshal C \<lparr>cr_status = status, cr_header = h, cr_body = body\<rparr> of
          None \<Rightarrow> (m, w)
        | Some encoded \<Rightarrow> (case rc_set R key encoded (cache_ttl ovf cache h) w of
              (True, w) \<Rightarrow> (m\<lparr>gm_cache := inc (gm_cache m) (name, ''stored'')\<rparr>, w)
            | (False, w) \<Rightarrow> (m, w))))"

section \<open>Facts\<close>

lemma cacheKey_nonempty:
  "cacheKey sha cache has_redis name request identity \<noteq> [] \<longleftrightarrow>
     cache \<noteq> None \<and> has_redis \<and> (q_method request = ''GET'' \<or> q_method request = ''HEAD'') \<and>
     (let control = to_lower (header_get (q_header request) ''Cache-Control'')
      in \<not> contains control ''no-cache'' \<and> \<not> contains control ''no-store'')"
  by (auto simp: cacheKey_def Let_def split: option.splits)

lemma cache_ttl_bounds: "0 < cp_ttl cache \<Longrightarrow> 0 < cache_ttl ovf cache h \<and> cache_ttl ovf cache h \<le> cp_ttl cache"
  by (auto simp: cache_ttl_def Let_def)

lemma cache_hit_code:
  assumes "sw_status sw = 0" and "w_code (sw_inner sw) = 0" and "cr_status cached \<noteq> 0"
    and "rc_get R key w = (Some data, w')" and "cc_unmarshal C data = Some cached"
  shows "fst (serveCached C R name request key sw m w)"
    and "w_code (sw_inner (fst (snd (serveCached C R name request key sw m w)))) = cr_status cached"
  using assms
  by (simp_all add: serveCached_def Let_def sw_copy_header_def sw_set_header_def set_header_def
      sw_write_header_def sw_write_def write_header_def write_chunk_def)

text \<open>
  The parts of a cache key are joined with NUL. One part, the principal, may be any string
  (a JWT subject); the others contain no NUL. Equal texts then have equal parts.
\<close>

lemma join_Cons: "xs \<noteq> [] \<Longrightarrow> join (x # xs) sep = x @ sep @ join xs sep"
  by (cases xs) auto

lemma join_snoc: "xs \<noteq> [] \<Longrightarrow> join (xs @ [y]) sep = join xs sep @ sep @ y"
  by (induction xs sep rule: join.induct) (auto simp: join_Cons)

lemma sep_front: "d \<notin> set x \<Longrightarrow> d \<notin> set y \<Longrightarrow> x @ d # r = y @ d # s \<Longrightarrow> x = y \<and> r = s"
  by (induction x arbitrary: y) (case_tac y; auto)+

lemma sep_back: "d \<notin> set x \<Longrightarrow> d \<notin> set y \<Longrightarrow> r @ d # x = s @ d # y \<Longrightarrow> r = s \<and> x = y"
  using sep_front [of d "rev x" "rev y" "rev r" "rev s"]
  by (metis append.assoc append_Cons append_Nil rev.simps(2) rev_append rev_rev_ident set_rev)

lemma join_inj_back:
  assumes "join (x # b) [d] = join (y # b') [d]" and "length b = length b'"
    and "\<forall>w \<in> set (b @ b'). d \<notin> set w"
  shows "x = y \<and> b = b'"
  using assms
proof (induction b arbitrary: b' rule: rev_induct)
  case Nil
  then show ?case by simp
next
  case (snoc l b)
  then obtain l' c' where b': "b' = c' @ [l']" by (cases b' rule: rev_cases) auto
  from snoc.prems(1) have "join (x # b) [d] @ d # l = join (y # c') [d] @ d # l'"
    using join_snoc [of "x # b" l "[d]"] join_snoc [of "y # c'" l' "[d]"] by (simp add: b')
  with snoc.prems(3) have "join (x # b) [d] = join (y # c') [d] \<and> l = l'"
    by (intro sep_back) (auto simp: b')
  with snoc.IH [of c'] snoc.prems b' show ?case by auto
qed

lemma join_inj_but_one:
  assumes "join (a @ x # b) [d] = join (a' @ y # b') [d]"
    and "length a = length a'" and "length b = length b'"
    and "\<forall>w \<in> set (a @ a' @ b @ b'). d \<notin> set w"
  shows "a = a' \<and> x = y \<and> b = b'"
  using assms(2,1,3,4)
proof (induction a a' rule: list_induct2)
  case Nil
  then show ?case using join_inj_back by auto
next
  case (Cons u a v a')
  from Cons.prems(1) have "u @ d # join (a @ x # b) [d] = v @ d # join (a' @ y # b') [d]"
    by (simp add: join_Cons)
  with Cons.prems(3) have "u = v \<and> join (a @ x # b) [d] = join (a' @ y # b') [d]"
    by (intro sep_front) auto
  with Cons show ?case by auto
qed

definition nul_free :: "cachePolicy \<Rightarrow> string \<Rightarrow> http_request \<Rightarrow> bool" where
  "nul_free cache name request \<longleftrightarrow> nul_byte \<notin> set name \<and> nul_byte \<notin> set (q_request_uri request) \<and>
     list_all (\<lambda>h. nul_byte \<notin> set (canonical_key h) \<and> nul_byte \<notin> set (header_get (q_header request) h)) (cp_vary_headers cache)"
  \<comment> \<open>\<open>net/http\<close> rejects control bytes in the request line and in header values\<close>

definition vary_parts :: "cachePolicy \<Rightarrow> http_request \<Rightarrow> string list" where
  "vary_parts cache request =
     concat (map (\<lambda>h. [canonical_key h, header_get (q_header request) h]) (cp_vary_headers cache))"

lemma length_vary_parts: "length (vary_parts cache request) = 2 * length (cp_vary_headers cache)"
  by (simp add: vary_parts_def length_concat comp_def sum_list_triv)

lemma vary_parts_nul:
  "nul_free cache name request \<Longrightarrow> w \<in> set (vary_parts cache request) \<Longrightarrow> nul_byte \<notin> set w"
  by (auto simp: nul_free_def vary_parts_def list_all_iff)

lemma vary_parts_inj:
  "concat (map (\<lambda>h. [f h, g h]) hs) = concat (map (\<lambda>h. [f h, g' h]) hs) \<Longrightarrow> \<forall>h \<in> set hs. g h = g' h"
  by (induction hs) auto

lemma cache_parts_inj:
  assumes eq: "join (cache_parts cache name q p) [nul_byte] = join (cache_parts cache name q' p') [nul_byte]"
    and free: "nul_free cache name q" "nul_free cache name q'"
    and meth: "nul_byte \<notin> set (q_method q)" "nul_byte \<notin> set (q_method q')"
  shows "q_method q = q_method q' \<and> q_request_uri q = q_request_uri q' \<and>
     (cp_per_principal cache \<longrightarrow> pr_id p = pr_id p') \<and> vary_parts cache q = vary_parts cache q'"
proof -
  define head where "head r = [name, q_method r, q_request_uri r]" for r :: http_request
  have len: "length (vary_parts cache q) = length (vary_parts cache q')" by (simp add: length_vary_parts)
  have hd_free: "\<forall>w \<in> set (head q @ head q'). nul_byte \<notin> set w"
    using free meth by (auto simp: head_def nul_free_def)
  have vp_free: "\<forall>w \<in> set (vary_parts cache q @ vary_parts cache q'). nul_byte \<notin> set w"
    using vary_parts_nul [OF free(1)] vary_parts_nul [OF free(2)] by auto
  show ?thesis
  proof (cases "cp_per_principal cache")
    case True
    have "join (head q @ pr_id p # vary_parts cache q) [nul_byte] = join (head q' @ pr_id p' # vary_parts cache q') [nul_byte]"
      using eq True by (simp add: cache_parts_def head_def vary_parts_def)
    then have "head q = head q' \<and> pr_id p = pr_id p' \<and> vary_parts cache q = vary_parts cache q'"
      by (rule join_inj_but_one) (use hd_free vp_free len in \<open>auto simp: head_def\<close>)
    then show ?thesis by (simp add: head_def)
  next
    case False
    have "join (head q @ vary_parts cache q) [nul_byte] = join (head q' @ vary_parts cache q') [nul_byte]"
      using eq False by (simp add: cache_parts_def head_def vary_parts_def)
    then have "head q @ vary_parts cache q = head q' @ vary_parts cache q'"
      by (rule join_inj) (use hd_free vp_free in \<open>auto simp: head_def\<close>)
    then show ?thesis using False by (simp add: head_def)
  qed
qed

section \<open>Properties\<close>

text \<open>
  C33: Two requests of a route get the same cache key only when they agree on the method, the
  request URI, every header the cache policy varies on and, under a per-principal policy, the
  principal, whatever bytes the principal's name contains; otherwise the two key texts are a
  collision of SHA-256.
\<close>

theorem cache_key_separates_requests:
  assumes "cacheKey sha (Some cache) True name q p \<noteq> []"
    and "cacheKey sha (Some cache) True name q p = cacheKey sha (Some cache) True name q' p'"
    and "nul_free cache name q" and "nul_free cache name q'"
    and no_collision: "sha (join (cache_parts cache name q p) [nul_byte]) = sha (join (cache_parts cache name q' p') [nul_byte])
        \<Longrightarrow> join (cache_parts cache name q p) [nul_byte] = join (cache_parts cache name q' p') [nul_byte]"
  shows "q_method q = q_method q' \<and> q_request_uri q = q_request_uri q' \<and>
     (cp_per_principal cache \<longrightarrow> pr_id p = pr_id p') \<and>
     (\<forall>h \<in> set (cp_vary_headers cache). header_get (q_header q) h = header_get (q_header q') h)"
proof -
  have m: "q_method q = ''GET'' \<or> q_method q = ''HEAD''" "q_method q' = ''GET'' \<or> q_method q' = ''HEAD''"
    using assms(1,2) cacheKey_nonempty by metis+
  have "hex_encode (sha (join (cache_parts cache name q p) [nul_byte])) =
        hex_encode (sha (join (cache_parts cache name q' p') [nul_byte]))"
    using assms(1,2) by (auto simp: cacheKey_def sha256Text_def Let_def split: if_splits)
  then have "join (cache_parts cache name q p) [nul_byte] = join (cache_parts cache name q' p') [nul_byte]"
    by (rule no_collision [OF hex_encode_inj])
  note inj = cache_parts_inj [OF this assms(3,4)]
  have "nul_byte \<notin> set (q_method q)" "nul_byte \<notin> set (q_method q')"
    using m by (elim disjE; simp)+
  note eqs = inj [OF this]
  then have "\<forall>h \<in> set (cp_vary_headers cache). header_get (q_header q) h = header_get (q_header q') h"
    unfolding vary_parts_def by (intro vary_parts_inj [where f = canonical_key]) blast
  with eqs show ?thesis by blast
qed

definition sample_cache :: cachePolicy where
  "sample_cache = \<lparr>cp_ttl = 60 * second, cp_max_body_bytes = 1024, cp_per_principal = True, cp_vary_headers = [''Accept'']\<rparr>"

theorem cache_key_separates_requests_witness:
  "pr_id \<lparr>pr_id = ''ci'', pr_scopes = {''a''}\<rparr> = pr_id \<lparr>pr_id = ''ci'', pr_scopes = {}\<rparr> \<and>
   cacheKey id (Some sample_cache) True ''users'' sample_request \<lparr>pr_id = ''ci'', pr_scopes = {''a''}\<rparr> \<noteq> []"
proof -
  let ?p = "\<lparr>pr_id = ''ci'', pr_scopes = {''a''}\<rparr>" and ?p' = "\<lparr>pr_id = ''ci'', pr_scopes = {}\<rparr>"
  have a: "cacheKey id (Some sample_cache) True ''users'' sample_request ?p \<noteq> []"
    and b: "cacheKey id (Some sample_cache) True ''users'' sample_request ?p =
            cacheKey id (Some sample_cache) True ''users'' sample_request ?p'"
    and c: "nul_free sample_cache ''users'' sample_request"
    and d: "cp_per_principal sample_cache"
    by code_simp+
  from cache_key_separates_requests [OF a b c c] d a show ?thesis by simp
qed

text \<open>
  \<open>storeCached\<close> writes to Redis exactly when the response is a 200 within the policy's
  size bound, without \<open>Set-Cookie\<close> and not marked \<open>no-store\<close> or \<open>private\<close>, and then with
  a positive expiry that never exceeds the policy's, whatever \<open>max-age\<close> the upstream sends,
  overflow of the seconds included; in every other case neither Redis nor the counters change.
\<close>

lemma storeCached_only_cacheable:
  assumes "0 < cp_ttl cache"
  shows "if status = 200 \<and> int (length body) \<le> cp_max_body_bytes cache \<and> header_get h ''Set-Cookie'' = [] \<and>
            \<not> contains (to_lower (header_get h ''Cache-Control'')) ''no-store'' \<and>
            \<not> contains (to_lower (header_get h ''Cache-Control'')) ''private'' \<and>
            cc_marshal C \<lparr>cr_status = status, cr_header = h, cr_body = body\<rparr> \<noteq> None
         then \<exists>data ttl. cc_marshal C \<lparr>cr_status = status, cr_header = h, cr_body = body\<rparr> = Some data \<and>
            0 < ttl \<and> ttl \<le> cp_ttl cache \<and>
            snd (storeCached ovf C R cache name key status h body m w) = snd (rc_set R key data ttl w) \<and>
            gm_cache (fst (storeCached ovf C R cache name key status h body m w)) =
              (if fst (rc_set R key data ttl w) then inc (gm_cache m) (name, ''stored'') else gm_cache m)
         else storeCached ovf C R cache name key status h body m w = (m, w)"
proof (cases "cc_marshal C \<lparr>cr_status = status, cr_header = h, cr_body = body\<rparr>")
  case None
  then show ?thesis by (simp add: storeCached_def)
next
  case (Some data)
  note ttl = cache_ttl_bounds [OF assms, of ovf h]
  show ?thesis
  proof (cases "cacheable cache status h body")
    case True
    then show ?thesis
      using Some ttl
      by (auto simp: storeCached_def cacheable_def Let_def split: prod.splits bool.splits
          intro!: exI [where x = "cache_ttl ovf cache h"])
  next
    case False
    then show ?thesis by (auto simp: storeCached_def cacheable_def Let_def)
  qed
qed

definition sample_codec :: cache_codec where
  "sample_codec = \<lparr>cc_marshal = (\<lambda>c. Some (cr_body c)),
     cc_unmarshal = (\<lambda>b. Some \<lparr>cr_status = 200, cr_header = [(''Content-Type'', [''text/plain''])], cr_body = b\<rparr>)\<rparr>"

definition store_redis :: "(string \<times> bytes \<times> duration) list redis_client" where
  "store_redis = \<lparr>rc_hgetall = (\<lambda>k w. (None, w)), rc_eval = (\<lambda>k a w. (None, w)),
     rc_get = (\<lambda>k w. (map_option fst (map_of w k), w)), rc_set = (\<lambda>k v d w. (True, (k, v, d) # w))\<rparr>"

lemma storeCached_only_cacheable_witness:
  "\<exists>ttl. 0 < ttl \<and> ttl \<le> 60 * second \<and>
     snd (storeCached 0 sample_codec store_redis sample_cache ''users'' ''k'' 200
        [(''Cache-Control'', [''max-age=10''])] ''hello'' newGatewayMetrics []) = [(''k'', ''hello'', ttl)]"
proof -
  let ?h = "[(''Cache-Control'', [''max-age=10''])]"
  have pos: "0 < cp_ttl sample_cache" and t: "cp_ttl sample_cache = 60 * second"
    and c: "(200::int) = 200 \<and> int (length ''hello'') \<le> cp_max_body_bytes sample_cache \<and> header_get ?h ''Set-Cookie'' = [] \<and>
            \<not> contains (to_lower (header_get ?h ''Cache-Control'')) ''no-store'' \<and>
            \<not> contains (to_lower (header_get ?h ''Cache-Control'')) ''private'' \<and>
            cc_marshal sample_codec \<lparr>cr_status = 200, cr_header = ?h, cr_body = ''hello''\<rparr> \<noteq> None"
    by code_simp+
  from storeCached_only_cacheable [OF pos, of 200 "''hello''" ?h sample_codec 0 store_redis "''users''" "''k''" newGatewayMetrics "[]"]
  obtain data ttl where "cc_marshal sample_codec \<lparr>cr_status = 200, cr_header = ?h, cr_body = ''hello''\<rparr> = Some data"
    "0 < ttl" "ttl \<le> cp_ttl sample_cache"
    "snd (storeCached 0 sample_codec store_redis sample_cache ''users'' ''k'' 200 ?h ''hello'' newGatewayMetrics []) =
       snd (rc_set store_redis ''k'' data ttl [])"
    unfolding if_P [OF c] by blast
  then show ?thesis by (intro exI [where x = ttl]) (simp add: t sample_codec_def store_redis_def)
qed

text \<open>
  C34: What was stored is what is served: when the codec reads back what it wrote and Redis
  returns, under the key, the bytes it last accepted for it, a cacheable response stored by one
  request is served to the next one with the same key as a 200 with the stored headers and
  \<open>X-Cache: HIT\<close>, and with the stored body unless the request is a HEAD.
\<close>

theorem cached_response_round_trip:
  assumes "cacheable cache status h body"
    and "cc_marshal C \<lparr>cr_status = status, cr_header = h, cr_body = body\<rparr> = Some data"
    and "cc_unmarshal C data = Some \<lparr>cr_status = status, cr_header = h, cr_body = body\<rparr>"
    and "\<And>ttl. fst (rc_set R key data ttl w)"
    and "\<And>ttl. \<exists>w'. rc_get R key (snd (rc_set R key data ttl w)) = (Some data, w')"
  shows "case storeCached ovf C R cache name key status h body m w of (m', w') \<Rightarrow>
     (case serveCached C R name request key \<lparr>sw_inner = new_writer, sw_status = 0\<rparr> m' w' of (hit, sw, m'', w'') \<Rightarrow>
        hit \<and> sw_status sw = 200 \<and> w_code (sw_inner sw) = 200 \<and>
        w_header (sw_inner sw) = header_set (copy_header [] h) ''X-Cache'' ''HIT'' \<and>
        w_body (sw_inner sw) = (if q_method request = ''HEAD'' then [] else [Bytes body]) \<and>
        gm_cache m'' (name, ''hit'') = Suc (gm_cache m (name, ''hit'')))"
proof -
  have s: "status = 200" using assms(1) by (simp add: cacheable_def)
  obtain w' where w': "rc_set R key data (cache_ttl ovf cache h) w = (True, w')"
    using assms(4) by (metis prod.collapse)
  with assms(5) obtain w'' where g: "rc_get R key w' = (Some data, w'')" by (metis snd_conv)
  from assms(1,2) w' have st: "storeCached ovf C R cache name key status h body m w =
      (m\<lparr>gm_cache := inc (gm_cache m) (name, ''stored'')\<rparr>, w')"
    by (simp add: storeCached_def)
  show ?thesis
    unfolding st using assms(3) g s
    by (simp add: serveCached_def sw_copy_header_def sw_set_header_def set_header_def
        sw_write_header_def sw_write_def write_header_def write_chunk_def new_writer_def Let_def)
qed

definition plain_header :: header where
  "plain_header = [(''Content-Type'', [''text/plain''])]"

theorem cached_response_round_trip_witness:
  "case storeCached 0 sample_codec store_redis sample_cache ''users'' ''k'' 200 plain_header ''hi'' newGatewayMetrics [] of
     (m', w') \<Rightarrow> (case serveCached sample_codec store_redis ''users'' sample_request ''k''
          \<lparr>sw_inner = new_writer, sw_status = 0\<rparr> m' w' of (hit, sw, m'', w'') \<Rightarrow> hit \<and> sw_status sw = 200)"
proof -
  have "cacheable sample_cache 200 plain_header ''hi''" by code_simp
  moreover have "cc_marshal sample_codec \<lparr>cr_status = 200, cr_header = plain_header, cr_body = ''hi''\<rparr> = Some ''hi''"
    by (simp add: sample_codec_def)
  moreover have "cc_unmarshal sample_codec ''hi'' = Some \<lparr>cr_status = 200, cr_header = plain_header, cr_body = ''hi''\<rparr>"
    by (simp add: sample_codec_def plain_header_def)
  moreover have "\<And>ttl. fst (rc_set store_redis ''k'' ''hi'' ttl [])"
    and "\<And>ttl. \<exists>w'. rc_get store_redis ''k'' (snd (rc_set store_redis ''k'' ''hi'' ttl [])) = (Some ''hi'', w')"
    by (simp_all add: store_redis_def)
  ultimately show ?thesis
    using cached_response_round_trip [where cache = sample_cache and status = 200 and h = plain_header
        and body = "''hi''" and C = sample_codec and data = "''hi''" and R = store_redis and key = "''k''" and w = "[]"
        and ovf = 0 and name = "''users''" and m = newGatewayMetrics and request = sample_request]
    by (simp add: case_prod_unfold)
qed

text \<open>
  A response that forbids reuse with \<open>max-age=0\<close>, or asks for revalidation with
  \<open>no-cache\<close>, is stored for the full expiry of the policy: \<open>cacheMaxAge\<close> returns 0 both
  for "no max-age" and for \<open>max-age=0\<close>, and \<open>storeCached\<close> reads 0 as no bound.
\<close>

lemma max_age_zero_is_stored_for_full_ttl:
  "cacheable sample_cache 200 [(''Cache-Control'', [''max-age=0''])] ''body'' \<and>
   cache_ttl ovf sample_cache [(''Cache-Control'', [''max-age=0''])] = 60 * second \<and>
   cacheable sample_cache 200 [(''Cache-Control'', [''no-cache''])] ''body'' \<and>
   cache_ttl ovf sample_cache [(''Cache-Control'', [''no-cache''])] = 60 * second"
proof -
  let ?z = "[(''Cache-Control'', [''max-age=0''])]" and ?n = "[(''Cache-Control'', [''no-cache''])]"
  have c: "cacheable sample_cache 200 ?z ''body''" "cacheable sample_cache 200 ?n ''body''"
    "cp_ttl sample_cache = 60 * second"
    by code_simp+
  have z: "split_char (to_lower (header_get ?z ''Cache-Control'')) (CHR '','') = [''max-age=0'']"
    "cut (trim_space ''max-age=0'') (CHR ''='') = (''max-age'', ''0'', True)"
    and n: "split_char (to_lower (header_get ?n ''Cache-Control'')) (CHR '','') = [''no-cache'']"
    "cut (trim_space ''no-cache'') (CHR ''='') = (''no-cache'', [], False)"
    by code_simp+
  have a: "atoi_value ''0'' = 0"
    by (simp add: atoi_value_def parse_int64_def is_digit_def digits_val_def digit_val_def)
  have "float64_of_nat 0 = 0" by (simp add: float64_of_nat_def upt_rec)
  moreover have "wrap64 0 = 0" by (simp add: in_int64_def)
  ultimately have "seconds_duration ovf 0 = 0" by (simp add: seconds_duration_def)
  with a c z n show ?thesis by (simp add: cache_ttl_def cacheMaxAge_def)
qed

end
