(* ===== verification/Proxy_Route.thy ===== *)
theory Proxy_Route
  imports Response_Cache
begin

text \<open>
  One compiled route at work, from \<open>app.go\<close>: \<open>compileRoute\<close>, \<open>serveHTTP\<close>,
  \<open>forward\<close> with its retry loop, \<open>cloneUpstreamRequest\<close>, \<open>writeResponse\<close> and the
  concurrency semaphore.

  The transport and the circuit breaker (gobreaker) are parameters: \<open>ul_before\<close> says
  whether the breaker of an endpoint admits a call, \<open>ul_after\<close> reports the outcome to it,
  \<open>ul_round_trip\<close> is \<open>RoundTrip\<close>. The handler is modelled as run by one goroutine;
  \<open>sem_step\<close> interleaves the handlers of a route around its semaphore. Deadlines act through
  the external calls. A handler that dereferences a nil response is the outcome \<open>Panic\<close>.
\<close>

section \<open>Definitions\<close>

datatype up_error = UpMaxBytes | UpFailed string | UpStatus | UpOpen
  \<comment> \<open>\<open>http.MaxBytesError\<close>, another transport error, \<open>errUpstreamStatus\<close>, an open breaker\<close>

record 'w upstream_lib =
  ul_before :: "string \<times> nat \<Rightarrow> 'w \<Rightarrow> bool \<times> 'w"
  ul_after :: "string \<times> nat \<Rightarrow> up_error option \<Rightarrow> 'w \<Rightarrow> 'w"
  ul_round_trip :: "http_request \<Rightarrow> 'w \<Rightarrow> (up_error + http_response) \<times> 'w"

record ('w, 'k) env =
  en_sha :: "bytes \<Rightarrow> bytes"
  en_parsers :: parsers
  en_redis :: "'w redis_client option"
  en_jwt :: "('w, 'k) jwt_lib"
  en_up :: "'w upstream_lib"
  en_json :: json_codec
  en_cache :: cache_codec
  en_url :: url_ops
  en_ovf :: int  \<comment> \<open>conversion of an out-of-range float\<close>

record 'k compiledRoute =
  ro_config :: routeConfig
  ro_pool :: upstreamPool
  ro_auth :: "'k compiledAuth option"
  ro_rate :: "ratePolicy option"
  ro_cache :: "cachePolicy option"
  ro_sem :: "nat option"  \<comment> \<open>capacity of the channel\<close>
  ro_sem_used :: nat      \<comment> \<open>elements in it\<close>
  ro_trusted :: "ipnet list"
  ro_max_header :: int

subsection \<open>Compiling a route\<close>

definition zero_auth_policy :: authPolicy where
  "zero_auth_policy = \<lparr>ap_type = [], ap_keys = [], ap_issuer = [], ap_jwks_url = [], ap_audiences = []\<rparr>"

definition copy32 :: "bytes option \<Rightarrow> bytes" where
  "copy32 decoded = (let d = (case decoded of None \<Rightarrow> [] | Some b \<Rightarrow> b)
     in take 32 d @ replicate (32 - length (take 32 d)) (char_of (0::nat)))"
  \<comment> \<open>\<open>copy(hash[:], decoded)\<close> into a zeroed \<open>[32]byte\<close>\<close>

definition compile_auth :: "authPolicy \<Rightarrow> 'k compiledAuth" where
  "compile_auth policy = \<lparr>ca_policy = policy,
     ca_keys = fold (\<lambda>key m. AList.update (copy32 (hash_bytes (ak_sha256 key)))
                 \<lparr>pr_id = ak_name key, pr_scopes = scope_set (ak_scopes key)\<rparr> m) (ap_keys policy) [],
     ca_jwks = None, ca_jwks_at = 0\<rparr>"

definition compile_endpoint :: "parsers \<Rightarrow> routeConfig \<Rightarrow> string \<Rightarrow> upstreamEndpoint option" where
  "compile_endpoint P route raw = (case parseHTTPURL P (r_name route @ '' upstream'') raw of
      Inl e \<Rightarrow> None
    | Inr u \<Rightarrow> Some \<lparr>ep_url = u, ep_healthy = True\<rparr>)"
  \<comment> \<open>\<open>None\<close>: \<open>endpointURL.Host\<close> on a nil URL panics\<close>

fun compile_endpoints :: "parsers \<Rightarrow> routeConfig \<Rightarrow> string list \<Rightarrow> upstreamEndpoint list option" where
  "compile_endpoints P route [] = Some []"
| "compile_endpoints P route (raw # raws) = (case compile_endpoint P route raw of
      None \<Rightarrow> None
    | Some ep \<Rightarrow> map_option ((#) ep) (compile_endpoints P route raws))"

definition compileRoute :: "parsers \<Rightarrow> routeConfig \<Rightarrow> GatewayConfig \<Rightarrow> ipnet list \<Rightarrow> ('k compiledRoute \<times> outcome) option" where
  "compileRoute P route gateway trusted =
     (let route = normalizeRoute route in
      (case compile_endpoints P route (r_upstreams route) of
         None \<Rightarrow> None
       | Some eps \<Rightarrow>
           (let pool = \<lparr>pool_name = r_name route, pool_endpoints = eps, pool_next = 0\<rparr>;
                compiled = \<lparr>ro_config = route, ro_pool = pool,
                  ro_auth = (if r_auth_policy route \<noteq> []
                     then Some (compile_auth (lookup_or zero_auth_policy (g_auth_policies gateway) (r_auth_policy route))) else None),
                  ro_rate = (if r_rate_policy route \<noteq> []
                     then Some (lookup_or \<lparr>rp_requests = 0, rp_burst = 0, rp_window = 0\<rparr> (g_rate_policies gateway) (r_rate_policy route)) else None),
                  ro_cache = (if r_cache_policy route \<noteq> []
                     then Some (lookup_or \<lparr>cp_ttl = 0, cp_max_body_bytes = 0, cp_per_principal = False, cp_vary_headers = []\<rparr>
                            (g_cache_policies gateway) (r_cache_policy route)) else None),
                  ro_sem = (if r_concurrency route > 0 then Some (nat (r_concurrency route)) else None),
                  ro_sem_used = 0, ro_trusted = trusted, ro_max_header = g_max_header_bytes gateway\<rparr>
            in Some (compiled, if r_health_path route \<noteq> []
                 then startHealthChecks pool (r_health_interval route) else Started []))))"

subsection \<open>Forwarding\<close>

definition isIdempotent :: "string \<Rightarrow> bool" where
  "isIdempotent meth \<longleftrightarrow> meth \<in> set [''GET'', ''HEAD'', ''PUT'', ''DELETE'', ''OPTIONS'']"

definition cloneUpstreamRequest :: "parsers \<Rightarrow> http_request \<Rightarrow> url \<Rightarrow> routeConfig \<Rightarrow> bytes \<Rightarrow> ipnet list \<Rightarrow> http_request" where
  "cloneUpstreamRequest P request target route body trusted =
     (let u = (q_url request)\<lparr>u_scheme := u_scheme target, u_host := u_host target,
            u_path := joinURLPath (u_path target) (rewritePath (u_path (q_url request)) (r_path_prefix route) (r_path_rewrite route))\<rparr>;
          h = removeHopHeaders (q_header request);
          h = header_del h ''Proxy-Authorization'';
          h = applyHeaderTransform h (r_request_transform route);
          h = setForwardedHeaders P h request trusted;
          upstream = request\<lparr>q_url := u, q_request_uri := [], q_host := u_host target, q_header := h\<rparr>
      in if r_streaming route then upstream
         else upstream\<lparr>q_body := Some \<lparr>rd_data = body, rd_err = None\<rparr>, q_content_length := int (length body)\<rparr>)"

definition execute :: "'w upstream_lib \<Rightarrow> string \<times> nat \<Rightarrow> http_request \<Rightarrow> 'w \<Rightarrow> (http_response option \<times> up_error option) \<times> 'w" where
  "execute U breaker upstream w = (case ul_before U breaker w of
      (False, w) \<Rightarrow> ((None, Some UpOpen), w)
    | (True, w) \<Rightarrow> (case ul_round_trip U upstream w of
          (Inl e, w) \<Rightarrow> ((None, Some e), ul_after U breaker (Some e) w)
        | (Inr response, w) \<Rightarrow>
            if p_status response \<ge> 500 then ((Some response, Some UpStatus), ul_after U breaker (Some UpStatus) w)
            else ((Some response, None), ul_after U breaker None w)))"
  \<comment> \<open>\<open>endpoint.breaker.Execute\<close> of the closure in \<open>forward\<close>\<close>

datatype forward_result =
    FwdFault int string string  \<comment> \<open>\<open>requestFault\<close>\<close>
  | FwdNoHealthy
  | FwdError up_error
  | FwdResponse http_response
  | FwdNil                      \<comment> \<open>a nil response with a nil error\<close>

definition count_attempt :: "string \<Rightarrow> url \<Rightarrow> up_error option \<Rightarrow> gatewayMetrics \<Rightarrow> gatewayMetrics" where
  "count_attempt name u err m = m\<lparr>gm_upstream := inc (gm_upstream m)
     (name, u_host u, if err = None then ''ok'' else ''error'')\<rparr>"

fun forward_loop :: "('w, 'k) env \<Rightarrow> 'k compiledRoute \<Rightarrow> http_request \<Rightarrow> bytes \<Rightarrow> nat \<Rightarrow> up_error option
    \<Rightarrow> upstreamPool \<Rightarrow> gatewayMetrics \<Rightarrow> 'w \<Rightarrow> forward_result \<times> upstreamPool \<times> gatewayMetrics \<times> 'w" where
  "forward_loop E route request body 0 lastErr pool m w =
     ((case lastErr of None \<Rightarrow> FwdNil | Some e \<Rightarrow> FwdError e), pool, m, w)"
| "forward_loop E route request body (Suc left) lastErr pool m w =
     (case pick pool of
        (None, pool) \<Rightarrow> (FwdNoHealthy, pool, m, w)
      | (Some i, pool) \<Rightarrow>
          (let endpoint = pool_endpoints pool ! i;
               upstream = cloneUpstreamRequest (en_parsers E) request (ep_url endpoint) (ro_config route) body (ro_trusted route)
           in (case execute (en_up E) (pool_name pool, i) upstream w of
                 ((response, err), w) \<Rightarrow>
                   (let m = count_attempt (r_name (ro_config route)) (ep_url endpoint) err m in
                    (case (err, response) of
                       (None, Some r) \<Rightarrow> (FwdResponse r, pool, m, w)
                     | (None, None) \<Rightarrow> (FwdNil, pool, m, w)
                     | (Some e, Some r) \<Rightarrow>
                         if left = 0 then (FwdResponse r, pool, m, w)
                         else forward_loop E route request body left (Some e) pool m w
                     | (Some e, None) \<Rightarrow> forward_loop E route request body left (Some e) pool m w)))))"
  \<comment> \<open>\<open>left\<close> counts the attempts after the current one\<close>

definition forward_attempts :: "routeConfig \<Rightarrow> http_request \<Rightarrow> int" where
  "forward_attempts cfg request =
     (if isIdempotent (q_method request) \<and> \<not> r_streaming cfg then wrap64 (1 + r_retries cfg) else 1)"

definition forward_body :: "json_codec \<Rightarrow> routeConfig \<Rightarrow> http_request \<Rightarrow> forward_result + bytes" where
  "forward_body J cfg request =
     (if r_streaming cfg then Inr []
      else (case q_body request of
          None \<Rightarrow> Inr []
        | Some rd \<Rightarrow> (case readBounded rd (r_max_body_bytes cfg) of
              Inl e \<Rightarrow> Inl (FwdFault 413 ''body_too_large'' ''Request body exceeds the route limit'')
            | Inr body \<Rightarrow>
                if \<not> json_transform_empty (tr_json (r_request_transform cfg)) \<and> body \<noteq> [] then
                  (case transformJSON J body (tr_json (r_request_transform cfg)) of
                     Inl e \<Rightarrow> Inl (FwdFault 400 ''invalid_json'' ''Request body must be a JSON object'')
                   | Inr body \<Rightarrow> Inr body)
                else Inr body)))"

definition forward :: "('w, 'k) env \<Rightarrow> 'k compiledRoute \<Rightarrow> http_request \<Rightarrow> gatewayMetrics \<Rightarrow> 'w
    \<Rightarrow> forward_result \<times> upstreamPool \<times> gatewayMetrics \<times> 'w" where
  "forward E route request m w = (case forward_body (en_json E) (ro_config route) request of
      Inl fault \<Rightarrow> (fault, ro_pool route, m, w)
    | Inr body \<Rightarrow> forward_loop E route request body (nat (forward_attempts (ro_config route) request)) None (ro_pool route) m w)"

subsection \<open>Answering\<close>

definition response_header :: "('w, 'k) env \<Rightarrow> routeConfig \<Rightarrow> http_response \<Rightarrow> http_response" where
  "response_header E cfg response =
     (let h = removeHopHeaders (p_header response);
          h = header_del h ''Server'';
          h = header_del h ''X-Powered-By'';
          h = applyHeaderTransform h (r_response_transform cfg);
          response = response\<lparr>p_header := h\<rparr>
      in if r_rewrite_redirects cfg then rewriteRedirectLocation (en_url E) response cfg else response)"

definition response_limit :: "routeConfig \<Rightarrow> cachePolicy option \<Rightarrow> int" where
  "response_limit cfg cache = (case cache of
      None \<Rightarrow> r_max_body_bytes cfg
    | Some policy \<Rightarrow> if cp_max_body_bytes policy < r_max_body_bytes cfg
                     then cp_max_body_bytes policy else r_max_body_bytes cfg)"

definition buffered_body :: "json_codec \<Rightarrow> routeConfig \<Rightarrow> cachePolicy option \<Rightarrow> http_response \<Rightarrow> (string \<times> string) + bytes" where
  "buffered_body J cfg cache response = (case readBounded (p_body response) (response_limit cfg cache) of
      Inl e \<Rightarrow> Inl (''response_too_large'', ''Upstream response exceeds the configured limit'')
    | Inr body \<Rightarrow>
        if \<not> json_transform_empty (tr_json (r_response_transform cfg)) \<and> body \<noteq> [] then
          (case transformJSON J body (tr_json (r_response_transform cfg)) of
             Inl e \<Rightarrow> Inl (''invalid_upstream_json'', ''Upstream JSON transform failed'')
           | Inr body \<Rightarrow> Inr body)
        else Inr body)"

definition emit :: "http_request \<Rightarrow> int \<Rightarrow> header \<Rightarrow> bytes \<Rightarrow> bool \<Rightarrow> status_writer \<Rightarrow> status_writer" where
  "emit request status h body buffer sw =
     (let sw = sw_write_header status (sw_copy_header h sw)
      in if q_method request \<noteq> ''HEAD'' \<and> (buffer \<or> body \<noteq> []) then sw_write (Bytes body) sw else sw)"
  \<comment> \<open>\<open>io.Copy\<close> of an empty body makes no \<open>Write\<close>\<close>

definition writeResponse :: "('w, 'k) env \<Rightarrow> 'k compiledRoute \<Rightarrow> http_request \<Rightarrow> http_response \<Rightarrow> string
    \<Rightarrow> status_writer \<Rightarrow> gatewayMetrics \<Rightarrow> 'w \<Rightarrow> status_writer \<times> gatewayMetrics \<times> 'w" where
  "writeResponse E route request response key sw m w =
     (let cfg = ro_config route;
          response = response_header E cfg response;
          buffer = (key \<noteq> [] \<or> \<not> json_transform_empty (tr_json (r_response_transform cfg)))
      in if \<not> buffer
         then (emit request (p_status response) (p_header response) (rd_data (p_body response)) False sw, m, w)
         else (case buffered_body (en_json E) cfg (ro_cache route) response of
             Inl (code, msg) \<Rightarrow> (sw_fault 502 code msg sw, m, w)
           | Inr body \<Rightarrow>
               (let h = header_del (p_header response) ''Content-Length'';
                    sw = emit request (p_status response) h body True sw
                in (case (ro_cache route, en_redis E) of
                      (Some cache, Some R) \<Rightarrow>
                        if key \<noteq> [] then
                          (case storeCached (en_ovf E) (en_cache E) R cache (r_name cfg) key (p_status response) h body m w of
                             (m, w) \<Rightarrow> (sw, m, w))
                        else (sw, m, w)
                    | _ \<Rightarrow> (sw, m, w)))))"
  \<comment> \<open>a non-empty key implies that the cache policy and the client are present\<close>

datatype served = Served status_writer | Panic status_writer

definition answer :: "('w, 'k) env \<Rightarrow> 'k compiledRoute \<Rightarrow> http_request \<Rightarrow> string \<Rightarrow> forward_result
    \<Rightarrow> status_writer \<Rightarrow> gatewayMetrics \<Rightarrow> 'w \<Rightarrow> served \<times> gatewayMetrics \<times> 'w" where
  "answer E route request key result sw m w = (case result of
      FwdFault status code msg \<Rightarrow> (Served (sw_fault status code msg sw), m, w)
    | FwdError UpMaxBytes \<Rightarrow> (Served (sw_fault 413 ''body_too_large'' ''Request body exceeds the route limit'' sw), m, w)
    | FwdError e \<Rightarrow> (Served (sw_fault 502 ''bad_gateway'' ''Upstream service is unavailable'' sw), m, w)
    | FwdNoHealthy \<Rightarrow> (Served (sw_fault 502 ''bad_gateway'' ''Upstream service is unavailable'' sw), m, w)
    | FwdNil \<Rightarrow> (Panic sw, m, w)
    | FwdResponse response \<Rightarrow>
        (case writeResponse E route request response key sw m w of (sw, m, w) \<Rightarrow> (Served sw, m, w)))"

definition serve_body :: "('w, 'k) env \<Rightarrow> 'k compiledRoute \<Rightarrow> http_request \<Rightarrow> status_writer \<Rightarrow> gatewayMetrics \<Rightarrow> 'w
    \<Rightarrow> served \<times> 'k compiledRoute \<times> gatewayMetrics \<times> 'w" where
  "serve_body E route request sw m w =
     (let cfg = ro_config route in
      (case authenticate (en_sha E) (en_redis E) (en_jwt E) (ro_auth route) request w of
         (Inl err, auth, w) \<Rightarrow>
           (Served (sw_fault 401 ''unauthorized'' (error_text err) sw), route\<lparr>ro_auth := auth\<rparr>, m, w)
       | (Inr identity, auth, w) \<Rightarrow>
           (let route = route\<lparr>ro_auth := auth\<rparr> in
            if \<not> hasScopes (pr_scopes identity) (r_scopes cfg)
            then (Served (sw_fault 403 ''insufficient_scope'' ''Required scope is missing'' sw), route, m, w)
            else (case allowRequest (en_sha E) (en_parsers E) (en_redis E) (ro_rate route) (r_name cfg)
                        (ro_trusted route) request identity m w of
                (False, m, w) \<Rightarrow>
                  (Served (sw_fault 429 ''rate_limited'' ''The distributed rate limit is exceeded''
                      (sw_set_header ''Retry-After'' ''1'' sw)), route, m, w)
              | (True, m, w) \<Rightarrow>
                  (let key = cacheKey (en_sha E) (ro_cache route) (en_redis E \<noteq> None) (r_name cfg) request identity;
                       (hit, sw, m, w) = (case en_redis E of
                           Some R \<Rightarrow> if key \<noteq> [] then serveCached (en_cache E) R (r_name cfg) request key sw m w
                                     else (False, sw, m, w)
                         | None \<Rightarrow> (False, sw, m, w))
                   in if hit then (Served sw, route, m, w)
                      else (case forward E route request m w of
                          (result, pool, m, w) \<Rightarrow>
                            (case answer E route request key result sw m w of
                               (out, m, w) \<Rightarrow> (out, route\<lparr>ro_pool := pool\<rparr>, m, w))))))))"

definition limit_body :: "routeConfig \<Rightarrow> http_request \<Rightarrow> http_request" where
  "limit_body cfg request =
     request\<lparr>q_body := map_option (\<lambda>rd. max_bytes_reader rd (r_max_body_bytes cfg)) (q_body request)\<rparr>"

definition served_code :: "served \<Rightarrow> int" where
  "served_code out = (let s = (case out of Served sw \<Rightarrow> sw_status sw | Panic sw \<Rightarrow> sw_status sw)
     in if s = 0 then 200 else s)"

definition count_request :: "routeConfig \<Rightarrow> served \<Rightarrow> gatewayMetrics \<Rightarrow> gatewayMetrics" where
  "count_request cfg out m = m\<lparr>gm_requests := inc (gm_requests m) (r_name cfg, format_int (served_code out))\<rparr>"
  \<comment> \<open>the deferred counter\<close>

definition entry_fault :: "'k compiledRoute \<Rightarrow> http_request \<Rightarrow> (int \<times> string \<times> string) option" where
  "entry_fault route request =
     (if ro_max_header route > 0 \<and> header_bytes (q_header request) > ro_max_header route
      then Some (431, ''headers_too_large'', ''Request headers exceed the route limit'')
      else if q_content_length request > r_max_body_bytes (ro_config route)
      then Some (413, ''body_too_large'', ''Request body exceeds the route limit'')
      else (case ro_sem route of
          None \<Rightarrow> None
        | Some capacity \<Rightarrow> if ro_sem_used route < capacity then None
            else Some (429, ''concurrency_limited'', ''The route concurrency limit is reached'')))"

definition acquire_slot :: "'k compiledRoute \<Rightarrow> 'k compiledRoute" where
  "acquire_slot route = (case ro_sem route of None \<Rightarrow> route | Some _ \<Rightarrow> route\<lparr>ro_sem_used := ro_sem_used route + 1\<rparr>)"

definition release_slot :: "'k compiledRoute \<Rightarrow> 'k compiledRoute" where
  "release_slot route = (case ro_sem route of None \<Rightarrow> route | Some _ \<Rightarrow> route\<lparr>ro_sem_used := ro_sem_used route - 1\<rparr>)"

definition serve_guarded :: "('w, 'k) env \<Rightarrow> 'k compiledRoute \<Rightarrow> http_request \<Rightarrow> status_writer \<Rightarrow> gatewayMetrics \<Rightarrow> 'w
    \<Rightarrow> served \<times> 'k compiledRoute \<times> gatewayMetrics \<times> 'w" where
  "serve_guarded E route request sw m w = (case entry_fault route request of
      Some (status, code, msg) \<Rightarrow> (Served (sw_fault status code msg sw), route, m, w)
    | None \<Rightarrow> (case serve_body E (acquire_slot route) (limit_body (ro_config route) request) sw m w of
          (out, route, m, w) \<Rightarrow> (out, release_slot route, m, w)))"

definition serveHTTP :: "('w, 'k) env \<Rightarrow> 'k compiledRoute \<Rightarrow> http_request \<Rightarrow> writer \<Rightarrow> gatewayMetrics \<Rightarrow> 'w
    \<Rightarrow> served \<times> 'k compiledRoute \<times> gatewayMetrics \<times> 'w" where
  "serveHTTP E route request writer m w =
     (case serve_guarded E route request \<lparr>sw_inner = writer, sw_status = 0\<rparr> m w of
        (out, route, m, w) \<Rightarrow> (out, route, count_request (ro_config route) out m, w))"

section \<open>Facts\<close>

lemma sw_fault_status [simp]:
  "sw_status sw = 0 \<Longrightarrow> s \<noteq> 0 \<Longrightarrow> sw_status (sw_fault s c msg sw) = s"
  by (simp add: sw_fault_def sw_set_header_def sw_write_header_def sw_write_def Let_def)

lemma sw_set_header_status [simp]: "sw_status (sw_set_header k v sw) = sw_status sw"
  by (simp add: sw_set_header_def)

lemma allowRequest_metrics:
  assumes "allowRequest sha P redis rate name trusted request identity m w = (ok, m', w')"
  shows "gm_upstream m' = gm_upstream m \<and> gm_cache m' = gm_cache m \<and> gm_requests m' = gm_requests m"
  using assms by (auto simp: allowRequest_def Let_def split: option.splits prod.splits)

lemma execute_result:
  "execute U b q w = ((response, err), w') \<Longrightarrow> response \<noteq> None \<or> err \<noteq> None"
  by (auto simp: execute_def split: prod.splits bool.splits sum.splits if_splits)

lemma forward_loop_nil:
  assumes "forward_loop E route request body left lastErr pool m w = (FwdNil, pool', m', w')"
  shows "left = 0 \<and> lastErr = None"
  using assms
proof (induction left arbitrary: lastErr pool m w)
  case 0
  then show ?case by (simp split: option.splits)
next
  case (Suc left)
  then show ?case
    by (auto simp: Let_def split: prod.splits option.splits if_splits dest: execute_result)
qed

lemma forward_body_not_nil: "forward_body J cfg request \<noteq> Inl FwdNil"
  by (auto simp: forward_body_def split: option.splits sum.splits)

lemma forward_not_nil:
  assumes "0 < forward_attempts (ro_config route) request"
  shows "fst (forward E route request m w) \<noteq> FwdNil"
proof
  assume nil: "fst (forward E route request m w) = FwdNil"
  show False
  proof (cases "forward_body (en_json E) (ro_config route) request")
    case (Inl f)
    with nil forward_body_not_nil show False by (metis forward_def fst_conv sum.simps(5))
  next
    case (Inr body)
    with nil obtain pool' m' w' where
      "forward_loop E route request body (nat (forward_attempts (ro_config route) request)) None (ro_pool route) m w = (FwdNil, pool', m', w')"
      by (simp add: forward_def) (metis prod.collapse)
    from forward_loop_nil [OF this] assms show False by simp
  qed
qed

lemma forward_attempts_pos:
  assumes "0 \<le> r_retries cfg" and "r_retries cfg < 2 ^ 63 - 1"
  shows "0 < forward_attempts cfg request" and "forward_attempts cfg request \<le> 1 + r_retries cfg"
proof -
  have "wrap64 (1 + r_retries cfg) = 1 + r_retries cfg"
    using assms by (intro wrap64_id) (simp add: in_int64_def)
  then show "0 < forward_attempts cfg request" and "forward_attempts cfg request \<le> 1 + r_retries cfg"
    using assms by (simp_all add: forward_attempts_def)
qed

lemma answer_panics: "fst (answer E route request key result sw m w) = Panic sw' \<Longrightarrow> result = FwdNil"
  by (auto simp: answer_def split: forward_result.splits up_error.splits prod.splits)

lemma limit_body_fields [simp]:
  "q_method (limit_body cfg request) = q_method request" "q_header (limit_body cfg request) = q_header request"
  by (simp_all add: limit_body_def)

lemma forward_attempts_limit [simp]: "forward_attempts cfg (limit_body cfg' request) = forward_attempts cfg request"
  by (simp add: forward_attempts_def)

lemma serve_body_frame:
  assumes "serve_body E route request sw m w = (out, route', m', w')"
  shows "\<exists>auth pool. route' = route\<lparr>ro_auth := auth, ro_pool := pool\<rparr>"
proof -
  have same: "route\<lparr>ro_auth := auth\<rparr> = route\<lparr>ro_auth := auth, ro_pool := ro_pool route\<rparr>" for auth
    by simp
  from assms show ?thesis
    unfolding serve_body_def Let_def
    by (auto split: prod.splits sum.splits bool.splits if_splits intro: same)
qed

lemma serve_body_panic:
  assumes "fst (serve_body E route request sw m w) = Panic sw'"
  shows "forward_attempts (ro_config route) request \<le> 0"
proof -
  have "\<exists>auth m' w'. fst (forward E (route\<lparr>ro_auth := auth\<rparr>) request m' w') = FwdNil"
    using assms unfolding serve_body_def Let_def
    by (auto split: prod.splits sum.splits bool.splits if_splits dest!: answer_panics [unfolded fst_def])
       (metis fst_conv answer_panics)+
  then obtain auth m' w' where "fst (forward E (route\<lparr>ro_auth := auth\<rparr>) request m' w') = FwdNil" by blast
  with forward_not_nil [of "route\<lparr>ro_auth := auth\<rparr>" request E m' w'] show ?thesis
    by (cases "0 < forward_attempts (ro_config route) request") auto
qed

lemma acquire_slot_fields [simp]:
  "ro_auth (acquire_slot route) = ro_auth route" "ro_config (acquire_slot route) = ro_config route"
  "ro_rate (acquire_slot route) = ro_rate route" "ro_cache (acquire_slot route) = ro_cache route"
  "ro_trusted (acquire_slot route) = ro_trusted route" "ro_pool (acquire_slot route) = ro_pool route"
  by (simp_all add: acquire_slot_def split: option.split)

lemma slot_returned:
  "release_slot (acquire_slot route\<lparr>ro_auth := auth, ro_pool := pool\<rparr>) = route\<lparr>ro_auth := auth, ro_pool := pool\<rparr>"
  by (cases "ro_sem route") (simp_all add: acquire_slot_def release_slot_def)

lemma slot_returned_auth:
  "release_slot (acquire_slot route\<lparr>ro_auth := auth\<rparr>) = route\<lparr>ro_auth := auth\<rparr>"
  by (cases "ro_sem route") (simp_all add: acquire_slot_def release_slot_def)

subsection \<open>The order of the guards\<close>

text \<open>
  The specification of who is refused: the first guard of the documented order that a request
  fails, with the status it gets and the state of the outside world after the calls that the
  guards up to this one made.
\<close>

definition refusal :: "('w, 'k) env \<Rightarrow> 'k compiledRoute \<Rightarrow> http_request \<Rightarrow> 'w \<Rightarrow> (int \<times> 'w) option" where
  "refusal E route request w =
     (if 0 < ro_max_header route \<and> ro_max_header route < header_bytes (q_header request) then Some (431, w)
      else if r_max_body_bytes (ro_config route) < q_content_length request then Some (413, w)
      else if (case ro_sem route of None \<Rightarrow> False | Some c \<Rightarrow> c \<le> ro_sem_used route) then Some (429, w)
      else (case authenticate (en_sha E) (en_redis E) (en_jwt E) (ro_auth route) (limit_body (ro_config route) request) w of
          (Inl _, _, w) \<Rightarrow> Some (401, w)
        | (Inr p, _, w) \<Rightarrow>
            if \<not> set (r_scopes (ro_config route)) \<subseteq> pr_scopes p then Some (403, w)
            else (case allowRequest (en_sha E) (en_parsers E) (en_redis E) (ro_rate route) (r_name (ro_config route))
                   (ro_trusted route) (limit_body (ro_config route) request) p newGatewayMetrics w of
                (ok, _, w) \<Rightarrow> if ok then None else Some (429, w))))"

lemma allowRequest_any_metrics:
  "allowRequest sha P redis rate name trusted request identity m w = (ok, m', w') \<Longrightarrow>
   \<exists>m''. allowRequest sha P redis rate name trusted request identity newGatewayMetrics w = (ok, m'', w')"
  by (auto simp: allowRequest_def Let_def split: option.splits prod.splits)

lemma serve_body_refused:
  assumes "sw_status sw = 0"
    and "case authenticate (en_sha E) (en_redis E) (en_jwt E) (ro_auth route) request w of
          (Inl _, _, w) \<Rightarrow> v = (401, w)
        | (Inr p, _, w) \<Rightarrow>
            if \<not> set (r_scopes (ro_config route)) \<subseteq> pr_scopes p then v = (403, w)
            else (case allowRequest (en_sha E) (en_parsers E) (en_redis E) (ro_rate route) (r_name (ro_config route))
                   (ro_trusted route) request p newGatewayMetrics w of
                (ok, _, w) \<Rightarrow> \<not> ok \<and> v = (429, w))"
  shows "\<exists>f auth m'. serve_body E route request sw m w = (Served f, route\<lparr>ro_auth := auth\<rparr>, m', snd v) \<and>
      sw_status f = fst v \<and> gm_upstream m' = gm_upstream m \<and> gm_cache m' = gm_cache m \<and> gm_requests m' = gm_requests m"
proof (cases "authenticate (en_sha E) (en_redis E) (en_jwt E) (ro_auth route) request w")
  case (fields r auth w1)
  show ?thesis
  proof (cases r)
    case (Inl e)
    with fields assms show ?thesis by (auto simp: serve_body_def)
  next
    case (Inr p)
    obtain ok m1 w2 where a: "allowRequest (en_sha E) (en_parsers E) (en_redis E) (ro_rate route) (r_name (ro_config route))
        (ro_trusted route) request p m w1 = (ok, m1, w2)"
      by (metis prod_cases3)
    from allowRequest_any_metrics [OF a] obtain m2 where a': "allowRequest (en_sha E) (en_parsers E) (en_redis E)
        (ro_rate route) (r_name (ro_config route)) (ro_trusted route) request p newGatewayMetrics w1 = (ok, m2, w2)" by blast
    from Inr fields assms a a' allowRequest_metrics [OF a] show ?thesis
      by (cases "set (r_scopes (ro_config route)) \<subseteq> pr_scopes p") (auto simp: serve_body_def hasScopes_iff)
  qed
qed

lemma serve_guarded_refused:
  assumes "refusal E route request w = Some (code, w')" and "sw_status sw = 0"
  shows "\<exists>f auth m'. serve_guarded E route request sw m w = (Served f, route\<lparr>ro_auth := auth\<rparr>, m', w') \<and>
      sw_status f = code \<and> gm_upstream m' = gm_upstream m \<and> gm_cache m' = gm_cache m \<and> gm_requests m' = gm_requests m"
proof (cases "entry_fault route request")
  case (Some v)
  then have "w' = w \<and> code = fst v \<and> fst v \<noteq> 0"
    using assms(1) by (auto simp: entry_fault_def refusal_def split: if_splits option.splits)
  with Some assms(2) show ?thesis
    by (cases v) (auto simp: serve_guarded_def intro: exI [where x = "ro_auth route"])
next
  case None
  let ?r = "acquire_slot route" and ?q = "limit_body (ro_config route) request"
  have "case authenticate (en_sha E) (en_redis E) (en_jwt E) (ro_auth ?r) ?q w of
        (Inl _, _, w) \<Rightarrow> (code, w') = (401, w)
      | (Inr p, _, w) \<Rightarrow>
          if \<not> set (r_scopes (ro_config ?r)) \<subseteq> pr_scopes p then (code, w') = (403, w)
          else (case allowRequest (en_sha E) (en_parsers E) (en_redis E) (ro_rate ?r) (r_name (ro_config ?r))
                 (ro_trusted ?r) ?q p newGatewayMetrics w of (ok, _, w) \<Rightarrow> \<not> ok \<and> (code, w') = (429, w))"
    using assms(1) None unfolding refusal_def entry_fault_def acquire_slot_fields
    by (auto split: prod.splits sum.splits if_splits option.splits)
  from serve_body_refused [OF assms(2) this, of m] obtain f auth m' where
    "serve_body E ?r ?q sw m w = (Served f, ?r\<lparr>ro_auth := auth\<rparr>, m', w')" and "sw_status f = code"
    "gm_upstream m' = gm_upstream m \<and> gm_cache m' = gm_cache m \<and> gm_requests m' = gm_requests m"
    by auto
  with None show ?thesis by (auto simp: serve_guarded_def slot_returned_auth)
qed

lemma serve_body_no_upstream:
  assumes "case authenticate (en_sha E) (en_redis E) (en_jwt E) (ro_auth route) request w of
          (Inl _, _, w) \<Rightarrow> True
        | (Inr p, _, w) \<Rightarrow>
            set (r_scopes (ro_config route)) \<subseteq> pr_scopes p \<longrightarrow>
            \<not> fst (allowRequest (en_sha E) (en_parsers E) (en_redis E) (ro_rate route) (r_name (ro_config route))
                   (ro_trusted route) request p newGatewayMetrics w)"
  shows "serve_body (E\<lparr>en_up := U\<rparr>) route request sw m w = serve_body E route request sw m w"
proof (cases "authenticate (en_sha E) (en_redis E) (en_jwt E) (ro_auth route) request w")
  case (fields r auth w1)
  show ?thesis
  proof (cases r)
    case (Inl e)
    with fields show ?thesis by (simp add: serve_body_def)
  next
    case (Inr p)
    obtain ok m1 w2 where a: "allowRequest (en_sha E) (en_parsers E) (en_redis E) (ro_rate route) (r_name (ro_config route))
        (ro_trusted route) request p m w1 = (ok, m1, w2)"
      by (metis prod_cases3)
    from allowRequest_any_metrics [OF a] assms Inr fields have "set (r_scopes (ro_config route)) \<subseteq> pr_scopes p \<Longrightarrow> \<not> ok"
      by auto
    with Inr fields a show ?thesis
      by (cases "set (r_scopes (ro_config route)) \<subseteq> pr_scopes p") (simp_all add: serve_body_def hasScopes_iff)
  qed
qed

lemma serve_guarded_no_upstream:
  assumes "refusal E route request w = Some v"
  shows "serve_guarded (E\<lparr>en_up := U\<rparr>) route request sw m w = serve_guarded E route request sw m w"
proof (cases "entry_fault route request")
  case (Some f)
  then show ?thesis by (simp add: serve_guarded_def)
next
  case None
  let ?r = "acquire_slot route" and ?q = "limit_body (ro_config route) request"
  have "case authenticate (en_sha E) (en_redis E) (en_jwt E) (ro_auth ?r) ?q w of
          (Inl _, _, w) \<Rightarrow> True
        | (Inr p, _, w) \<Rightarrow>
            set (r_scopes (ro_config ?r)) \<subseteq> pr_scopes p \<longrightarrow>
            \<not> fst (allowRequest (en_sha E) (en_parsers E) (en_redis E) (ro_rate ?r) (r_name (ro_config ?r))
                   (ro_trusted ?r) ?q p newGatewayMetrics w)"
    using assms None unfolding refusal_def entry_fault_def acquire_slot_fields
    by (auto split: prod.splits sum.splits if_splits option.splits)
  from serve_body_no_upstream [OF this] show ?thesis by (simp add: serve_guarded_def None)
qed

subsection \<open>Counting attempts\<close>

definition attempts_total :: "string \<Rightarrow> upstreamPool \<Rightarrow> gatewayMetrics \<Rightarrow> nat" where
  "attempts_total name pool m =
     (\<Sum>(h, r) \<in> u_host ` ep_url ` set (pool_endpoints pool) \<times> {''ok'', ''error''}. gm_upstream m (name, h, r))"

lemma attempts_total_count:
  assumes "ep \<in> set (pool_endpoints pool)"
  shows "attempts_total name pool (count_attempt name (ep_url ep) err m) = Suc (attempts_total name pool m)"
proof -
  let ?A = "u_host ` ep_url ` set (pool_endpoints pool) \<times> {''ok'', ''error''}"
  let ?k = "(u_host (ep_url ep), if err = None then ''ok'' else ''error'')"
  have fin: "finite ?A" and k: "?k \<in> ?A" using assms by auto
  have "(\<Sum>(h, r) \<in> ?A. inc (gm_upstream m) (name, ?k) (name, h, r)) =
        inc (gm_upstream m) (name, ?k) (name, ?k) + (\<Sum>(h, r) \<in> ?A - {?k}. inc (gm_upstream m) (name, ?k) (name, h, r))"
    using sum.remove [OF fin k, of "\<lambda>(h, r). inc (gm_upstream m) (name, ?k) (name, h, r)"] by simp
  also have "(\<Sum>(h, r) \<in> ?A - {?k}. inc (gm_upstream m) (name, ?k) (name, h, r)) = (\<Sum>(h, r) \<in> ?A - {?k}. gm_upstream m (name, h, r))"
    by (rule sum.cong) (auto simp: inc_def split: if_splits)
  also have "inc (gm_upstream m) (name, ?k) (name, ?k) + \<dots> = Suc (\<Sum>(h, r) \<in> ?A. gm_upstream m (name, h, r))"
    using sum.remove [OF fin k, of "\<lambda>(h, r). gm_upstream m (name, h, r)"] by simp
  finally show ?thesis by (simp add: attempts_total_def count_attempt_def)
qed

lemma pick_endpoint:
  assumes "pick pool = (Some i, pool')" and "pool_ok pool"
  shows "pool_endpoints pool' = pool_endpoints pool" and "pool_ok pool'"
    and "pool_endpoints pool' ! i \<in> set (pool_endpoints pool)" and "pool_next pool' = pool_next pool + 1"
proof -
  show e: "pool_endpoints pool' = pool_endpoints pool" and "pool_next pool' = pool_next pool + 1"
    using assms(1) pick_pool [of pool] by (metis snd_conv)+
  then show "pool_ok pool'" using assms(2) by (simp add: pool_ok_def)
  have "i \<in> healthy_set pool" using rr.balance_good [OF assms(2)] assms(1) by simp
  then show "pool_endpoints pool' ! i \<in> set (pool_endpoints pool)" by (simp add: healthy_set_def e)
qed

lemma forward_loop_attempts:
  assumes "pool_ok pool"
    and "forward_loop E route request body left lastErr pool m w = (result, pool', m', w')"
  shows "\<exists>k \<le> left. attempts_total (r_name (ro_config route)) pool m' = attempts_total (r_name (ro_config route)) pool m + k"
  using assms
proof (induction left arbitrary: lastErr pool m w)
  case 0
  then show ?case by simp
next
  case (Suc left)
  let ?n = "r_name (ro_config route)"
  obtain c p1 where pick: "pick pool = (c, p1)" by (cases "pick pool")
  show ?case
  proof (cases c)
    case None
    with pick Suc.prems(2) show ?thesis by auto
  next
    case (Some i)
    note pe = pick_endpoint [OF pick [unfolded Some] Suc.prems(1)]
    let ?ep = "pool_endpoints p1 ! i"
    obtain response err w1 where ex: "execute (en_up E) (pool_name p1, i)
        (cloneUpstreamRequest (en_parsers E) request (ep_url ?ep) (ro_config route) body (ro_trusted route)) w = ((response, err), w1)"
      by (metis surj_pair)
    let ?m = "count_attempt ?n (ep_url ?ep) err m"
    have total: "attempts_total ?n pool ?m = Suc (attempts_total ?n pool m)"
      by (rule attempts_total_count) (rule pe(3))
    have same: "attempts_total ?n p1 = attempts_total ?n pool"
      by (simp add: attempts_total_def fun_eq_iff pe(1))
    from Suc.prems(2) pick Some ex consider "m' = ?m"
      | e where "forward_loop E route request body left (Some e) p1 ?m w1 = (result, pool', m', w')"
      by (auto simp: Let_def split: option.splits if_splits)
    then show ?thesis
    proof cases
      case 1
      with total show ?thesis by (intro exI [where x = 1]) simp
    next
      case 2
      from Suc.IH [OF pe(2) this] obtain k where "k \<le> left"
        "attempts_total ?n pool m' = attempts_total ?n pool ?m + k" by (auto simp: same)
      with total show ?thesis by (intro exI [where x = "Suc k"]) simp
    qed
  qed
qed

subsection \<open>The concurrency semaphore\<close>

text \<open>
  The handlers of one route: a request that passes the first guards takes a slot of the
  channel when one is free, and gives it back when its handler returns or panics (the receive
  is deferred).
\<close>

record sem_state =
  ss_used :: nat
  ss_running :: "nat list"
  ss_refused :: nat

inductive sem_step :: "nat \<Rightarrow> sem_state \<Rightarrow> sem_state \<Rightarrow> bool" for capacity where
  acquire: "ss_used s < capacity \<Longrightarrow> i \<notin> set (ss_running s) \<Longrightarrow>
     sem_step capacity s (s\<lparr>ss_used := ss_used s + 1, ss_running := i # ss_running s\<rparr>)"
| refuse: "\<not> ss_used s < capacity \<Longrightarrow> sem_step capacity s (s\<lparr>ss_refused := ss_refused s + 1\<rparr>)"
| release: "i \<in> set (ss_running s) \<Longrightarrow>
     sem_step capacity s (s\<lparr>ss_used := ss_used s - 1, ss_running := remove1 i (ss_running s)\<rparr>)"

definition sem_inv :: "nat \<Rightarrow> sem_state \<Rightarrow> bool" where
  "sem_inv capacity s \<longleftrightarrow> ss_used s = length (ss_running s) \<and> ss_used s \<le> capacity \<and> distinct (ss_running s)"

inductive_cases sem_stepE: "sem_step capacity s t"

lemma sem_inv_step: "sem_inv capacity s \<Longrightarrow> sem_step capacity s t \<Longrightarrow> sem_inv capacity t"
  by (erule sem_stepE) (auto simp: sem_inv_def length_remove1)

interpretation sem: invariant_system "\<lambda>s. s = \<lparr>ss_used = 0, ss_running = [], ss_refused = 0\<rparr>"
  "sem_step capacity" "sem_inv capacity" for capacity
  by unfold_locales (simp add: sem_inv_def, erule (1) sem_inv_step)

section \<open>Properties\<close>

text \<open>
  C10: A request that fails a guard of the route (header size, declared body size, concurrency,
  authentication, scopes, rate limit, in this order) is answered with the status of the first
  guard it fails, is counted under that status, and never reaches an upstream: the result is the
  same whatever the transport and the circuit breakers would do, no upstream or cache counter and
  no round-robin counter moves, and no slot stays taken.
\<close>

theorem refused_requests_stop_at_the_gateway:
  assumes "refusal E route request w = Some (code, w')"
  shows "\<exists>f auth m'. (\<forall>U. serveHTTP (E\<lparr>en_up := U\<rparr>) route request writer m w =
        (Served f, route\<lparr>ro_auth := auth\<rparr>, m', w')) \<and> sw_status f = code \<and>
      gm_upstream m' = gm_upstream m \<and> gm_cache m' = gm_cache m \<and>
      gm_requests m' = inc (gm_requests m) (r_name (ro_config route), format_int code)"
proof -
  let ?sw = "\<lparr>sw_inner = writer, sw_status = 0\<rparr>"
  have code: "code \<noteq> 0"
    using assms by (auto simp: refusal_def split: if_splits prod.splits sum.splits)
  have indep: "serve_guarded (E\<lparr>en_up := U\<rparr>) route request ?sw m w = serve_guarded E route request ?sw m w" for U
    by (rule serve_guarded_no_upstream [OF assms])
  from serve_guarded_refused [OF assms, of ?sw m] obtain f auth m' where
    g: "serve_guarded E route request ?sw m w = (Served f, route\<lparr>ro_auth := auth\<rparr>, m', w')" "sw_status f = code"
    "gm_upstream m' = gm_upstream m \<and> gm_cache m' = gm_cache m \<and> gm_requests m' = gm_requests m"
    by auto
  then show ?thesis
    using code by (auto simp: serveHTTP_def indep count_request_def served_code_def)
qed

definition sample_env :: "(unit, unit) env" where
  "sample_env = \<lparr>en_sha = rev, en_parsers = sample_parsers, en_redis = Some sample_redis, en_jwt = sample_jwt,
     en_up = \<lparr>ul_before = (\<lambda>_ w. (True, w)), ul_after = (\<lambda>_ _ w. w),
       ul_round_trip = (\<lambda>q w. (Inr \<lparr>p_status = 200, p_header = [(''Server'', [''x''])],
          p_body = \<lparr>rd_data = ''ok'', rd_err = None\<rparr>, p_request_url = None\<rparr>, w))\<rparr>,
     en_json = \<lparr>jc_decode = (\<lambda>_. None), jc_encode = (\<lambda>_. [])\<rparr>, en_cache = sample_codec,
     en_url = sample_url_ops, en_ovf = 0\<rparr>"

definition sample_compiled :: "unit compiledRoute" where
  "sample_compiled = \<lparr>ro_config = sample_route, ro_pool = sample_pool 0 [True, True],
     ro_auth = Some sample_key_auth, ro_rate = None, ro_cache = None, ro_sem = Some 2, ro_sem_used = 0,
     ro_trusted = [], ro_max_header = 2 ^ 20\<rparr>"

definition anonymous_request :: http_request where
  "anonymous_request = sample_request\<lparr>q_header := []\<rparr>"

theorem refused_requests_stop_at_the_gateway_witness:
  "\<exists>f. sw_status f = 401 \<and>
     fst (serveHTTP sample_env sample_compiled anonymous_request new_writer newGatewayMetrics ()) = Served f"
proof -
  have "refusal sample_env sample_compiled anonymous_request () = Some (401, ())"
    by (simp add: refusal_def sample_compiled_def sample_route_def sample_env_def anonymous_request_def
        sample_request_def header_bytes_def limit_body_def authenticate_def sample_key_auth_def
        authenticate_api_key_def header_get_def)
  from refused_requests_stop_at_the_gateway [OF this, of new_writer newGatewayMetrics]
  obtain f auth m' where "\<And>U. serveHTTP (sample_env\<lparr>en_up := U\<rparr>) sample_compiled anonymous_request new_writer newGatewayMetrics () =
      (Served f, sample_compiled\<lparr>ro_auth := auth\<rparr>, m', ())" and "sw_status f = 401" by auto
  from this(1) [of "en_up sample_env"] this(2) show ?thesis by auto
qed



text \<open>
  C12: A request is sent upstream at most once, and at most one more time per configured retry
  when its method is idempotent and the route does not stream: the attempts that \<open>forward\<close>
  adds to the upstream counters of the route are bounded by 1, respectively 1 + retries.
\<close>

theorem upstream_attempts_bounded:
  assumes "pool_ok (ro_pool route)" and "0 \<le> r_retries (ro_config route)" and "r_retries (ro_config route) < 2 ^ 63 - 1"
    and "forward E route request m w = (result, pool', m', w')"
  shows "\<exists>k. attempts_total (r_name (ro_config route)) (ro_pool route) m' =
          attempts_total (r_name (ro_config route)) (ro_pool route) m + k \<and>
      int k \<le> (if isIdempotent (q_method request) \<and> \<not> r_streaming (ro_config route)
               then 1 + r_retries (ro_config route) else 1)"
proof (cases "forward_body (en_json E) (ro_config route) request")
  case (Inl f)
  with assms(2,4) show ?thesis by (intro exI [where x = 0]) (auto simp: forward_def)
next
  case (Inr body)
  let ?n = "forward_attempts (ro_config route) request"
  from Inr assms(4) have "forward_loop E route request body (nat ?n) None (ro_pool route) m w = (result, pool', m', w')"
    by (simp add: forward_def)
  from forward_loop_attempts [OF assms(1) this] obtain k where "k \<le> nat ?n"
    "attempts_total (r_name (ro_config route)) (ro_pool route) m' =
     attempts_total (r_name (ro_config route)) (ro_pool route) m + k" by blast
  moreover have "?n \<le> (if isIdempotent (q_method request) \<and> \<not> r_streaming (ro_config route)
      then 1 + r_retries (ro_config route) else 1)"
    using forward_attempts_pos(2) [OF assms(2,3), of request] by (auto simp: forward_attempts_def)
  moreover have "0 < ?n" by (rule forward_attempts_pos(1) [OF assms(2,3)])
  ultimately show ?thesis by (intro exI [where x = k]) auto
qed

theorem upstream_attempts_bounded_witness:
  "\<exists>k. attempts_total ''users'' (sample_pool 0 [True, True])
        (fst (snd (snd (forward sample_env sample_compiled sample_request newGatewayMetrics ())))) =
      attempts_total ''users'' (sample_pool 0 [True, True]) newGatewayMetrics + k \<and> k \<le> 2"
proof -
  have ok: "pool_ok (ro_pool sample_compiled)" "0 \<le> r_retries (ro_config sample_compiled)"
    "r_retries (ro_config sample_compiled) < 2 ^ 63 - 1"
    and f: "r_name (ro_config sample_compiled) = ''users''" "ro_pool sample_compiled = sample_pool 0 [True, True]"
      "r_retries (ro_config sample_compiled) = 1"
    by (simp_all add: sample_compiled_def sample_route_def pool_ok_def sample_pool_def)
  obtain result pool' m' w' where e: "forward sample_env sample_compiled sample_request newGatewayMetrics () = (result, pool', m', w')"
    by (metis prod_cases4)
  from upstream_attempts_bounded [OF ok e] e f show ?thesis by (auto split: if_splits)
qed

text \<open>
  C14: What an upstream receives: the request goes to the picked target under the rewritten
  path; no hop-by-hop or proxy-credential header of the client passes unless the route sets that
  header itself; \<open>X-Forwarded-Host\<close> and \<open>X-Forwarded-Proto\<close> describe the client's request,
  whatever the client or the route's transformation put there; and a buffered body is sent with
  its own length.
\<close>

theorem upstream_request_is_sanitised:
  "q_host (cloneUpstreamRequest P request target r body trusted) = u_host target \<and>
    u_host (q_url (cloneUpstreamRequest P request target r body trusted)) = u_host target \<and>
    u_path (q_url (cloneUpstreamRequest P request target r body trusted)) =
      joinURLPath (u_path target) (rewritePath (u_path (q_url request)) (r_path_prefix r) (r_path_rewrite r)) \<and>
    (\<forall>k \<in> set hop_headers. canonical_key k \<notin> canonical_key ` fst ` set (tr_set_headers (r_request_transform r)) \<longrightarrow>
       header_get (q_header (cloneUpstreamRequest P request target r body trusted)) k = []) \<and>
    header_get (q_header (cloneUpstreamRequest P request target r body trusted)) ''X-Forwarded-Host'' = q_host request \<and>
    header_get (q_header (cloneUpstreamRequest P request target r body trusted)) ''X-Forwarded-Proto'' = (if q_tls request then ''https'' else ''http'') \<and>
    (\<not> r_streaming r \<longrightarrow> q_body (cloneUpstreamRequest P request target r body trusted) = Some \<lparr>rd_data = body, rd_err = None\<rparr> \<and>
       q_content_length (cloneUpstreamRequest P request target r body trusted) = int (length body))"
proof -
  have "list_all (\<lambda>k. canonical_key k \<noteq> canonical_key ''X-Forwarded-For'' \<and> canonical_key k \<noteq> canonical_key ''X-Forwarded-Host'' \<and>
     canonical_key k \<noteq> canonical_key ''X-Forwarded-Proto'') hop_headers"
    by code_simp
  then have fwd: "header_get (setForwardedHeaders P h request trusted) k = header_get h k" if "k \<in> set hop_headers" for k h
    using that by (simp add: list_all_iff setForwardedHeaders_def Let_def hdr_simps)
  have hop: "header_get (applyHeaderTransform (header_del (removeHopHeaders h) ''Proxy-Authorization'') t) k = []"
    if "k \<in> set hop_headers" "canonical_key k \<notin> canonical_key ` fst ` set (tr_set_headers t)" for k h t
  proof -
    have "find (\<lambda>kv. canonical_key (fst kv) = canonical_key k) (rev (tr_set_headers t)) = None"
      using that(2) by (auto simp: find_None_iff image_iff)
    then show ?thesis
      using that(1) by (simp add: applyHeaderTransform_get hdr_simps removeHopHeaders_get)
  qed
  have keys: "canonical_key ''X-Forwarded-Host'' \<noteq> canonical_key ''X-Forwarded-Proto''" by code_simp
  have names: "header_get (setForwardedHeaders P h request trusted) ''X-Forwarded-Host'' = q_host request"
    "header_get (setForwardedHeaders P h request trusted) ''X-Forwarded-Proto'' = (if q_tls request then ''https'' else ''http'')" for h
    using keys by (simp_all add: setForwardedHeaders_def Let_def hdr_simps)
  show ?thesis
    unfolding cloneUpstreamRequest_def Let_def
    by (cases "r_streaming r") (simp_all add: fwd hop names)
qed

theorem upstream_request_is_sanitised_witness:
  "header_get (q_header (cloneUpstreamRequest sample_parsers
      (sample_request\<lparr>q_header := [(''Connection'', [''close''])]\<rparr>) (q_url sample_request) open_route [] [])) ''Connection'' = []"
proof -
  have k: "''Connection'' \<in> set hop_headers"
    "canonical_key ''Connection'' \<notin> canonical_key ` fst ` set (tr_set_headers (r_request_transform open_route))"
    by (simp_all add: hop_headers_def open_route_def no_transform_def)
  from upstream_request_is_sanitised [of sample_parsers "sample_request\<lparr>q_header := [(''Connection'', [''close''])]\<rparr>" "q_url sample_request"
      open_route "[]" "[]"] k
  show ?thesis by blast
qed



text \<open>
  With the largest retry count that validation accepts, 1 + retries wraps around to a
  negative number, \<open>forward\<close> makes no attempt and returns a nil response without an error, and
  the handler panics on it; the deferred counter records the request as a 200.
\<close>

lemma largest_retry_count_panics:
  "\<exists>m' w' route'. serveHTTP sample_env (sample_compiled\<lparr>ro_config := open_route\<lparr>r_retries := 2 ^ 63 - 1, r_max_body_bytes := 64\<rparr>, ro_auth := None\<rparr>)
      sample_request new_writer newGatewayMetrics () = (Panic \<lparr>sw_inner = new_writer, sw_status = 0\<rparr>, route', m', w') \<and>
   gm_requests m' (''open'', ''200'') = 1 \<and>
   route_body_check sample_parsers sample_gateway (open_route\<lparr>r_retries := 2 ^ 63 - 1\<rparr>) = None"
proof -
  let ?cfg = "open_route\<lparr>r_retries := 2 ^ 63 - 1, r_max_body_bytes := 64\<rparr>"
  let ?route = "sample_compiled\<lparr>ro_config := ?cfg, ro_auth := None\<rparr>"
  have v: "route_body_check sample_parsers sample_gateway (open_route\<lparr>r_retries := 2 ^ 63 - 1\<rparr>) = None"
    by code_simp
  have "wrap64 (1 + (2 ^ 63 - 1)) < 0" by (simp add: wrap64_def)
  then have a: "nat (forward_attempts ?cfg q) = 0" if "q_method q = ''GET''" for q
    using that by (simp add: forward_attempts_def isIdempotent_def open_route_def sample_route_def)
  have f: "format_int 200 = ''200''" by code_simp
  show ?thesis
    using v a
    by (simp add: serveHTTP_def serve_guarded_def entry_fault_def acquire_slot_def release_slot_def sample_compiled_def
        sample_request_def header_bytes_def serve_body_def authenticate_def anonymous_def hasScopes_def
        allowRequest_def cacheKey_def forward_def forward_body_def limit_body_def answer_def sample_env_def
        count_request_def served_code_def f newGatewayMetrics_def
        open_route_def sample_route_def)
qed

end
