(* ===== verification/Router_Manager.thy ===== *)
theory Router_Manager
  imports Proxy_Route
begin

text \<open>
  The router manager of \<open>app.go\<close>: \<open>compile\<close>, \<open>Activate\<close>, \<open>readiness\<close>,
  \<open>ServeHTTP\<close> and \<open>corsHandler\<close>.

  \<open>http.ServeMux\<close> is a parameter: \<open>mx_conflict registered pattern\<close> says that
  \<open>Handle\<close> panics on \<open>pattern\<close> after the patterns \<open>registered\<close>, \<open>mx_match\<close>
  finds the registered pattern of a request and \<open>mx_default\<close> is what the mux answers itself
  when none matches. A snapshot is named by a number; its context is live until it is cancelled.
  The locale \<open>last_good\<close> is interpreted on \<open>Activate\<close>.
\<close>

section \<open>Definitions\<close>

record mux_lib =
  mx_conflict :: "string list \<Rightarrow> string \<Rightarrow> bool"
  mx_match :: "string list \<Rightarrow> http_request \<Rightarrow> string option"
  mx_default :: "http_request \<Rightarrow> writer \<Rightarrow> writer"

record 'k routerSnapshot =
  sn_id :: nat
  sn_config :: GatewayConfig
  sn_routes :: "('k compiledRoute \<times> string list) list"  \<comment> \<open>routes with their patterns\<close>
  sn_checkers :: "outcome list"

fun register :: "mux_lib \<Rightarrow> string list \<Rightarrow> string list \<Rightarrow> string list option" where
  "register M registered [] = Some registered"
| "register M registered (p # ps) =
     (if mx_conflict M registered p then None else register M (registered @ [p]) ps)"

abbreviation route_conflict :: go_error where
  "route_conflict \<equiv> Errorf ''route conflict: %v'' []"

fun compile_routes :: "parsers \<Rightarrow> mux_lib \<Rightarrow> GatewayConfig \<Rightarrow> ipnet list \<Rightarrow> string list \<Rightarrow> routeConfig list
    \<Rightarrow> go_error + ('k compiledRoute \<times> string list \<times> outcome) list" where
  "compile_routes P M gateway trusted registered [] = Inr []"
| "compile_routes P M gateway trusted registered (route # routes) =
     (case compileRoute P route gateway trusted of
        None \<Rightarrow> Inl route_conflict
      | Some (compiled, started) \<Rightarrow> (case register M registered (routePatterns route) of
            None \<Rightarrow> Inl route_conflict
          | Some registered \<Rightarrow> map_sum id ((#) (compiled, routePatterns route, started))
              (compile_routes P M gateway trusted registered routes)))"
  \<comment> \<open>a panic of \<open>mux.Handle\<close> or on a nil endpoint URL is recovered as a route conflict\<close>

record 'k manager =
  mg_current :: "'k routerSnapshot option"
  mg_metrics :: gatewayMetrics
  mg_redis_version :: int
  mg_environment :: string
  mg_allow_no_routes :: bool
  mg_next :: nat             \<comment> \<open>number of the next snapshot\<close>
  mg_live :: "nat list"      \<comment> \<open>snapshots whose context is not cancelled\<close>
  mg_dns :: "nat list"       \<comment> \<open>snapshots with a dynamic-DNS worker under a live context\<close>

definition compile :: "parsers \<Rightarrow> mux_lib \<Rightarrow> string \<Rightarrow> bool \<Rightarrow> nat \<Rightarrow> GatewayConfig \<Rightarrow> go_error + 'k routerSnapshot" where
  "compile P M environment allowNoRoutes snapshot configuration =
     (case gateway_validate P configuration environment allowNoRoutes of
        Some e \<Rightarrow> Inl e
      | None \<Rightarrow> (case parseTrustedProxies P (g_trusted_proxies configuration) of
            Inl value \<Rightarrow> Inl (Errorf ''invalid CIDR address: %s'' [value])
          | Inr trusted \<Rightarrow> map_sum id (\<lambda>rs. \<lparr>sn_id = snapshot, sn_config = configuration,
                sn_routes = map (\<lambda>(c, ps, _). (c, ps)) rs, sn_checkers = map (snd \<circ> snd) rs\<rparr>)
              (compile_routes P M configuration trusted [] (g_routes configuration))))"

definition count_reload :: "string \<Rightarrow> gatewayMetrics \<Rightarrow> gatewayMetrics" where
  "count_reload result m = m\<lparr>gm_reloads := inc (gm_reloads m) result\<rparr>"

definition cancel_snapshot :: "nat \<Rightarrow> 'k manager \<Rightarrow> 'k manager" where
  "cancel_snapshot i mg = mg\<lparr>mg_live := filter (\<lambda>j. j \<noteq> i) (mg_live mg), mg_dns := filter (\<lambda>j. j \<noteq> i) (mg_dns mg)\<rparr>"

definition Activate :: "parsers \<Rightarrow> mux_lib \<Rightarrow> GatewayConfig \<Rightarrow> 'k manager \<Rightarrow> go_error option \<times> 'k manager" where
  "Activate P M configuration mg =
     (case compile P M (mg_environment mg) (mg_allow_no_routes mg) (mg_next mg) configuration of
        Inl e \<Rightarrow> (Some e, mg\<lparr>mg_metrics := count_reload ''rejected'' (mg_metrics mg), mg_next := Suc (mg_next mg)\<rparr>)
      | Inr snapshot \<Rightarrow>
          (let previous = mg_current mg;
               mg = mg\<lparr>mg_current := Some snapshot, mg_live := sn_id snapshot # mg_live mg, mg_next := Suc (mg_next mg)\<rparr>;
               mg = (case previous of None \<Rightarrow> mg | Some p \<Rightarrow> cancel_snapshot (sn_id p) mg);
               mg = (if dd_enabled (g_dynamic_dns configuration) then mg\<lparr>mg_dns := sn_id snapshot # mg_dns mg\<rparr> else mg)
           in (None, mg\<lparr>mg_metrics := count_reload ''activated'' (mg_metrics mg)\<rparr>)))"

definition snapshot_pools :: "'k routerSnapshot \<Rightarrow> upstreamPool list" where
  "snapshot_pools s = map (\<lambda>(c, ps). ro_pool c) (sn_routes s)"

definition readiness :: "'k manager \<Rightarrow> go_error option" where
  "readiness mg = (case mg_current mg of
      None \<Rightarrow> Some (Errorf ''no active gateway configuration'' [])
    | Some snapshot \<Rightarrow> first_error (\<lambda>pool. if \<not> hasHealthy pool
        then Some (Errorf ''route %s has no healthy upstream'' [pool_name pool]) else None) (snapshot_pools snapshot))"

subsection \<open>Serving\<close>

datatype cors_result = Answered writer | Continue writer

definition corsHandler :: "string list \<Rightarrow> http_request \<Rightarrow> writer \<Rightarrow> cors_result" where
  "corsHandler origins request w =
     (let origin = header_get (q_header request) ''Origin'' in
      if origin \<noteq> [] \<and> (origin \<in> set origins \<or> ''*'' \<in> set origins) then
        (let w = set_header ''Access-Control-Allow-Origin'' origin w;
             w = add_header ''Vary'' ''Origin'' w;
             w = set_header ''Access-Control-Allow-Headers'' ''Authorization, Content-Type, X-API-Key, X-Request-ID'' w;
             w = set_header ''Access-Control-Allow-Methods'' ''GET, HEAD, POST, PUT, PATCH, DELETE, OPTIONS'' w
         in if q_method request = ''OPTIONS'' then Answered (write_header 204 w) else Continue w)
      else Continue w)"

definition snapshot_patterns :: "'k routerSnapshot \<Rightarrow> string list" where
  "snapshot_patterns s = concat (map snd (sn_routes s))"

fun find_route :: "('k compiledRoute \<times> string list) list \<Rightarrow> string \<Rightarrow> nat option" where
  "find_route [] p = None"
| "find_route ((c, ps) # rs) p = (if p \<in> set ps then Some 0 else map_option Suc (find_route rs p))"

definition mux_serve :: "mux_lib \<Rightarrow> ('w, 'k) env \<Rightarrow> 'k routerSnapshot \<Rightarrow> http_request \<Rightarrow> writer \<Rightarrow> gatewayMetrics \<Rightarrow> 'w
    \<Rightarrow> served \<times> 'k routerSnapshot \<times> gatewayMetrics \<times> 'w" where
  "mux_serve M E s request writer m w =
     (case Option.bind (mx_match M (snapshot_patterns s) request) (find_route (sn_routes s)) of
        None \<Rightarrow> (Served \<lparr>sw_inner = mx_default M request writer, sw_status = 0\<rparr>, s, m, w)
      | Some i \<Rightarrow> (case serveHTTP E (fst (sn_routes s ! i)) request writer m w of
            (out, route, m, w) \<Rightarrow> (out, s\<lparr>sn_routes := (sn_routes s)[i := (route, snd (sn_routes s ! i))]\<rparr>, m, w)))"

definition snapshot_serve :: "mux_lib \<Rightarrow> ('w, 'k) env \<Rightarrow> 'k routerSnapshot \<Rightarrow> http_request \<Rightarrow> writer \<Rightarrow> gatewayMetrics \<Rightarrow> 'w
    \<Rightarrow> served \<times> 'k routerSnapshot \<times> gatewayMetrics \<times> 'w" where
  "snapshot_serve M E s request writer m w =
     (if g_cors_allowed_origins (sn_config s) \<noteq> [] then
        (case corsHandler (g_cors_allowed_origins (sn_config s)) request writer of
           Answered writer \<Rightarrow> (Served \<lparr>sw_inner = writer, sw_status = 0\<rparr>, s, m, w)
         | Continue writer \<Rightarrow> mux_serve M E s request writer m w)
      else mux_serve M E s request writer m w)"

definition manager_ServeHTTP :: "mux_lib \<Rightarrow> ('w, 'k) env \<Rightarrow> 'k manager \<Rightarrow> http_request \<Rightarrow> writer \<Rightarrow> 'w
    \<Rightarrow> served \<times> 'k manager \<times> 'w" where
  "manager_ServeHTTP M E mg request writer w = (case mg_current mg of
      None \<Rightarrow> (Served \<lparr>sw_inner = write_fault 503 ''not_configured'' ''No valid gateway configuration is active'' writer,
                       sw_status = 0\<rparr>, mg, w)
    | Some s \<Rightarrow> (case snapshot_serve M E s request writer (mg_metrics mg) w of
          (out, s, m, w) \<Rightarrow> (out, mg\<lparr>mg_current := Some s, mg_metrics := m\<rparr>, w)))"

section \<open>Compilation succeeds exactly on valid, conflict-free configurations\<close>

lemma compile_endpoints_ok:
  "\<forall>raw \<in> set raws. http_url_ok P raw \<Longrightarrow>
   \<exists>eps. compile_endpoints P route raws = Some eps \<and> length eps = length raws \<and> (\<forall>ep \<in> set eps. ep_healthy ep)"
proof (induction raws)
  case Nil
  then show ?case by simp
next
  case (Cons raw raws)
  then obtain u where "parseHTTPURL P (r_name route @ '' upstream'') raw = Inr u"
    using parseHTTPURL_ok [of P raw "r_name route @ '' upstream''"] by auto
  with Cons show ?case by (auto simp: compile_endpoint_def)
qed

lemma compileRoute_ok:
  assumes "route_ok P g route"
  shows "\<exists>c started. compileRoute P route gateway trusted = Some (c, started) \<and> hasHealthy (ro_pool c) \<and>
      pool_name (ro_pool c) = r_name route \<and> ro_config c = normalizeRoute route"
proof -
  from assms have "\<forall>raw \<in> set (r_upstreams (normalizeRoute route)). http_url_ok P raw" and "r_upstreams route \<noteq> []"
    by (auto simp: route_ok_def)
  from compile_endpoints_ok [OF this(1), of "normalizeRoute route"] this(2) obtain eps where
    "compile_endpoints P (normalizeRoute route) (r_upstreams (normalizeRoute route)) = Some eps"
    "length eps = length (r_upstreams route)" "\<forall>ep \<in> set eps. ep_healthy ep" by auto
  moreover from this \<open>r_upstreams route \<noteq> []\<close> have "list_ex ep_healthy eps"
    by (cases eps) auto
  ultimately show ?thesis by (simp add: compileRoute_def Let_def hasHealthy_def)
qed

lemma parseTrustedProxies_ok:
  "\<forall>t \<in> set vs. parse_ip P t \<noteq> None \<or> parse_cidr P t \<noteq> None \<Longrightarrow> \<exists>nets. parseTrustedProxies P vs = Inr nets"
  by (induction vs) (auto simp: Let_def split: option.splits)

lemma register_append:
  "register M registered (ps @ qs) = Option.bind (register M registered ps) (\<lambda>r. register M r qs)"
  by (induction ps arbitrary: registered) auto

lemma compile_routes_iff:
  assumes "\<forall>r \<in> set routes. route_ok P g r"
  shows "(\<exists>rs :: ('k compiledRoute \<times> string list \<times> outcome) list. compile_routes P M gateway trusted registered routes = Inr rs) \<longleftrightarrow>
     register M registered (concat (map routePatterns routes)) \<noteq> None"
  using assms
proof (induction routes arbitrary: registered)
  case Nil
  then show ?case by simp
next
  case (Cons route routes)
  obtain c :: "'k compiledRoute" and started where "compileRoute P route gateway trusted = Some (c, started)"
    using compileRoute_ok [of P g route gateway trusted] Cons.prems by auto
  note c = this
  show ?case
  proof (cases "register M registered (routePatterns route)")
    case None
    with c show ?thesis by (simp add: register_append)
  next
    case (Some reg)
    have "(\<exists>rs. map_sum id ((#) x) t = Inr rs) \<longleftrightarrow> (\<exists>rs. t = Inr rs)"
      for x :: "'k compiledRoute \<times> string list \<times> outcome" and t :: "go_error + _"
      by (cases t) simp_all
    with c Some Cons.IH [of reg] Cons.prems show ?thesis by (simp add: register_append)
  qed
qed

lemma compile_iff:
  "(\<exists>s :: 'k routerSnapshot. compile P M environment allowNoRoutes i g = Inr s) \<longleftrightarrow>
     valid_gateway P environment allowNoRoutes g \<and> register M [] (concat (map routePatterns (g_routes g))) \<noteq> None"
proof (cases "valid_gateway P environment allowNoRoutes g")
  case False
  then show ?thesis using gateway_validate_iff [of P g environment allowNoRoutes]
    by (auto simp: compile_def split: option.splits)
next
  case True
  then have v: "gateway_validate P g environment allowNoRoutes = None" by (simp add: gateway_validate_iff)
  from True obtain nets where t: "parseTrustedProxies P (g_trusted_proxies g) = Inr nets"
    using parseTrustedProxies_ok [of "g_trusted_proxies g" P] by (auto simp: valid_gateway_def)
  from True have "\<forall>r \<in> set (g_routes g). route_ok P g r" by (simp add: valid_gateway_def)
  note iff = compile_routes_iff [OF this, of M g nets "[]", where 'k = 'k]
  have "(\<exists>s :: 'k routerSnapshot. compile P M environment allowNoRoutes i g = Inr s) \<longleftrightarrow>
      (\<exists>rs :: ('k compiledRoute \<times> string list \<times> outcome) list. compile_routes P M g nets [] (g_routes g) = Inr rs)"
    by (cases "compile_routes P M g nets [] (g_routes g) :: go_error + ('k compiledRoute \<times> string list \<times> outcome) list")
       (simp_all add: compile_def v t)
  with iff True show ?thesis by simp
qed

lemma compile_fields:
  "compile P M environment allowNoRoutes i g = Inr s \<Longrightarrow> sn_id s = i \<and> sn_config s = g"
  by (auto simp: compile_def split: option.splits sum.splits)
     (auto simp: map_sum_def split: sum.splits)

lemma compile_routes_healthy:
  fixes rs :: "('k compiledRoute \<times> string list \<times> outcome) list"
  assumes "\<forall>r \<in> set routes. route_ok P g r" and "compile_routes P M gateway trusted registered routes = Inr rs"
  shows "\<forall>x \<in> set rs. hasHealthy (ro_pool (fst x))"
  using assms
proof (induction routes arbitrary: registered rs)
  case Nil
  then show ?case by simp
next
  case (Cons route routes)
  from compileRoute_ok [of P g route gateway trusted] Cons.prems(1) obtain c :: "'k compiledRoute" and started where
    c: "compileRoute P route gateway trusted = Some (c, started)" "hasHealthy (ro_pool c)" by auto
  with Cons.prems(2) obtain reg rs' where "rs = (c, routePatterns route, started) # rs'"
    "compile_routes P M gateway trusted reg routes = Inr rs'"
    by (auto simp: map_sum_def split: option.splits sum.splits)
  with Cons c show ?case by auto
qed

lemma compile_healthy:
  assumes "compile P M environment allowNoRoutes i g = Inr s"
  shows "\<forall>pool \<in> set (snapshot_pools s). hasHealthy pool"
proof -
  have "valid_gateway P environment allowNoRoutes g" using compile_iff assms by blast
  then have "\<forall>r \<in> set (g_routes g). route_ok P g r" by (simp add: valid_gateway_def)
  from compile_routes_healthy [OF this] assms show ?thesis
    by (auto simp: compile_def snapshot_pools_def map_sum_def split: option.splits sum.splits) fastforce
qed

section \<open>Activation\<close>

lemma Activate_env [simp]:
  "mg_environment (snd (Activate P M g mg)) = mg_environment mg"
  "mg_allow_no_routes (snd (Activate P M g mg)) = mg_allow_no_routes mg"
  by (auto simp: Activate_def Let_def cancel_snapshot_def split: sum.splits option.splits)

definition active_config :: "'k manager \<Rightarrow> GatewayConfig option" where
  "active_config mg = map_option sn_config (mg_current mg)"

definition accepts_config :: "parsers \<Rightarrow> mux_lib \<Rightarrow> string \<Rightarrow> bool \<Rightarrow> GatewayConfig \<Rightarrow> bool" where
  "accepts_config P M environment allow g \<longleftrightarrow>
     valid_gateway P environment allow g \<and> register M [] (concat (map routePatterns (g_routes g))) \<noteq> None"

lemma Activate_accepted:
  fixes mg :: "'k manager"
  assumes "accepts_config P M (mg_environment mg) (mg_allow_no_routes mg) g"
  shows "\<exists>s. compile P M (mg_environment mg) (mg_allow_no_routes mg) (mg_next mg) g = Inr s \<and>
     fst (Activate P M g mg) = None \<and> mg_current (snd (Activate P M g mg)) = Some s \<and> sn_config s = g"
proof -
  obtain s :: "'k routerSnapshot" where s: "compile P M (mg_environment mg) (mg_allow_no_routes mg) (mg_next mg) g = Inr s"
    using assms unfolding accepts_config_def
    using compile_iff [of P M "mg_environment mg" "mg_allow_no_routes mg" "mg_next mg" g, where 'k = 'k] by blast
  with compile_fields [OF s] show ?thesis
    by (simp add: Activate_def Let_def cancel_snapshot_def split: option.split)
qed

lemma Activate_rejected:
  fixes mg :: "'k manager"
  assumes "\<not> accepts_config P M (mg_environment mg) (mg_allow_no_routes mg) g"
  shows "\<exists>e. Activate P M g mg = (Some e, mg\<lparr>mg_metrics := count_reload ''rejected'' (mg_metrics mg), mg_next := Suc (mg_next mg)\<rparr>)"
proof -
  have "\<nexists>s :: 'k routerSnapshot. compile P M (mg_environment mg) (mg_allow_no_routes mg) (mg_next mg) g = Inr s"
    using assms unfolding accepts_config_def
    using compile_iff [of P M "mg_environment mg" "mg_allow_no_routes mg" "mg_next mg" g, where 'k = 'k] by blast
  then show ?thesis by (auto simp: Activate_def split: sum.split)
qed

interpretation act: last_good "Activate P M" "\<lambda>c. c" active_config "accepts_config P M environment allow"
  "\<lambda>mg. mg_environment mg = environment \<and> mg_allow_no_routes mg = allow" for P M environment allow
proof
  fix s :: "'k manager" and c
  assume ok: "mg_environment s = environment \<and> mg_allow_no_routes s = allow"
  show "Activate P M c s = (None, snd (Activate P M c s)) \<and> active_config (snd (Activate P M c s)) = Some c"
    if "accepts_config P M environment allow c"
    using Activate_accepted [of P M s c] that ok by (cases "Activate P M c s") (auto simp: active_config_def)
  show "(\<exists>e. fst (Activate P M c s) = Some e) \<and> active_config (snd (Activate P M c s)) = active_config s"
    if "\<not> accepts_config P M environment allow c"
    using Activate_rejected [of P M s c] that ok by (auto simp: active_config_def)
  show "mg_environment (snd (Activate P M c s)) = environment \<and> mg_allow_no_routes (snd (Activate P M c s)) = allow"
    using ok by simp
qed

subsection \<open>Live contexts\<close>

definition manager_inv :: "'k manager \<Rightarrow> bool" where
  "manager_inv mg \<longleftrightarrow> (case mg_current mg of
      None \<Rightarrow> mg_live mg = [] \<and> mg_dns mg = []
    | Some s \<Rightarrow> mg_live mg = [sn_id s] \<and> sn_id s < mg_next mg \<and>
        mg_dns mg = (if dd_enabled (g_dynamic_dns (sn_config s)) then [sn_id s] else []))"

definition new_manager :: "string \<Rightarrow> bool \<Rightarrow> 'k manager" where
  "new_manager environment allow = \<lparr>mg_current = None, mg_metrics = newGatewayMetrics, mg_redis_version = 0,
     mg_environment = environment, mg_allow_no_routes = allow, mg_next = 0, mg_live = [], mg_dns = []\<rparr>"

lemma manager_inv_Activate:
  fixes mg :: "'k manager"
  assumes "manager_inv mg"
  shows "manager_inv (snd (Activate P M g mg))"
proof (cases "compile P M (mg_environment mg) (mg_allow_no_routes mg) (mg_next mg) g :: go_error + 'k routerSnapshot")
  case (Inl e)
  with assms show ?thesis by (auto simp: Activate_def manager_inv_def split: option.splits)
next
  case (Inr s)
  note f = compile_fields [OF Inr]
  show ?thesis
  proof (cases "mg_current mg")
    case None
    with Inr f assms show ?thesis by (auto simp: Activate_def manager_inv_def Let_def)
  next
    case (Some p)
    with Inr f assms show ?thesis
      by (auto simp: Activate_def manager_inv_def cancel_snapshot_def Let_def split: if_splits)
  qed
qed

lemma manager_inv_serve:
  assumes "manager_inv mg"
  shows "manager_inv (fst (snd (manager_ServeHTTP M E mg request writer w)))"
proof (cases "mg_current mg")
  case None
  with assms show ?thesis by (simp add: manager_ServeHTTP_def)
next
  case (Some s)
  obtain out s' m' w' where r: "snapshot_serve M E s request writer (mg_metrics mg) w = (out, s', m', w')"
    by (metis prod_cases4)
  have "sn_id s' = sn_id s \<and> sn_config s' = sn_config s"
    using r by (auto simp: snapshot_serve_def mux_serve_def split: if_splits cors_result.splits option.splits prod.splits)
  with assms Some r show ?thesis by (simp add: manager_ServeHTTP_def manager_inv_def)
qed

inductive manager_step :: "parsers \<Rightarrow> mux_lib \<Rightarrow> ('w, 'k) env \<Rightarrow> 'k manager \<Rightarrow> 'k manager \<Rightarrow> bool" for P M E where
  activation: "manager_step P M E mg (snd (Activate P M g mg))"
| request: "manager_step P M E mg (fst (snd (manager_ServeHTTP M E mg q writer w)))"

inductive_cases manager_stepE: "manager_step P M E s t"

lemma manager_inv_step: "manager_inv s \<Longrightarrow> manager_step P M E s t \<Longrightarrow> manager_inv t"
  by (erule manager_stepE) (auto intro: manager_inv_Activate manager_inv_serve)

interpretation mgr: invariant_system "\<lambda>mg. mg = new_manager environment allow" "manager_step P M E" manager_inv
  for environment allow P M E
  by (unfold_locales, simp add: manager_inv_def new_manager_def, erule (1) manager_inv_step)

lemma readiness_None: "readiness mg = None \<longleftrightarrow> (\<exists>s. mg_current mg = Some s \<and> list_all hasHealthy (snapshot_pools s))"
  by (auto simp: readiness_def list_all_iff split: option.splits)

lemma Activate_iff:
  "fst (Activate P M g mg) = None \<longleftrightarrow> accepts_config P M (mg_environment mg) (mg_allow_no_routes mg) g"
  using Activate_accepted [of P M mg g] Activate_rejected [of P M mg g] by fastforce

lemma Activate_ready:
  assumes "fst (Activate P M g mg) = None"
  shows "readiness (snd (Activate P M g mg)) = None"
proof -
  from assms have "accepts_config P M (mg_environment mg) (mg_allow_no_routes mg) g" by (simp add: Activate_iff)
  from Activate_accepted [OF this] obtain s where
    "compile P M (mg_environment mg) (mg_allow_no_routes mg) (mg_next mg) g = Inr s"
    "mg_current (snd (Activate P M g mg)) = Some s" by blast
  with compile_healthy [of P M _ _ _ g s] show ?thesis by (auto simp: readiness_None list_all_iff)
qed

section \<open>Properties\<close>

text \<open>
  C18: Whatever sequence of configurations is activated, accepted or rejected, the active
  configuration afterwards is the last accepted one, or the one active before when none was
  accepted: a rejected reload never disturbs traffic.
\<close>

theorem activation_keeps_last_good:
  "active_config (fold (\<lambda>c mg. snd (Activate P M c mg)) cs mg) =
     (case filter (accepts_config P M (mg_environment mg) (mg_allow_no_routes mg)) (rev cs) of
        [] \<Rightarrow> active_config mg
      | c # _ \<Rightarrow> Some c)"
  by (rule act.active_fold) simp

text \<open>
  C20: \<open>Activate\<close> succeeds exactly when \<open>Validate\<close> accepts the configuration and the mux
  accepts all its patterns in order; no other step of compiling can fail, because everything the
  compiler assumes (parsable upstreams and proxies, present policies) is what validation checked.
\<close>

theorem activation_accepts_iff:
  "fst (Activate P M g mg) = None \<longleftrightarrow>
     gateway_validate P g (mg_environment mg) (mg_allow_no_routes mg) = None \<and>
     register M [] (concat (map routePatterns (g_routes g))) \<noteq> None"
  by (simp add: Activate_iff accepts_config_def gateway_validate_iff)

text \<open>
  C21: In every state that a manager reaches from its start by activations and requests, exactly
  the context of the active snapshot is live (none before the first activation), so superseded
  health checkers are told to stop, and a dynamic-DNS worker runs exactly when the active
  configuration enables it, one of them.
\<close>

theorem only_the_active_snapshot_is_live:
  assumes "reach (\<lambda>mg. mg = new_manager environment allow) (manager_step P M E) mg"
  shows "case mg_current mg of
      None \<Rightarrow> mg_live mg = [] \<and> mg_dns mg = []
    | Some s \<Rightarrow> mg_live mg = [sn_id s] \<and> mg_dns mg = (if dd_enabled (g_dynamic_dns (sn_config s)) then [sn_id s] else [])"
  using mgr.reach_inv [OF assms] by (auto simp: manager_inv_def split: option.splits)

definition sample_mux :: mux_lib where
  "sample_mux = \<lparr>mx_conflict = (\<lambda>ps p. p \<in> set ps), mx_match = (\<lambda>ps q. find (\<lambda>p. p = q_method q @ '' '' @ u_path (q_url q)) ps),
     mx_default = (\<lambda>q. write_fault 404 ''not_found'' ''404 page not found'')\<rparr>"

lemma sample_registers: "register sample_mux [] (concat (map routePatterns (g_routes sample_gateway))) \<noteq> None"
  by code_simp

theorem only_the_active_snapshot_is_live_witness:
  "mg_live (snd (Activate sample_parsers sample_mux sample_gateway (new_manager ''production'' False) :: go_error option \<times> unit manager)) = [0]"
proof -
  let ?m = "new_manager ''production'' False :: unit manager"
  have "reach (\<lambda>mg. mg = ?m) (manager_step sample_parsers sample_mux sample_env) ?m" by (rule reach_start) simp
  then have r: "reach (\<lambda>mg. mg = ?m) (manager_step sample_parsers sample_mux sample_env)
      (snd (Activate sample_parsers sample_mux sample_gateway ?m))"
    by (rule reach_step) (rule activation)
  have "accepts_config sample_parsers sample_mux (mg_environment ?m) (mg_allow_no_routes ?m) sample_gateway"
    using sample_gateway_valid sample_registers
    by (simp add: accepts_config_def new_manager_def flip: gateway_validate_iff)
  from Activate_accepted [OF this] obtain s where "mg_current (snd (Activate sample_parsers sample_mux sample_gateway ?m)) = Some s"
    "compile sample_parsers sample_mux (mg_environment ?m) (mg_allow_no_routes ?m) (mg_next ?m) sample_gateway = Inr s" by blast
  with only_the_active_snapshot_is_live [OF r] compile_fields [of sample_parsers sample_mux _ _ _ sample_gateway s]
  show ?thesis by (auto simp: new_manager_def)
qed

text \<open>
  The readiness probe succeeds exactly when a configuration is active and each of its routes
  has a healthy upstream; right after a successful activation it succeeds.
\<close>

lemma readiness_is_exact:
  "(readiness mg = None \<longleftrightarrow> (\<exists>s. mg_current mg = Some s \<and> list_all hasHealthy (snapshot_pools s))) \<and>
   (fst (Activate P M g mg) = None \<longrightarrow> readiness (snd (Activate P M g mg)) = None)"
  by (simp add: readiness_None Activate_ready)

lemma readiness_is_exact_witness:
  "readiness (snd (Activate sample_parsers sample_mux sample_gateway (new_manager ''production'' False) :: go_error option \<times> unit manager)) = None"
proof -
  let ?m = "new_manager ''production'' False :: unit manager"
  have "accepts_config sample_parsers sample_mux (mg_environment ?m) (mg_allow_no_routes ?m) sample_gateway"
    using sample_gateway_valid sample_registers
    by (simp add: accepts_config_def new_manager_def flip: gateway_validate_iff)
  from Activate_accepted [OF this] readiness_is_exact [of ?m sample_parsers sample_mux sample_gateway]
  show ?thesis by auto
qed

text \<open>
  With a CORS list, a cross-origin request is let through to a page's script only from a
  listed origin (or under the wildcard): the handler sets \<open>Access-Control-Allow-Origin\<close> exactly
  then, to that origin and never to a wildcard of its own, answers the preflight itself with 204,
  and leaves every other request untouched for the routes.
\<close>

lemma cors_allows_exactly_listed_origins:
  "case corsHandler origins request w of
     Answered w' \<Rightarrow> q_method request = ''OPTIONS'' \<and> w_code w' = (if w_code w = 0 then 204 else w_code w) \<and>
       header_get (w_header w') ''Access-Control-Allow-Origin'' = header_get (q_header request) ''Origin'' \<and>
       (header_get (q_header request) ''Origin'' \<in> set origins \<or> ''*'' \<in> set origins)
   | Continue w' \<Rightarrow>
       if header_get (q_header request) ''Origin'' \<noteq> [] \<and>
          (header_get (q_header request) ''Origin'' \<in> set origins \<or> ''*'' \<in> set origins)
       then q_method request \<noteq> ''OPTIONS'' \<and> w_code w' = w_code w \<and>
            header_get (w_header w') ''Access-Control-Allow-Origin'' = header_get (q_header request) ''Origin''
       else w' = w"
proof -
  have keys: "canonical_key ''Access-Control-Allow-Origin'' \<noteq> canonical_key ''Access-Control-Allow-Headers''"
    "canonical_key ''Access-Control-Allow-Origin'' \<noteq> canonical_key ''Access-Control-Allow-Methods''"
    "canonical_key ''Access-Control-Allow-Origin'' \<noteq> canonical_key ''Vary''"
    by code_simp+
  have add: "header_get (header_add h ''Vary'' v) ''Access-Control-Allow-Origin'' = header_get h ''Access-Control-Allow-Origin''" for h v
    using keys(3) by (simp add: header_get_def header_add_def)
  show ?thesis
    by (auto simp: corsHandler_def Let_def set_header_def add_header_def write_header_def hdr_simps keys add)
qed

definition negative_interval_route :: routeConfig where
  "negative_interval_route = open_route\<lparr>r_health_path := ''/healthz'', r_health_interval := - second\<rparr>"

text \<open>
  A negative health interval passes validation and is not replaced by the default, so a
  route with a health path starts its checkers with it and \<open>time.NewTicker\<close> panics in their
  goroutines, outside the recovery of \<open>compile\<close>: the activation takes the process down.
\<close>

lemma negative_health_interval_panics:
  "gateway_validate sample_parsers (sample_gateway\<lparr>g_routes := [negative_interval_route]\<rparr>) ''production'' False = None \<and>
   (case compile sample_parsers sample_mux ''production'' False 0 (sample_gateway\<lparr>g_routes := [negative_interval_route]\<rparr>)
      :: go_error + unit routerSnapshot of
      Inl e \<Rightarrow> False | Inr s \<Rightarrow> sn_checkers s = [Panicked])"
  by code_simp

end
