(* ===== verification/Redis_Programs.thy ===== *)
theory Redis_Programs
  imports Router_Manager
begin

text \<open>
  The handlers of the control plane as command trees: a program returns, issues one Redis
  command and continues with the reply, or reads and updates the state of its own process
  (the router manager). A tree keeps the order of the commands, so that handlers of several
  requests and processes can be interleaved command by command.

  The Redis server is a parameter: \<open>rs_exec c cmd\<close> executes a command on connection
  \<open>c\<close>. The ghost views \<open>rs_view\<close> (the key space), \<open>rs_watched\<close> and \<open>rs_dirty\<close> (the
  optimistic lock of a connection) state what the code relies on, in \<open>config_server\<close>: the
  documented behaviour of the commands on keys without expiry and of \<open>WATCH\<close>/\<open>EXEC\<close>,
  including that a command whose reply is an error may have been executed.
\<close>

section \<open>Commands, replies, programs\<close>

datatype redis_cmd =
    GET string | EXISTS string | HGETALL string | SCAN nat string nat | XREVRANGE string string string int | PING
  | SETNX string bytes | SET string bytes duration | GETDEL string | DEL string | UNLINK "string list"
  | HSET string "(string \<times> string) list" | XADD string "(string \<times> string) list" | PUBLISH string string
  | WATCH "string list" | UNWATCH | EXEC "redis_cmd list"

datatype reply = RErr | RNil | ROk | RTxFailed | RBytes bytes | RInt int
  | RHash "(string \<times> string) list" | RScan "string list" nat | RStream "(string \<times> (string \<times> string) list) list"

datatype ('m, 'r) prog =
    Ret 'r
  | Cmd redis_cmd "reply \<Rightarrow> ('m, 'r) prog"
  | Local "'m \<Rightarrow> 'm" "'m \<Rightarrow> ('m, 'r) prog"  \<comment> \<open>update the process state; continue on the state before\<close>

datatype rval = Str bytes | Hash "(string \<times> string) list" | Stream "(string \<times> (string \<times> string) list) list"

record 'w redis_server =
  rs_exec :: "nat \<Rightarrow> redis_cmd \<Rightarrow> 'w \<Rightarrow> reply \<times> 'w"
  rs_view :: "'w \<Rightarrow> string \<Rightarrow> rval option"
  rs_watched :: "'w \<Rightarrow> nat \<Rightarrow> string set"
  rs_dirty :: "'w \<Rightarrow> nat \<Rightarrow> bool"

primrec run :: "'w redis_server \<Rightarrow> nat \<Rightarrow> ('m, 'r) prog \<Rightarrow> 'm \<Rightarrow> 'w \<Rightarrow> 'r \<times> 'm \<times> 'w" where
  "run S c (Ret r) = (\<lambda>m w. (r, m, w))"
| "run S c (Cmd cmd k) = (\<lambda>m w. case rs_exec S c cmd w of (r, w) \<Rightarrow> run S c (k r) m w)"
| "run S c (Local u k) = (\<lambda>m w. run S c (k m) (u m) w)"

text \<open>The keys of the configuration store.\<close>

definition configKeyPrefix :: string where "configKeyPrefix = ''vial-gateway:config:''"
definition activeConfigKey :: string where "activeConfigKey = ''vial-gateway:config:active''"
definition activationTopic :: string where "activationTopic = ''vial-gateway:config:activated''"
definition auditKey :: string where "auditKey = ''vial-gateway:audit''"
definition sessionKeyPrefix :: string where "sessionKeyPrefix = ''vial-gateway:session:''"
definition cachePrefix :: string where "cachePrefix = ''vial-gateway:cache:''"

definition configKey :: "int \<Rightarrow> string" where
  "configKey version = configKeyPrefix @ format_int version"

section \<open>What the code relies on\<close>

definition is_config_key :: "string \<Rightarrow> bool" where
  "is_config_key k \<longleftrightarrow> has_prefix k configKeyPrefix"

fun hash_of :: "rval option \<Rightarrow> (string \<times> string) list" where
  "hash_of (Some (Hash h)) = h"
| "hash_of _ = []"

definition merge_fields :: "(string \<times> string) list \<Rightarrow> (string \<times> string) list \<Rightarrow> (string \<times> string) list" where
  "merge_fields h fs = fold (\<lambda>(f, v). AList.update f v) fs h"

text \<open>The effect of a command on the keys of the configuration store, when it is executed.\<close>

fun effect :: "redis_cmd \<Rightarrow> (string \<Rightarrow> rval option) \<Rightarrow> string \<Rightarrow> rval option" where
  "effect (SETNX k v) s = (if s k = None then s(k \<mapsto> Str v) else s)"
| "effect (SET k v d) s = s(k \<mapsto> Str v)"
| "effect (GETDEL k) s = s(k := None)"
| "effect (DEL k) s = s(k := None)"
| "effect (UNLINK ks) s = (\<lambda>k. if k \<in> set ks then None else s k)"
| "effect (HSET k fs) s = s(k \<mapsto> Hash (merge_fields (hash_of (s k)) fs))"
| "effect (XADD k fs) s = s(k \<mapsto> Stream [])"
| "effect (EXEC cs) s = fold effect cs s"
| "effect _ s = s"
  \<comment> \<open>streams are not keys of the store: only that the key is written matters\<close>

definition glob_free :: "char \<Rightarrow> bool" where
  "glob_free c \<longleftrightarrow> c \<noteq> CHR ''*'' \<and> c \<noteq> CHR ''?'' \<and> c \<noteq> CHR ''['' \<and> c \<noteq> CHR 0x5C"

fun reply_ok :: "redis_cmd \<Rightarrow> reply \<Rightarrow> bool" where
  "reply_ok (SCAN cursor pat n) (RScan ks nx) \<longleftrightarrow> (\<forall>k \<in> set ks. has_prefix k (takeWhile glob_free pat))"
| "reply_ok _ _ \<longleftrightarrow> True"
  \<comment> \<open>\<open>SCAN\<close> with \<open>MATCH\<close> returns keys that start with the literal head of the pattern\<close>

definition read_true :: "(string \<Rightarrow> rval option) \<Rightarrow> redis_cmd \<Rightarrow> reply \<Rightarrow> bool" where
  "read_true s cmd r \<longleftrightarrow> (case cmd of
      GET k \<Rightarrow> is_config_key k \<longrightarrow> (r = RNil \<longrightarrow> s k = None) \<and> (\<forall>v. r = RBytes v \<longrightarrow> s k = Some (Str v))
    | EXISTS k \<Rightarrow> is_config_key k \<longrightarrow> (\<forall>n. r = RInt n \<longrightarrow> n \<noteq> 0 \<longrightarrow> s k \<noteq> None)
    | _ \<Rightarrow> True)"

definition ends_watch :: "redis_cmd \<Rightarrow> bool" where
  "ends_watch cmd \<longleftrightarrow> (case cmd of UNWATCH \<Rightarrow> True | EXEC _ \<Rightarrow> True | _ \<Rightarrow> False)"

definition same_config :: "(string \<Rightarrow> rval option) \<Rightarrow> (string \<Rightarrow> rval option) \<Rightarrow> bool" where
  "same_config s t \<longleftrightarrow> (\<forall>k. is_config_key k \<longrightarrow> s k = t k)"

text \<open>
  One executed command: what it reads is true; either the store keeps its configuration keys or
  the command has its effect on them, an \<open>EXEC\<close> only while the lock of its connection is clean;
  a \<open>WATCH\<close> takes the keys into the lock; a lock that is clean afterwards was clean before, and
  none of its keys has changed.
\<close>

definition exec_ok :: "'w redis_server \<Rightarrow> nat \<Rightarrow> redis_cmd \<Rightarrow> 'w \<Rightarrow> reply \<Rightarrow> 'w \<Rightarrow> bool" where
  "exec_ok S c cmd w r w' \<longleftrightarrow>
     reply_ok cmd r \<and> read_true (rs_view S w) cmd r \<and>
     (same_config (rs_view S w') (rs_view S w) \<and> (r = RErr \<or> r = RTxFailed) \<or>
      same_config (rs_view S w') (effect cmd (rs_view S w)) \<and> (\<forall>cs. cmd = EXEC cs \<longrightarrow> \<not> rs_dirty S w c)) \<and>
     (\<forall>ks. cmd = WATCH ks \<longrightarrow> r \<noteq> RErr \<longrightarrow> set ks \<subseteq> rs_watched S w' c) \<and>
     (\<forall>d. (d \<noteq> c \<or> \<not> ends_watch cmd) \<longrightarrow> \<not> rs_dirty S w' d \<longrightarrow>
        \<not> rs_dirty S w d \<and> rs_watched S w d \<subseteq> rs_watched S w' d \<and>
        (\<forall>k \<in> rs_watched S w d. is_config_key k \<longrightarrow> rs_view S w' k = rs_view S w k))"

definition config_server :: "'w redis_server \<Rightarrow> bool" where
  "config_server S \<longleftrightarrow> (\<forall>c cmd w r w'. rs_exec S c cmd w = (r, w') \<longrightarrow> exec_ok S c cmd w r w')"

section \<open>Interleaving\<close>

text \<open>
  Connection \<open>c\<close> runs the program \<open>sy_thread s c\<close>; a step executes one command of one of
  them, or lets one continue on whatever state its process has, or starts a new handler on an
  idle connection.
\<close>

record ('m, 'r, 'w) system =
  sy_thread :: "nat \<Rightarrow> ('m, 'r) prog"
  sy_world :: 'w

inductive sys_step :: "'w redis_server \<Rightarrow> (('m, 'r) prog \<Rightarrow> bool) \<Rightarrow> ('m, 'r, 'w) system \<Rightarrow> ('m, 'r, 'w) system \<Rightarrow> bool"
  for S handler where
  command: "sy_thread s c = Cmd cmd k \<Longrightarrow> rs_exec S c cmd (sy_world s) = (r, w') \<Longrightarrow>
     sys_step S handler s (s\<lparr>sy_thread := (sy_thread s)(c := k r), sy_world := w'\<rparr>)"
| local: "sy_thread s c = Local u k \<Longrightarrow>
     sys_step S handler s (s\<lparr>sy_thread := (sy_thread s)(c := k m)\<rparr>)"
| spawn: "sy_thread s c = Ret r \<Longrightarrow> handler p \<Longrightarrow>
     sys_step S handler s (s\<lparr>sy_thread := (sy_thread s)(c := p)\<rparr>)"

section \<open>Programs that keep the store consistent\<close>

text \<open>
  What a connection knows of the store since its \<open>WATCH\<close>: the keys it watches, the keys it saw
  existing, and the value of the active pointer it saw. The knowledge is true as long as the
  lock is clean.
\<close>

record knowledge =
  kn_watch :: "string set"
  kn_exists :: "string set"
  kn_active :: "bytes option option"

definition ignorant :: knowledge where
  "ignorant = \<lparr>kn_watch = {}, kn_exists = {}, kn_active = None\<rparr>"

definition learn :: "redis_cmd \<Rightarrow> reply \<Rightarrow> knowledge \<Rightarrow> knowledge" where
  "learn cmd r K = (case cmd of
      WATCH ks \<Rightarrow> if r = RErr then K else K\<lparr>kn_watch := kn_watch K \<union> set ks\<rparr>
    | UNWATCH \<Rightarrow> ignorant
    | EXEC cs \<Rightarrow> ignorant
    | GET k \<Rightarrow> if k = activeConfigKey \<and> k \<in> kn_watch K
        then (case r of RNil \<Rightarrow> K\<lparr>kn_active := Some None\<rparr> | RBytes v \<Rightarrow> K\<lparr>kn_active := Some (Some v)\<rparr> | _ \<Rightarrow> K) else K
    | EXISTS k \<Rightarrow> if k \<in> kn_watch K \<and> is_config_key k
        then (case r of RInt n \<Rightarrow> if n \<noteq> 0 then K\<lparr>kn_exists := insert k (kn_exists K)\<rparr> else K | _ \<Rightarrow> K) else K
    | _ \<Rightarrow> K)"

definition writes_key :: "redis_cmd \<Rightarrow> string \<Rightarrow> bool" where
  "writes_key cmd k \<longleftrightarrow> (case cmd of
      SETNX j v \<Rightarrow> j = k | SET j v d \<Rightarrow> j = k | GETDEL j \<Rightarrow> j = k | DEL j \<Rightarrow> j = k | UNLINK js \<Rightarrow> k \<in> set js
    | HSET j fs \<Rightarrow> j = k | XADD j fs \<Rightarrow> j = k | EXEC cs \<Rightarrow> True | _ \<Rightarrow> False)"

text \<open>
  A command is allowed when it cannot break the store: it writes no configuration key, or adds
  one that is missing, or is one of the two transactions of the control plane, each with the
  knowledge that makes it safe.
\<close>

definition allowed :: "redis_cmd \<Rightarrow> knowledge \<Rightarrow> bool" where
  "allowed cmd K \<longleftrightarrow>
     (\<forall>k. is_config_key k \<longrightarrow> \<not> writes_key cmd k) \<or>
     (\<exists>n v. cmd = SETNX (configKey n) v) \<or>
     (\<exists>v. cmd = SETNX activeConfigKey v) \<or>
     (\<exists>n a. cmd = EXEC [DEL (configKey n)] \<and> kn_active K = Some a \<and> a \<noteq> Some (format_int n) \<and> in_int64 n) \<or>
     (\<exists>n t. cmd = EXEC [SET activeConfigKey (format_int n) 0, PUBLISH t (format_int n)] \<and> in_int64 n \<and>
        configKey n \<in> kn_exists K \<and> kn_active K \<noteq> None)"

primrec safe :: "('m, 'r) prog \<Rightarrow> knowledge \<Rightarrow> bool" where
  "safe (Ret r) = (\<lambda>K. True)"
| "safe (Cmd cmd k) = (\<lambda>K. allowed cmd K \<and> (\<forall>r. reply_ok cmd r \<longrightarrow> safe (k r) (learn cmd r K)))"
| "safe (Local u k) = (\<lambda>K. \<forall>m. safe (k m) K)"

section \<open>The invariant\<close>

definition store_ok :: "(string \<Rightarrow> rval option) \<Rightarrow> bool" where
  "store_ok s \<longleftrightarrow> (\<exists>n. in_int64 n \<and> s activeConfigKey = Some (Str (format_int n)) \<and> s (configKey n) \<noteq> None)"

definition knows :: "'w redis_server \<Rightarrow> 'w \<Rightarrow> nat \<Rightarrow> knowledge \<Rightarrow> bool" where
  "knows S w c K \<longleftrightarrow> (\<not> rs_dirty S w c \<longrightarrow>
     kn_watch K \<subseteq> rs_watched S w c \<and>
     (\<forall>k \<in> kn_exists K. k \<in> kn_watch K \<and> is_config_key k \<and> rs_view S w k \<noteq> None) \<and>
     (\<forall>a. kn_active K = Some a \<longrightarrow> activeConfigKey \<in> kn_watch K \<and> rs_view S w activeConfigKey = map_option Str a))"

definition system_inv :: "'w redis_server \<Rightarrow> ('m, 'r, 'w) system \<Rightarrow> bool" where
  "system_inv S s \<longleftrightarrow> config_server S \<and> store_ok (rs_view S (sy_world s)) \<and>
     (\<forall>c. \<exists>K. safe (sy_thread s c) K \<and> knows S (sy_world s) c K)"

lemma config_key_configKey [simp]: "is_config_key (configKey n)"
  by (simp add: is_config_key_def configKey_def)

lemma config_key_active [simp]: "is_config_key activeConfigKey"
  by code_simp

lemma configKey_not_active [simp]: "configKey n \<noteq> activeConfigKey" "activeConfigKey \<noteq> configKey n"
proof -
  have a: "activeConfigKey = configKeyPrefix @ ''active''" by code_simp
  have "format_int n \<noteq> ''active''"
    using format_nat_hd [of "nat n"] by (auto simp: format_int_def is_digit_def)
  then show "configKey n \<noteq> activeConfigKey" "activeConfigKey \<noteq> configKey n"
    by (auto simp: configKey_def a)
qed

lemma configKey_inj: "in_int64 m \<Longrightarrow> in_int64 n \<Longrightarrow> configKey m = configKey n \<longleftrightarrow> m = n"
  by (auto simp: configKey_def dest: format_int_inj)

lemma knows_ignorant [simp]: "knows S w c ignorant"
  by (simp add: knows_def ignorant_def)

lemma effect_unwritten:
  assumes "\<not> writes_key cmd k"
  shows "effect cmd s k = s k"
  using assms by (cases cmd) (auto simp: writes_key_def)

lemma store_ok_cong: "same_config s t \<Longrightarrow> store_ok s \<longleftrightarrow> store_ok t"
  by (simp add: store_ok_def same_config_def)

lemma store_ok_effect:
  assumes ok: "store_ok (rs_view S w)" and all: "allowed cmd K" and kn: "knows S w c K"
    and clean: "\<forall>cs. cmd = EXEC cs \<longrightarrow> \<not> rs_dirty S w c"
  shows "store_ok (effect cmd (rs_view S w))"
proof -
  let ?s = "rs_view S w"
  from ok obtain n0 where n0: "in_int64 n0" "?s activeConfigKey = Some (Str (format_int n0))" "?s (configKey n0) \<noteq> None"
    by (auto simp: store_ok_def)
  from all consider (none) "\<forall>k. is_config_key k \<longrightarrow> \<not> writes_key cmd k"
    | (create) n v where "cmd = SETNX (configKey n) v"
    | (start) v where "cmd = SETNX activeConfigKey v"
    | (delete) n a where "cmd = EXEC [DEL (configKey n)]" "kn_active K = Some a" "a \<noteq> Some (format_int n)" "in_int64 n"
    | (activate) n t where "cmd = EXEC [SET activeConfigKey (format_int n) 0, PUBLISH t (format_int n)]" "in_int64 n"
        "configKey n \<in> kn_exists K"
    unfolding allowed_def by blast
  then show ?thesis
  proof cases
    case none
    then have "same_config (effect cmd ?s) ?s" by (simp add: same_config_def effect_unwritten)
    with ok show ?thesis by (simp add: store_ok_cong)
  next
    case create
    with n0 show ?thesis by (auto simp: store_ok_def)
  next
    case start
    with n0 show ?thesis by (auto simp: store_ok_def)
  next
    case delete
    with clean kn have "?s activeConfigKey = map_option Str a" by (simp add: knows_def)
    with n0 delete have "n0 \<noteq> n" by auto
    with n0 delete show ?thesis unfolding store_ok_def
      by (intro exI [where x = n0]) (auto simp: configKey_inj)
  next
    case activate
    with clean kn have "?s (configKey n) \<noteq> None" by (auto simp: knows_def)
    with activate show ?thesis by (auto simp: store_ok_def)
  qed
qed

lemma knows_other:
  assumes "exec_ok S c cmd w r w'" and "d \<noteq> c \<or> \<not> ends_watch cmd" and "knows S w d K"
  shows "knows S w' d K"
  using assms unfolding exec_ok_def knows_def
  by (metis (no_types, lifting) config_key_active in_mono subset_trans)

lemma knows_learn:
  assumes ex: "exec_ok S c cmd w r w'" and kn: "knows S w c K"
  shows "knows S w' c (learn cmd r K)"
proof (cases "ends_watch cmd")
  case True
  then have "learn cmd r K = ignorant" by (simp add: ends_watch_def learn_def split: redis_cmd.splits)
  then show ?thesis by simp
next
  case False
  then have kn': "knows S w' c K" using knows_other [OF ex] kn by blast
  have view: "rs_view S w' k = rs_view S w k" if "\<not> rs_dirty S w' c" "k \<in> kn_watch K" "is_config_key k" for k
    using ex False kn that unfolding exec_ok_def knows_def by blast
  have rd: "read_true (rs_view S w) cmd r" using ex by (simp add: exec_ok_def)
  show ?thesis
  proof (cases cmd)
    case (WATCH ks)
    with ex have "r \<noteq> RErr \<longrightarrow> set ks \<subseteq> rs_watched S w' c" by (simp add: exec_ok_def)
    with WATCH kn' show ?thesis by (auto simp: learn_def knows_def)
  next
    case (GET k)
    with kn' rd view [of activeConfigKey] show ?thesis
      by (auto simp: learn_def knows_def read_true_def split: reply.splits)
  next
    case (EXISTS k)
    with kn' rd view [of k] show ?thesis
      by (auto simp: learn_def knows_def read_true_def split: reply.splits)
  qed (use kn' in \<open>simp_all add: learn_def ends_watch_def\<close>)
qed

lemma system_inv_step:
  assumes inv: "system_inv S s" and step: "sys_step S handler s t"
    and handlers: "\<And>p. handler p \<Longrightarrow> safe p ignorant"
  shows "system_inv S t"
  using step
proof cases
  case (command c cmd k r w')
  from inv have S: "config_server S" by (simp add: system_inv_def)
  then have ex: "exec_ok S c cmd (sy_world s) r w'" using command(3) by (simp add: config_server_def)
  from inv command(2) obtain K where K: "allowed cmd K" "\<forall>r. reply_ok cmd r \<longrightarrow> safe (k r) (learn cmd r K)"
    "knows S (sy_world s) c K" by (auto simp: system_inv_def) (metis safe.simps(2))
  have "store_ok (rs_view S w')"
    using ex inv store_ok_effect [OF _ K(1,3)] store_ok_cong unfolding exec_ok_def system_inv_def by metis
  moreover have "\<exists>K. safe (((sy_thread s)(c := k r)) d) K \<and> knows S w' d K" for d
  proof (cases "d = c")
    case True
    with K ex knows_learn [OF ex K(3)] show ?thesis by (auto simp: exec_ok_def)
  next
    case False
    with inv knows_other [OF ex] show ?thesis by (auto simp: system_inv_def) blast
  qed
  ultimately show ?thesis using S command(1) by (simp add: system_inv_def)
next
  case (local c u k m)
  have "\<exists>K. safe (((sy_thread s)(c := k m)) d) K \<and> knows S (sy_world s) d K" for d
    using inv local(2) unfolding system_inv_def by (cases "d = c") (auto, metis safe.simps(3))
  with inv local(1) show ?thesis by (simp add: system_inv_def)
next
  case (spawn c r p)
  have "\<exists>K. safe (((sy_thread s)(c := p)) d) K \<and> knows S (sy_world s) d K" for d
    using inv handlers [OF spawn(3)] knows_ignorant unfolding system_inv_def by (cases "d = c") auto
  with inv spawn(1) show ?thesis by (simp add: system_inv_def)
qed

text \<open>
  One command never changes the content of a stored version: it stays, or the version is gone.
\<close>

lemma version_immutable_effect:
  assumes "allowed cmd K" and "s (configKey n) = Some x" and "effect cmd s (configKey n) = Some y"
  shows "x = y"
  using assms unfolding allowed_def
  by (elim disjE exE conjE) (auto simp: effect_unwritten split: if_splits)

lemma version_immutable_step:
  assumes inv: "system_inv S s" and step: "sys_step S handler s t"
    and "rs_view S (sy_world s) (configKey n) = Some x" and "rs_view S (sy_world t) (configKey n) = Some y"
  shows "x = y"
  using step
proof cases
  case (command c cmd k r w')
  from inv have "exec_ok S c cmd (sy_world s) r w'"
    using command(3) by (simp add: system_inv_def config_server_def)
  then have "rs_view S w' (configKey n) = rs_view S (sy_world s) (configKey n) \<or>
      rs_view S w' (configKey n) = effect cmd (rs_view S (sy_world s)) (configKey n)"
    unfolding exec_ok_def same_config_def using config_key_configKey by blast
  moreover obtain K where "allowed cmd K"
    using inv command(2) by (auto simp: system_inv_def) (metis safe.simps(2))
  ultimately show ?thesis
    using version_immutable_effect [of cmd K "rs_view S (sy_world s)" n x y] assms(3,4) command(1) by auto
qed (use assms(3,4) in auto)

end
