(* ===== verification/Control_Plane.thy ===== *)
theory Control_Plane
  imports Redis_Programs
begin

text \<open>
  The control plane of \<open>control.go\<close>: administrator authentication and the \<open>protect\<close> wrapper,
  the configuration store (\<open>validateConfig\<close>, \<open>createConfig\<close>, \<open>listConfigs\<close>,
  \<open>deleteConfig\<close>, \<open>activateConfig\<close>), dynamic API keys and cache invalidation, with
  \<open>Start\<close> and the \<open>load\<close> function of \<open>watch\<close>. Every handler is a command tree over the
  router manager of its process that ends with the written response.

  Parameters: the JSON decoders and encoders, the cookie and form parsers of \<open>net/http\<close>, the
  router libraries, SHA-256. Random tokens and times are arguments: \<open>None\<close> is a failed
  \<open>rand.Read\<close>. The loops over \<open>SCAN\<close> end when the server returns cursor 0, which it does not
  promise within any bound; they take fuel and return \<open>None\<close> when it runs out.
\<close>

section \<open>State and parameters\<close>

record adminSession =
  as_subject :: string
  as_scopes :: "string list"
  as_csrf :: string
  as_state :: string
  as_verifier :: string

record adminIdentity =
  ai_subject :: string
  ai_csrf :: string
  ai_session :: bool

record createAPIKeyRequest =
  ck_name :: string
  ck_scopes :: "string list"

record control_lib =
  cl_parsers :: parsers
  cl_mux :: mux_lib
  cl_sha :: "bytes \<Rightarrow> bytes"
  cl_decode :: "reader \<Rightarrow> string + GatewayConfig"   \<comment> \<open>decode, unknown fields disallowed\<close>
  cl_marshal :: "GatewayConfig \<Rightarrow> bytes"
  cl_unmarshal :: "bytes \<Rightarrow> GatewayConfig option"
  cl_decode_key :: "reader \<Rightarrow> string + createAPIKeyRequest"
  cl_decode_route :: "reader \<Rightarrow> string + string"      \<comment> \<open>\<open>cacheInvalidationRequest\<close>\<close>
  cl_session :: "adminSession \<Rightarrow> bytes"
  cl_unsession :: "bytes \<Rightarrow> adminSession option"
  cl_cookie :: "http_request \<Rightarrow> string option"       \<comment> \<open>\<open>request.Cookie(adminCookie)\<close>\<close>
  cl_form :: "http_request \<Rightarrow> string \<Rightarrow> string"      \<comment> \<open>\<open>request.FormValue\<close>\<close>

type_synonym ('k, 'r) handler_prog = "('k manager, 'r) prog"

definition fault :: "int \<Rightarrow> string \<Rightarrow> string \<Rightarrow> ('m, writer) prog" where
  "fault status code msg = Ret (write_fault status code msg new_writer)"

definition json_answer :: "int \<Rightarrow> (string \<times> json) list \<Rightarrow> ('m, writer) prog" where
  "json_answer status fs = Ret (write_json status (JObj fs) new_writer)"

definition unavailable :: "('m, writer) prog" where
  "unavailable = fault 503 ''control_unavailable'' ''Redis is unavailable''"

text \<open>Sequencing of programs.\<close>

primrec bind :: "('m, 'a) prog \<Rightarrow> ('a \<Rightarrow> ('m, 'b) prog) \<Rightarrow> ('m, 'b) prog" where
  "bind (Ret r) f = f r"
| "bind (Cmd c k) f = Cmd c (\<lambda>r. bind (k r) f)"
| "bind (Local u k) f = Local u (\<lambda>m. bind (k m) f)"

definition lift :: "('m, writer) prog \<Rightarrow> ('m, writer option) prog" where
  "lift p = bind p (\<lambda>w. Ret (Some w))"
  \<comment> \<open>a handler without a loop always writes its response\<close>

definition request_reader :: "http_request \<Rightarrow> reader" where
  "request_reader request = max_bytes_reader
     (case q_body request of None \<Rightarrow> \<lparr>rd_data = [], rd_err = None\<rparr> | Some rd \<Rightarrow> rd) (2 * 2 ^ 20)"

definition decodeJSON :: "(reader \<Rightarrow> string + 'a) \<Rightarrow> http_request \<Rightarrow> ('a \<Rightarrow> ('m, writer) prog) \<Rightarrow> ('m, writer) prog" where
  "decodeJSON decode request k = (case decode (request_reader request) of
      Inl err \<Rightarrow> fault 400 ''invalid_json'' err
    | Inr v \<Rightarrow> k v)"

definition audit :: "string \<Rightarrow> string \<Rightarrow> string \<Rightarrow> string \<Rightarrow> ('m, 'r) prog \<Rightarrow> ('m, 'r) prog" where
  "audit now actor action target k =
     Cmd (XADD auditKey [(''at'', now), (''actor'', actor), (''action'', action), (''target'', target)]) (\<lambda>_. k)"

section \<open>Authentication and protection\<close>

definition admin_secret :: "http_request \<Rightarrow> string" where
  "admin_secret request =
     (let secret = header_get (q_header request) ''X-API-Key'' in
      if secret = [] then
        (let value = header_get (q_header request) ''Authorization'' in
         if has_prefix value ''Bearer '' then trim_space (trim_prefix value ''Bearer '') else [])
      else secret)"

definition admin_key_record :: "(string \<times> string) list \<Rightarrow> bool" where
  "admin_key_record record \<longleftrightarrow> lookup_or [] record ''revoked'' \<noteq> ''1'' \<and>
     ''gateway.admin'' \<in> scope_set (splitSpace (lookup_or [] record ''scopes''))"

definition session_auth :: "control_lib \<Rightarrow> http_request \<Rightarrow> (adminIdentity option \<Rightarrow> ('m, 'r) prog) \<Rightarrow> ('m, 'r) prog" where
  "session_auth L request k = (case cl_cookie L request of
      None \<Rightarrow> k None
    | Some cookie \<Rightarrow> Cmd (GET (sessionKeyPrefix @ cookie)) (\<lambda>r. case r of
          RBytes data \<Rightarrow> (case cl_unsession L data of
              None \<Rightarrow> k None
            | Some session \<Rightarrow>
                if ''gateway.admin'' \<notin> scope_set (as_scopes session) then k None
                else k (Some \<lparr>ai_subject = as_subject session, ai_csrf = as_csrf session, ai_session = True\<rparr>))
        | _ \<Rightarrow> k None))"

definition admin_authenticate :: "control_lib \<Rightarrow> adminConfig \<Rightarrow> http_request \<Rightarrow> (adminIdentity option \<Rightarrow> ('m, 'r) prog) \<Rightarrow> ('m, 'r) prog" where
  "admin_authenticate L config request k =
     (let secret = admin_secret request; hash = cl_sha L secret in
      if secret = [] then session_auth L request k
      else if hash_bytes (ad_bootstrap_key_sha config) = Some hash
      then k (Some \<lparr>ai_subject = ''bootstrap'', ai_csrf = [], ai_session = False\<rparr>)
      else Cmd (HGETALL (api_key_redis_key (hex_encode hash))) (\<lambda>r. case r of
          RHash record \<Rightarrow>
            if admin_key_record record
            then k (Some \<lparr>ai_subject = lookup_or [] record ''name'', ai_csrf = [], ai_session = False\<rparr>)
            else session_auth L request k
        | _ \<Rightarrow> session_auth L request k))"

definition csrf_ok :: "control_lib \<Rightarrow> adminIdentity \<Rightarrow> http_request \<Rightarrow> bool" where
  "csrf_ok L identity request \<longleftrightarrow>
     (ai_session identity \<and> q_method request \<noteq> ''GET'' \<and> q_method request \<noteq> ''HEAD'' \<longrightarrow>
      (let token = header_get (q_header request) ''X-CSRF-Token'';
           token = (if token = [] then cl_form L request ''csrf'' else token)
       in token = ai_csrf identity))"

definition redirect :: "string \<Rightarrow> writer \<Rightarrow> writer" where
  "redirect location w = write_header 302 (set_header ''Location'' location w)"
  \<comment> \<open>\<open>http.Redirect\<close> with status found; its HTML body is left out\<close>

definition protect :: "control_lib \<Rightarrow> adminConfig \<Rightarrow> (http_request \<Rightarrow> adminIdentity \<Rightarrow> ('m, writer option) prog)
    \<Rightarrow> http_request \<Rightarrow> ('m, writer option) prog" where
  "protect L config handler request = admin_authenticate L config request (\<lambda>identity. case identity of
      None \<Rightarrow> if u_path (q_url request) = ''/admin'' \<and> ad_oidc_issuer config \<noteq> []
              then Ret (Some (redirect ''/admin/login'' new_writer))
              else lift (fault 401 ''admin_unauthorized'' ''gateway.admin scope is required'')
    | Some identity \<Rightarrow>
        if \<not> csrf_ok L identity request then lift (fault 403 ''csrf_failed'' ''A valid CSRF token is required'')
        else handler request identity)"

section \<open>The configuration store\<close>

definition manager_Validate :: "control_lib \<Rightarrow> 'k manager \<Rightarrow> GatewayConfig \<Rightarrow> go_error option" where
  "manager_Validate L mg configuration =
     (case compile (cl_parsers L) (cl_mux L) (mg_environment mg) (mg_allow_no_routes mg) (mg_next mg) configuration
        :: go_error + 'k routerSnapshot of
        Inl e \<Rightarrow> Some e | Inr s \<Rightarrow> None)"
  \<comment> \<open>the snapshot is cancelled at once\<close>

definition validateGatewayConfig :: "control_lib \<Rightarrow> 'k manager \<Rightarrow> GatewayConfig \<Rightarrow> go_error option" where
  "validateGatewayConfig L mg configuration =
     (case gateway_validate (cl_parsers L) configuration (mg_environment mg) False of
        Some e \<Rightarrow> Some e
      | None \<Rightarrow> manager_Validate L mg configuration)"

definition invalid_config :: "go_error \<Rightarrow> ('m, writer) prog" where
  "invalid_config e = fault 422 ''invalid_config'' (error_text e)"

definition validateConfig :: "control_lib \<Rightarrow> http_request \<Rightarrow> adminIdentity \<Rightarrow> ('k, writer) handler_prog" where
  "validateConfig L request identity = decodeJSON (cl_decode L) request (\<lambda>configuration.
     Local id (\<lambda>mg. case validateGatewayConfig L mg configuration of
         Some e \<Rightarrow> invalid_config e
       | None \<Rightarrow> json_answer 200 [(''valid'', JBool True), (''version'', JNum (format_int (g_version configuration)))]))"

definition createConfig :: "control_lib \<Rightarrow> string \<Rightarrow> http_request \<Rightarrow> adminIdentity \<Rightarrow> ('k, writer) handler_prog" where
  "createConfig L now request identity = decodeJSON (cl_decode L) request (\<lambda>configuration.
     Local id (\<lambda>mg. case validateGatewayConfig L mg configuration of
         Some e \<Rightarrow> invalid_config e
       | None \<Rightarrow> Cmd (SETNX (configKey (g_version configuration)) (cl_marshal L configuration)) (\<lambda>r. case r of
             RInt n \<Rightarrow>
               if n = 0 then fault 409 ''version_exists'' ''Configuration versions are immutable''
               else audit now (ai_subject identity) ''config.create'' (format_int (g_version configuration))
                 (json_answer 201 [(''version'', JNum (format_int (g_version configuration)))])
           | _ \<Rightarrow> unavailable)))"

datatype tx_result = TxDone | TxActive | TxNotFound | TxConflict bytes | TxFailed | TxUnavailable

definition close_tx :: "(tx_result \<Rightarrow> ('m, 'r) prog) \<Rightarrow> tx_result \<Rightarrow> ('m, 'r) prog" where
  "close_tx k res = Cmd UNWATCH (\<lambda>_. k res)"
  \<comment> \<open>\<open>redis.Client.Watch\<close> unwatches when its function returns\<close>

definition exec_result :: "reply \<Rightarrow> tx_result" where
  "exec_result r = (case r of ROk \<Rightarrow> TxDone | RTxFailed \<Rightarrow> TxFailed | _ \<Rightarrow> TxUnavailable)"

definition get_reply :: "reply \<Rightarrow> bytes option option" where
  "get_reply r = (case r of RNil \<Rightarrow> Some None | RBytes v \<Rightarrow> Some (Some v) | _ \<Rightarrow> None)"
  \<comment> \<open>\<open>Some None\<close> is \<open>redis.Nil\<close>, \<open>None\<close> any other error\<close>

definition delete_tx :: "int \<Rightarrow> (tx_result \<Rightarrow> ('m, 'r) prog) \<Rightarrow> ('m, 'r) prog" where
  "delete_tx version k = Cmd (WATCH [activeConfigKey, configKey version]) (\<lambda>r.
     if r = RErr then close_tx k TxUnavailable
     else Cmd (GET activeConfigKey) (\<lambda>r. case get_reply r of
         None \<Rightarrow> close_tx k TxUnavailable
       | Some active \<Rightarrow>
           if active = Some (format_int version) then close_tx k TxActive
           else Cmd (EXISTS (configKey version)) (\<lambda>r. case r of
               RInt n \<Rightarrow> if n = 0 then close_tx k TxNotFound
                         else Cmd (EXEC [DEL (configKey version)]) (\<lambda>r. close_tx k (exec_result r))
             | _ \<Rightarrow> close_tx k TxUnavailable)))"

definition positive_version :: "string \<Rightarrow> int option" where
  "positive_version text = (case parse_int64 text of None \<Rightarrow> None | Some v \<Rightarrow> if v < 1 then None else Some v)"

definition deleteConfig :: "string \<Rightarrow> string \<Rightarrow> http_request \<Rightarrow> adminIdentity \<Rightarrow> ('k, writer) handler_prog" where
  "deleteConfig now path_version request identity = (case positive_version path_version of
      None \<Rightarrow> fault 400 ''invalid_version'' ''A positive version is required''
    | Some version \<Rightarrow> delete_tx version (\<lambda>res. case res of
          TxDone \<Rightarrow> audit now (ai_subject identity) ''config.delete'' (format_int version)
            (json_answer 200 [(''deleted'', JBool True), (''version'', JNum (format_int version))])
        | TxActive \<Rightarrow> fault 409 ''config_active'' ''active configuration cannot be deleted''
        | TxNotFound \<Rightarrow> fault 404 ''version_not_found'' ''configuration version does not exist''
        | TxFailed \<Rightarrow> fault 409 ''version_conflict'' ''Configuration state changed; retry the request''
        | _ \<Rightarrow> unavailable))"

definition activate_tx :: "int \<Rightarrow> string \<Rightarrow> (tx_result \<Rightarrow> ('m, 'r) prog) \<Rightarrow> ('m, 'r) prog" where
  "activate_tx version expected k = Cmd (WATCH [activeConfigKey, configKey version]) (\<lambda>r.
     if r = RErr then close_tx k TxUnavailable
     else Cmd (GET activeConfigKey) (\<lambda>r. case get_reply r of
         None \<Rightarrow> close_tx k TxUnavailable
       | Some active \<Rightarrow>
           (let current = (case active of Some v \<Rightarrow> v | None \<Rightarrow> []) in
            if current \<noteq> expected then close_tx k (TxConflict current)
            else Cmd (EXISTS (configKey version)) (\<lambda>r. case r of
                RInt n \<Rightarrow> if n = 0 then close_tx k TxNotFound
                          else Cmd (EXEC [SET activeConfigKey (format_int version) 0,
                                          PUBLISH activationTopic (format_int version)]) (\<lambda>r. close_tx k (exec_result r))
              | _ \<Rightarrow> close_tx k TxUnavailable))))"

definition is_quote :: "char \<Rightarrow> bool" where
  "is_quote c \<longleftrightarrow> c = CHR 0x22"

definition if_match :: "http_request \<Rightarrow> string" where
  "if_match request = trim_func is_quote (header_get (q_header request) ''If-Match'')"

definition activate_local :: "control_lib \<Rightarrow> GatewayConfig \<Rightarrow> int \<Rightarrow> ('k, writer) handler_prog \<Rightarrow> ('k, writer) handler_prog" where
  "activate_local L configuration version k =
     Local (\<lambda>mg. snd (Activate (cl_parsers L) (cl_mux L) configuration mg)) (\<lambda>mg.
       case fst (Activate (cl_parsers L) (cl_mux L) configuration mg) of
         Some e \<Rightarrow> invalid_config e
       | None \<Rightarrow> Local (\<lambda>mg. mg\<lparr>mg_redis_version := version\<rparr>) (\<lambda>_. k))"

definition activation_answer :: "control_lib \<Rightarrow> string \<Rightarrow> string \<Rightarrow> adminIdentity \<Rightarrow> int \<Rightarrow> GatewayConfig \<Rightarrow> tx_result \<Rightarrow> ('k, writer) handler_prog" where
  "activation_answer L action now identity version configuration res = (case res of
      TxDone \<Rightarrow> activate_local L configuration version
        (audit now (ai_subject identity) (''config.'' @ action) (format_int version)
          (json_answer 200 [(''active'', JNum (format_int version))]))
    | TxNotFound \<Rightarrow> fault 404 ''version_not_found'' ''configuration version does not exist''
    | TxConflict current \<Rightarrow> fault 409 ''version_conflict'' (''version conflict: active is '' @ current)
    | TxFailed \<Rightarrow> fault 409 ''version_conflict'' ''redis: transaction failed''
    | _ \<Rightarrow> unavailable)"

definition activateConfig :: "control_lib \<Rightarrow> string \<Rightarrow> string \<Rightarrow> string \<Rightarrow> http_request \<Rightarrow> adminIdentity \<Rightarrow> ('k, writer) handler_prog" where
  "activateConfig L action now path_version request identity = (case positive_version path_version of
      None \<Rightarrow> fault 400 ''invalid_version'' ''A positive version is required''
    | Some version \<Rightarrow>
        if if_match request = [] then fault 428 ''version_required'' ''If-Match must contain the current version''
        else Cmd (GET (configKey version)) (\<lambda>r. case r of
            RNil \<Rightarrow> fault 404 ''version_not_found'' ''Configuration version does not exist''
          | RBytes data \<Rightarrow> Local id (\<lambda>mg.
              case cl_unmarshal L data of
                None \<Rightarrow> fault 422 ''invalid_config'' ''Stored configuration is invalid''
              | Some configuration \<Rightarrow>
                  if validateGatewayConfig L mg configuration \<noteq> None
                  then fault 422 ''invalid_config'' ''Stored configuration is invalid''
                  else activate_tx version (if_match request) (activation_answer L action now identity version configuration))
          | _ \<Rightarrow> unavailable))"

subsection \<open>Listing\<close>

datatype 'a scan = ScanDone 'a | ScanError | ScanFuel

primrec scan_loop :: "nat \<Rightarrow> string \<Rightarrow> nat \<Rightarrow> nat \<Rightarrow> string list \<Rightarrow> ('m, string list scan) prog" where
  "scan_loop 0 pat n cursor acc = Ret ScanFuel"
| "scan_loop (Suc fuel) pat n cursor acc = Cmd (SCAN cursor pat n) (\<lambda>r. case r of
      RScan keys nx \<Rightarrow> if nx = 0 then Ret (ScanDone (acc @ keys)) else scan_loop fuel pat n nx (acc @ keys)
    | _ \<Rightarrow> Ret ScanError)"

definition scanned_versions :: "string list \<Rightarrow> int list" where
  "scanned_versions keys = List.map_filter (\<lambda>key. parse_int64 (trim_prefix key configKeyPrefix)) keys"

definition descending :: "int list \<Rightarrow> int list" where
  "descending versions = rev (sort versions)"
  \<comment> \<open>\<open>sort.Slice\<close> by \<open>>\<close>; equal numbers are interchangeable\<close>

definition listConfigs :: "nat \<Rightarrow> http_request \<Rightarrow> adminIdentity \<Rightarrow> ('k, writer option) handler_prog" where
  "listConfigs fuel request identity = Cmd (GET activeConfigKey) (\<lambda>r. case get_reply r of
       None \<Rightarrow> lift unavailable
     | Some active \<Rightarrow> bind (scan_loop fuel (configKeyPrefix @ ''*'') 100 0 []) (\<lambda>res. case res of
         ScanFuel \<Rightarrow> Ret None
       | ScanError \<Rightarrow> lift unavailable
       | ScanDone keys \<Rightarrow> lift (json_answer 200
           [(''active'', JStr (case active of Some v \<Rightarrow> v | None \<Rightarrow> [])),
            (''versions'', JArr (map (\<lambda>v. JNum (format_int v)) (descending (scanned_versions keys))))])))"

section \<open>API keys and cache invalidation\<close>

definition createAPIKey :: "control_lib \<Rightarrow> string option \<Rightarrow> string \<Rightarrow> http_request \<Rightarrow> adminIdentity \<Rightarrow> ('k, writer) handler_prog" where
  "createAPIKey L rnd now request identity = decodeJSON (cl_decode_key L) request (\<lambda>input.
     if trim_space (ck_name input) = [] \<or> ck_scopes input = []
     then fault 422 ''invalid_api_key'' ''name and scopes are required''
     else (case rnd of
         None \<Rightarrow> fault 500 ''random_failed'' ''Could not generate API key''
       | Some token \<Rightarrow>
           (let secret = ''vgk_'' @ token; key_id = sha256Text (cl_sha L) secret in
            Cmd (HSET (api_key_redis_key key_id)
                  [(''name'', ck_name input), (''scopes'', join (ck_scopes input) '' ''), (''revoked'', ''0''), (''created_at'', now)])
              (\<lambda>r. if r = RErr then unavailable
                   else audit now (ai_subject identity) ''apikey.create'' key_id
                     (json_answer 201 [(''id'', JStr key_id), (''api_key'', JStr secret), (''name'', JStr (ck_name input)),
                        (''scopes'', JArr (map JStr (ck_scopes input)))])))))"

definition revokeAPIKey :: "string \<Rightarrow> string \<Rightarrow> http_request \<Rightarrow> adminIdentity \<Rightarrow> ('k, writer) handler_prog" where
  "revokeAPIKey now key_id request identity =
     (if hash_bytes key_id = None then fault 400 ''invalid_api_key'' ''API key id must be a SHA-256 value''
      else Cmd (EXISTS (api_key_redis_key key_id)) (\<lambda>r. case r of
          RInt n \<Rightarrow>
            if n = 0 then fault 404 ''api_key_not_found'' ''API key does not exist''
            else Cmd (HSET (api_key_redis_key key_id) [(''revoked'', ''1''), (''revoked_at'', now)]) (\<lambda>r. case r of
                RInt changed \<Rightarrow> audit now (ai_subject identity) ''apikey.revoke'' key_id
                  (json_answer 200 [(''revoked'', JBool (changed \<ge> 0)), (''id'', JStr key_id)])
              | _ \<Rightarrow> unavailable)
        | _ \<Rightarrow> unavailable))"

primrec invalidate_loop :: "nat \<Rightarrow> string \<Rightarrow> nat \<Rightarrow> int \<Rightarrow> ('m, int scan) prog" where
  "invalidate_loop 0 pat cursor deleted = Ret ScanFuel"
| "invalidate_loop (Suc fuel) pat cursor deleted = Cmd (SCAN cursor pat 200) (\<lambda>r. case r of
      RScan keys nx \<Rightarrow>
        (if keys = [] then (if nx = 0 then Ret (ScanDone deleted) else invalidate_loop fuel pat nx deleted)
         else Cmd (UNLINK keys) (\<lambda>r. case r of
             RInt count \<Rightarrow>
               if nx = 0 then Ret (ScanDone (deleted + count)) else invalidate_loop fuel pat nx (deleted + count)
           | _ \<Rightarrow> Ret ScanError))
    | _ \<Rightarrow> Ret ScanError)"

definition cache_pattern :: "string \<Rightarrow> string" where
  "cache_pattern route = (if route \<noteq> [] then cachePrefix @ route @ '':*'' else cachePrefix @ ''*'')"

definition invalidateCache :: "control_lib \<Rightarrow> nat \<Rightarrow> string \<Rightarrow> http_request \<Rightarrow> adminIdentity \<Rightarrow> ('k, writer option) handler_prog" where
  "invalidateCache L fuel now request identity = (case cl_decode_route L (request_reader request) of
      Inl err \<Rightarrow> lift (fault 400 ''invalid_json'' err)
    | Inr route \<Rightarrow> bind (invalidate_loop fuel (cache_pattern route) 0 0) (\<lambda>res. case res of
          ScanFuel \<Rightarrow> Ret None
        | ScanError \<Rightarrow> lift unavailable
        | ScanDone deleted \<Rightarrow> lift (audit now (ai_subject identity) ''cache.invalidate'' route
            (json_answer 200 [(''deleted'', JNum (format_int deleted))]))))"

section \<open>Start and watch\<close>

definition Start :: "control_lib \<Rightarrow> applicationConfig \<Rightarrow> ('k, unit) handler_prog" where
  "Start L configuration =
     (if a_control_only configuration then Ret ()
      else Cmd (SETNX (configKey (g_version (a_gateway configuration))) (cl_marshal L (a_gateway configuration))) (\<lambda>_.
           Cmd (SETNX activeConfigKey (format_int (g_version (a_gateway configuration)))) (\<lambda>_. Ret ())))"
  \<comment> \<open>with a Redis client; errors of the two commands are only logged; then \<open>watch\<close> starts\<close>

definition load :: "control_lib \<Rightarrow> ('k, unit) handler_prog" where
  "load L = Cmd (GET activeConfigKey) (\<lambda>r. case r of
      RBytes text \<Rightarrow> (case parse_int64 text of
          None \<Rightarrow> Ret ()
        | Some version \<Rightarrow> Local id (\<lambda>mg.
            if mg_redis_version mg = version then Ret ()
            else Cmd (GET (configKey version)) (\<lambda>r. case r of
                RBytes data \<Rightarrow> (case cl_unmarshal L data of
                    None \<Rightarrow> Ret ()
                  | Some configuration \<Rightarrow>
                      Local (\<lambda>mg. snd (Activate (cl_parsers L) (cl_mux L) configuration mg)) (\<lambda>mg.
                        case fst (Activate (cl_parsers L) (cl_mux L) configuration mg) of
                          Some e \<Rightarrow> Ret ()
                        | None \<Rightarrow> Local (\<lambda>mg. mg\<lparr>mg_redis_version := version\<rparr>) (\<lambda>_. Ret ())))
              | _ \<Rightarrow> Ret ())))
    | _ \<Rightarrow> Ret ())"

datatype watch_event = ContextDone | Tick | Message | ChannelClosed

primrec watch_loop :: "control_lib \<Rightarrow> watch_event list \<Rightarrow> ('k, unit) handler_prog" where
  "watch_loop L [] = Ret ()"
| "watch_loop L (e # es) = (case e of
      ContextDone \<Rightarrow> Ret ()
    | ChannelClosed \<Rightarrow> watch_loop L es
    | _ \<Rightarrow> bind (load L) (\<lambda>_. watch_loop L es))"

definition watch :: "control_lib \<Rightarrow> watch_event list \<Rightarrow> ('k, unit) handler_prog" where
  "watch L events = bind (load L) (\<lambda>_. watch_loop L events)"
  \<comment> \<open>\<open>events\<close>: what its \<open>select\<close> receives, in order\<close>

section \<open>Every handler keeps the store consistent\<close>

lemma safe_bind:
  assumes "safe p K" and "\<And>r K. safe (f r) K"
  shows "safe (bind p f) K"
  using assms(1) by (induction p arbitrary: K) (auto simp: assms(2))

lemma allowed_read [simp]:
  "allowed (GET k) K" "allowed (EXISTS k) K" "allowed (HGETALL k) K" "allowed (SCAN c p n) K"
  "allowed (XREVRANGE k a b l) K" "allowed PING K" "allowed (WATCH ks) K" "allowed UNWATCH K"
  by (simp_all add: allowed_def writes_key_def)

lemma allowed_other [simp]:
  "\<not> is_config_key k \<Longrightarrow> allowed (SET k v d) K" "\<not> is_config_key k \<Longrightarrow> allowed (GETDEL k) K"
  "\<not> is_config_key k \<Longrightarrow> allowed (DEL k) K" "\<not> is_config_key k \<Longrightarrow> allowed (HSET k fs) K"
  "\<not> is_config_key k \<Longrightarrow> allowed (XADD k fs) K"
  "\<forall>k \<in> set ks. \<not> is_config_key k \<Longrightarrow> allowed (UNLINK ks) K"
  by (auto simp: allowed_def writes_key_def)

lemma allowed_SETNX [simp]: "allowed (SETNX (configKey n) v) K" "allowed (SETNX activeConfigKey v) K"
  by (auto simp: allowed_def)

lemma not_config_keys [simp]:
  "\<not> is_config_key auditKey" "\<not> is_config_key (api_key_redis_key x)" "\<not> is_config_key (sessionKeyPrefix @ x)"
  by (simp_all add: is_config_key_def auditKey_def api_key_redis_key_def sessionKeyPrefix_def configKeyPrefix_def)

lemma safe_simps [simp]:
  "safe (fault s c m) K" "safe (json_answer s fs) K" "safe unavailable K" "safe (invalid_config e) K"
  "safe (audit now a b t p) K \<longleftrightarrow> safe p K"
  by (simp_all add: fault_def json_answer_def unavailable_def invalid_config_def audit_def learn_def)

lemma safe_decodeJSON: "(\<And>v. safe (k v) K) \<Longrightarrow> safe (decodeJSON d request k) K"
  by (simp add: decodeJSON_def split: sum.split)

lemma safe_close_tx: "(\<And>r K. safe (k r) K) \<Longrightarrow> safe (close_tx k res) K"
  by (simp add: close_tx_def)

lemma positive_version_range: "positive_version t = Some v \<Longrightarrow> in_int64 v \<and> 1 \<le> v"
  using parse_int64_range [of t] by (auto simp: positive_version_def split: option.splits if_splits)

lemma safe_delete_tx:
  assumes "in_int64 version" and k: "\<And>r K. safe (k r) K"
  shows "safe (delete_tx version k) K"
proof -
  have exec: "allowed (EXEC [DEL (configKey version)]) K" if "kn_active K = Some a" "a \<noteq> Some (format_int version)" for K a
    using that assms(1) unfolding allowed_def by blast
  show ?thesis
    unfolding delete_tx_def
    by (auto simp: learn_def get_reply_def safe_close_tx k intro!: exec split: reply.splits)
qed

lemma safe_activate_tx:
  assumes "in_int64 version" and k: "\<And>r K. safe (k r) K"
  shows "safe (activate_tx version expected k) K"
proof -
  have exec: "allowed (EXEC [SET activeConfigKey (format_int version) 0, PUBLISH activationTopic (format_int version)]) K"
    if "configKey version \<in> kn_exists K" "kn_active K \<noteq> None" for K
    using that assms(1) unfolding allowed_def by blast
  show ?thesis
    unfolding activate_tx_def
    by (auto simp: learn_def get_reply_def safe_close_tx k Let_def intro!: exec split: reply.splits)
qed

lemma safe_activate_local: "(\<And>K. safe k K) \<Longrightarrow> safe (activate_local L configuration version k) K"
  by (simp add: activate_local_def split: option.split)

lemma safe_lift [simp]: "safe p K \<Longrightarrow> safe (lift p) K"
  unfolding lift_def by (rule safe_bind) simp_all

lemma safe_session_auth: "(\<And>i K. safe (k i) K) \<Longrightarrow> safe (session_auth L request k) K"
  by (auto simp: session_auth_def split: option.splits reply.splits)

lemma safe_admin_authenticate: "(\<And>i K. safe (k i) K) \<Longrightarrow> safe (admin_authenticate L config request k) K"
  by (auto simp: admin_authenticate_def Let_def intro!: safe_session_auth split: reply.splits)

lemma safe_protect: "(\<And>i K. safe (h request i) K) \<Longrightarrow> safe (protect L config h request) K"
  unfolding protect_def by (rule safe_admin_authenticate) (simp split: option.split)

lemma safe_validateConfig: "safe (validateConfig L request i) K"
  unfolding validateConfig_def by (intro safe_decodeJSON) (simp split: option.split)

lemma safe_createConfig: "safe (createConfig L now request i) K"
  unfolding createConfig_def by (intro safe_decodeJSON) (auto split: option.split reply.split)

lemma safe_deleteConfig: "safe (deleteConfig now v request i) K"
  unfolding deleteConfig_def
  by (auto split: option.split tx_result.split intro!: safe_delete_tx dest: positive_version_range)

lemma safe_activation_answer: "safe (activation_answer L action now i version cfg res) K"
  by (auto simp: activation_answer_def split: tx_result.split intro!: safe_activate_local)

lemma safe_activateConfig: "safe (activateConfig L action now v request i) K"
  unfolding activateConfig_def
  by (auto split: option.split reply.split intro!: safe_activate_tx safe_activation_answer
      dest: positive_version_range)

lemma safe_scan_loop: "safe (scan_loop fuel pat n cursor acc) K"
  by (induction fuel arbitrary: cursor acc K) (auto split: reply.split)

lemma safe_listConfigs: "safe (listConfigs fuel request i) K"
  unfolding listConfigs_def by (auto intro!: safe_bind safe_scan_loop split: scan.split option.split)

lemma safe_createAPIKey: "safe (createAPIKey L rnd now request i) K"
  unfolding createAPIKey_def by (intro safe_decodeJSON) (auto simp: Let_def split: option.split)

lemma safe_revokeAPIKey: "safe (revokeAPIKey now v request i) K"
  unfolding revokeAPIKey_def by (auto split: reply.split)

lemma cache_pattern_keys:
  assumes "reply_ok (SCAN cursor (cache_pattern route) n) (RScan ks nx)" and "k \<in> set ks"
  shows "\<not> is_config_key k"
proof -
  have "list_all glob_free cachePrefix" by code_simp
  then have "takeWhile glob_free (cachePrefix @ x) = cachePrefix @ takeWhile glob_free x" for x
    by (simp add: takeWhile_append list_all_iff)
  then have "\<exists>t. takeWhile glob_free (cache_pattern route) = cachePrefix @ t"
    by (simp add: cache_pattern_def)
  with assms obtain t u where "k = cachePrefix @ t @ u" by (auto simp: has_prefix_iff)
  then show ?thesis by (simp add: is_config_key_def cachePrefix_def configKeyPrefix_def)
qed

lemma safe_invalidate_loop: "safe (invalidate_loop fuel (cache_pattern route) cursor deleted) K"
  by (induction fuel arbitrary: cursor deleted K)
     (auto split: reply.split simp del: reply_ok.simps intro!: allowed_other(6) dest: cache_pattern_keys)

lemma safe_invalidateCache: "safe (invalidateCache L fuel now request i) K"
  unfolding invalidateCache_def by (auto intro!: safe_bind safe_invalidate_loop split: sum.split scan.split)

lemma safe_Start: "safe (Start L configuration) K"
  by (simp add: Start_def)

lemma safe_load: "safe (load L) K"
  by (auto simp: load_def split: reply.split option.split)

lemma safe_watch: "safe (watch L events) K"
proof -
  have "safe (watch_loop L events) K" for K :: knowledge
    by (induction events arbitrary: K) (auto split: watch_event.split intro!: safe_bind safe_load)
  then show ?thesis unfolding watch_def by (intro safe_bind safe_load)
qed

end
