(* ===== verification/Control_Theorems.thy ===== *)
theory Control_Theorems
  imports Control_Plane
begin

text \<open>
  What the control plane guarantees: the configuration store under concurrent handlers, the
  protection of the administrative interface, activation as one decision of Redis and the
  process, convergence of the watch loop, and the life of a dynamic API key. The witnesses run
  on a small in-memory server with optimistic locks.
\<close>

section \<open>An in-memory server for the witnesses\<close>

text \<open>The bounds of \<open>ParseInt\<close> compared as integers, for evaluation.\<close>

lemma parse_int64_code [code]:
  "parse_int64 s =
     (let (neg, ds) = (case s of
            [] \<Rightarrow> (False, [])
          | c # cs \<Rightarrow> if c = CHR ''-'' then (True, cs)
                     else if c = CHR ''+'' then (False, cs) else (False, s));
          n = int (digits_val ds)
      in if ds = [] \<or> \<not> list_all is_digit ds then None
         else if neg then (if n \<le> 9223372036854775808 then Some (- n) else None)
         else (if n < 9223372036854775808 then Some n else None))"
  by (auto simp: parse_int64_def Let_def split: list.splits prod.splits)

record mem =
  mm_keys :: "string \<Rightarrow> rval option"
  mm_watch :: "nat \<Rightarrow> string list"
  mm_dirty :: "nat \<Rightarrow> bool"

definition touch :: "(string \<Rightarrow> rval option) \<Rightarrow> mem \<Rightarrow> mem" where
  "touch keys w = w\<lparr>mm_keys := keys,
     mm_dirty := (\<lambda>d. mm_dirty w d \<or> list_ex (\<lambda>k. keys k \<noteq> mm_keys w k) (mm_watch w d))\<rparr>"

definition unlock :: "nat \<Rightarrow> mem \<Rightarrow> mem" where
  "unlock c w = w\<lparr>mm_watch := (mm_watch w)(c := []), mm_dirty := (mm_dirty w)(c := False)\<rparr>"

fun mem_exec :: "nat \<Rightarrow> redis_cmd \<Rightarrow> mem \<Rightarrow> reply \<times> mem" where
  "mem_exec c (GET k) w = ((case mm_keys w k of None \<Rightarrow> RNil | Some (Str v) \<Rightarrow> RBytes v | _ \<Rightarrow> RErr), w)"
| "mem_exec c (EXISTS k) w = (RInt (if mm_keys w k = None then 0 else 1), w)"
| "mem_exec c (HGETALL k) w = (RHash (hash_of (mm_keys w k)), w)"
| "mem_exec c (SCAN n p m) w = (RScan [] 0, w)"
| "mem_exec c (XREVRANGE k a b n) w = (RStream [], w)"
| "mem_exec c PING w = (ROk, w)"
| "mem_exec c (WATCH ks) w = (ROk, w\<lparr>mm_watch := (mm_watch w)(c := ks @ mm_watch w c)\<rparr>)"
| "mem_exec c UNWATCH w = (ROk, unlock c w)"
| "mem_exec c (EXEC cs) w = (if mm_dirty w c then (RTxFailed, unlock c w)
     else (ROk, unlock c (touch (effect (EXEC cs) (mm_keys w)) w)))"
| "mem_exec c (SETNX k v) w = (RInt (if mm_keys w k = None then 1 else 0), touch (effect (SETNX k v) (mm_keys w)) w)"
| "mem_exec c (GETDEL k) w = ((case mm_keys w k of Some (Str v) \<Rightarrow> RBytes v | _ \<Rightarrow> RNil), touch (effect (GETDEL k) (mm_keys w)) w)"
| "mem_exec c cmd w = (RInt 1, touch (effect cmd (mm_keys w)) w)"

definition mem_server :: "mem redis_server" where
  "mem_server = \<lparr>rs_exec = mem_exec, rs_view = mm_keys, rs_watched = (\<lambda>w c. set (mm_watch w c)), rs_dirty = mm_dirty\<rparr>"

lemma same_config_refl [simp]: "same_config s s"
  by (simp add: same_config_def)

lemma touch_lock:
  "\<not> mm_dirty (touch keys w) d \<Longrightarrow> \<not> mm_dirty w d \<and> (\<forall>k \<in> set (mm_watch w d). keys k = mm_keys w k)"
  by (auto simp: touch_def list_ex_iff)

lemma touch_fields [simp]: "mm_keys (touch keys w) = keys" "mm_watch (touch keys w) = mm_watch w"
  by (simp_all add: touch_def)

lemma unlock_fields [simp]: "mm_keys (unlock c w) = mm_keys w"
  "d \<noteq> c \<Longrightarrow> mm_watch (unlock c w) d = mm_watch w d" "d \<noteq> c \<Longrightarrow> mm_dirty (unlock c w) d = mm_dirty w d"
  by (simp_all add: unlock_def)

definition single_write :: "redis_cmd \<Rightarrow> bool" where
  "single_write cmd \<longleftrightarrow> (case cmd of SETNX k v \<Rightarrow> True | SET k v d \<Rightarrow> True | GETDEL k \<Rightarrow> True | DEL k \<Rightarrow> True
     | UNLINK ks \<Rightarrow> True | HSET k fs \<Rightarrow> True | XADD k fs \<Rightarrow> True | PUBLISH t m \<Rightarrow> True | _ \<Rightarrow> False)"

lemma mem_write:
  assumes "mem_exec c cmd w = (r, w')" and "single_write cmd"
  shows "w' = touch (effect cmd (mm_keys w)) w"
  using assms by (cases cmd) (auto simp: single_write_def simp del: effect.simps)

lemma mem_write_ok:
  assumes "mem_exec c cmd w = (r, w')" and "single_write cmd"
  shows "exec_ok mem_server c cmd w r w'"
proof -
  note w' = mem_write [OF assms]
  have "reply_ok cmd r" "read_true (mm_keys w) cmd r" "\<forall>ks. cmd \<noteq> WATCH ks" "\<forall>cs. cmd \<noteq> EXEC cs"
    using assms(2) by (cases cmd; simp add: single_write_def read_true_def)+
  with touch_lock [of "effect cmd (mm_keys w)" w] show ?thesis
    unfolding w' by (simp add: exec_ok_def mem_server_def)
qed

lemma config_server_mem: "config_server mem_server"
  unfolding config_server_def
proof (intro allI impI)
  fix c cmd w r w'
  assume "rs_exec mem_server c cmd w = (r, w')"
  then have e: "mem_exec c cmd w = (r, w')" by (simp add: mem_server_def)
  show "exec_ok mem_server c cmd w r w'"
  proof (cases "single_write cmd")
    case True
    with e show ?thesis by (rule mem_write_ok)
  next
    case False
    have exec: ?thesis if "cmd = EXEC cs" "\<not> mm_dirty w c" for cs
      using e that touch_lock [of "effect cmd (mm_keys w)" w]
      by (auto simp: exec_ok_def mem_server_def read_true_def ends_watch_def simp del: effect.simps)
    show ?thesis
    proof (cases cmd)
      case (EXEC cs)
      with exec e show ?thesis
        by (cases "mm_dirty w c") (auto simp: exec_ok_def mem_server_def read_true_def ends_watch_def simp del: effect.simps)
    qed (use e False in \<open>auto simp: exec_ok_def mem_server_def read_true_def ends_watch_def unlock_def single_write_def
        split: option.splits rval.splits if_splits\<close>)
  qed
qed

section \<open>Sequential runs\<close>

lemma run_bind: "run S c (bind p f) m w = (case run S c p m w of (r, m, w) \<Rightarrow> run S c (f r) m w)"
  by (induction p arbitrary: m w) (auto split: prod.split)

lemma run_lift: "run S c (lift p) m w = (case run S c p m w of (r, m, w) \<Rightarrow> (Some r, m, w))"
  by (simp add: lift_def run_bind)

lemma run_fault [simp]: "run S c (fault s d t) m w = (write_fault s d t new_writer, m, w)"
  by (simp add: fault_def)

lemma run_json [simp]: "run S c (json_answer s fs) m w = (write_json s (JObj fs) new_writer, m, w)"
  by (simp add: json_answer_def)

lemma run_answers [simp]:
  "run S c unavailable m w = (write_fault 503 ''control_unavailable'' ''Redis is unavailable'' new_writer, m, w)"
  "run S c (invalid_config e) m w = (write_fault 422 ''invalid_config'' (error_text e) new_writer, m, w)"
  by (simp_all add: unavailable_def invalid_config_def)

lemma run_audit: "\<exists>w1. run S c (audit now a b t p) m w = run S c p m w1"
  by (auto simp: audit_def split: prod.split)

lemma run_close_tx: "\<exists>w1. run S c (close_tx k res) m w = run S c (k res) m w1"
  by (auto simp: close_tx_def split: prod.split)

lemma run_activate_tx: "\<exists>res w1. run S c (activate_tx v e k) m w = run S c (k res) m w1"
  unfolding activate_tx_def Let_def
  by (auto split: prod.split reply.split option.split intro: run_close_tx)

lemma validated_activates:
  fixes mg :: "'k manager"
  assumes "validateGatewayConfig L mg cfg = None"
  shows "fst (Activate (cl_parsers L) (cl_mux L) cfg mg) = None \<and>
     active_config (snd (Activate (cl_parsers L) (cl_mux L) cfg mg)) = Some cfg"
proof -
  from assms have "\<exists>s :: 'k routerSnapshot. compile (cl_parsers L) (cl_mux L) (mg_environment mg) (mg_allow_no_routes mg) (mg_next mg) cfg = Inr s"
    by (auto simp: validateGatewayConfig_def manager_Validate_def split: option.splits sum.splits)
  then have "accepts_config (cl_parsers L) (cl_mux L) (mg_environment mg) (mg_allow_no_routes mg) cfg"
    unfolding accepts_config_def by (rule compile_iff [THEN iffD1])
  from Activate_accepted [OF this] show ?thesis by (auto simp: active_config_def)
qed

lemma run_activate_local:
  assumes "validateGatewayConfig L mg cfg = None"
  shows "\<exists>mg'. run S c (activate_local L cfg version k) mg w = run S c k mg' w \<and>
     active_config mg' = Some cfg \<and> mg_redis_version mg' = version"
  using validated_activates [OF assms] by (auto simp: activate_local_def active_config_def)

section \<open>Properties\<close>

definition sample_mem :: mem where
  "sample_mem = \<lparr>mm_keys = [activeConfigKey \<mapsto> Str ''1'', configKey 1 \<mapsto> Str ''{}''], mm_watch = (\<lambda>_. []), mm_dirty = (\<lambda>_. False)\<rparr>"

definition sample_lib :: control_lib where
  "sample_lib = \<lparr>cl_parsers = sample_parsers, cl_mux = sample_mux, cl_sha = rev,
     cl_decode = (\<lambda>_. Inr sample_gateway), cl_marshal = (\<lambda>_. ''{}''), cl_unmarshal = (\<lambda>d. if d = ''{}'' then Some sample_gateway else None),
     cl_decode_key = (\<lambda>_. Inr \<lparr>ck_name = ''ci'', ck_scopes = [''users.read'']\<rparr>), cl_decode_route = (\<lambda>_. Inr []),
     cl_session = as_csrf, cl_unsession = (\<lambda>_. None), cl_cookie = (\<lambda>_. None), cl_form = (\<lambda>_ _. [])\<rparr>"

lemma run_activation_answer:
  assumes "validateGatewayConfig L mg cfg = None"
    and "run S c (activation_answer L action now identity version cfg res) mg w = (wr, mg', w')"
  shows "w_code wr = 200 \<and> active_config mg' = Some cfg \<and> mg_redis_version mg' = version \<or>
    w_code wr \<in> {400, 404, 409, 422, 428, 503} \<and> mg' = mg"
proof (cases "res = TxDone")
  case True
  let ?json = "json_answer 200 [(''active'', JNum (format_int version))]"
  let ?a = "audit now (ai_subject identity) (''config.'' @ action) (format_int version) ?json"
  from run_activate_local [OF assms(1), of S c version ?a w] obtain mg1 where
    l: "run S c ?a mg1 w = (wr, mg', w')" "active_config mg1 = Some cfg" "mg_redis_version mg1 = version"
    using assms(2) True by (auto simp: activation_answer_def)
  with run_audit [of S c now "ai_subject identity" "''config.'' @ action" "format_int version" ?json mg1 w]
  show ?thesis by auto
next
  case False
  with assms(2) show ?thesis by (cases res) (auto simp: activation_answer_def)
qed

text \<open>
  C4: An activation request ends in exactly one of two ways: with 200, and then the process
  serves the configuration that was stored under the requested version and remembers that
  version; or with a refusal (400, 404, 409, 422, 428 or 503), and then the process is unchanged.
  In particular the process never rejects a configuration after Redis has committed it.
\<close>

theorem activation_is_all_or_nothing:
  assumes "run S c (activateConfig L action now path_version request identity) mg w = (wr, mg', w')"
  shows "w_code wr = 200 \<and> (\<exists>version data cfg w0. positive_version path_version = Some version \<and>
        rs_exec S c (GET (configKey version)) w = (RBytes data, w0) \<and> cl_unmarshal L data = Some cfg \<and>
        active_config mg' = Some cfg \<and> mg_redis_version mg' = version) \<or>
     w_code wr \<in> {400, 404, 409, 422, 428, 503} \<and> mg' = mg"
proof (cases "positive_version path_version")
  case None
  with assms show ?thesis by (auto simp: activateConfig_def)
next
  case (Some version)
  obtain r w0 where get: "rs_exec S c (GET (configKey version)) w = (r, w0)" by (cases "rs_exec S c (GET (configKey version)) w")
  show ?thesis
  proof (cases "if_match request = [] \<or> (\<forall>d. r \<noteq> RBytes d)")
    case True
    with assms Some get show ?thesis by (auto simp: activateConfig_def split: if_splits reply.splits)
  next
    case False
    then obtain data where r: "r = RBytes data" and m: "if_match request \<noteq> []" by auto
    show ?thesis
    proof (cases "\<exists>cfg. cl_unmarshal L data = Some cfg \<and> validateGatewayConfig L mg cfg = None")
      case False
      with assms Some get r m show ?thesis by (auto simp: activateConfig_def split: option.splits if_splits)
    next
      case True
      then obtain cfg where u: "cl_unmarshal L data = Some cfg" and v: "validateGatewayConfig L mg cfg = None" by blast
      let ?k = "activation_answer L action now identity version cfg"
      from assms Some get r m u v have "run S c (activate_tx version (if_match request) ?k) mg w0 = (wr, mg', w')"
        by (simp add: activateConfig_def)
      with run_activate_tx obtain res w1 where res: "run S c (?k res) mg w1 = (wr, mg', w')" by metis
      from run_activation_answer [OF v res] Some get r u show ?thesis by auto
    qed
  qed
qed

definition admin_request :: http_request where
  "admin_request = sample_request\<lparr>q_method := ''POST'', q_header := [(''If-Match'', [''1'']), (''X-Api-Key'', [''secret''])]\<rparr>"

definition sample_admin :: adminIdentity where
  "sample_admin = \<lparr>ai_subject = ''root'', ai_csrf = [], ai_session = False\<rparr>"

definition sample_manager :: "unit manager" where
  "sample_manager = new_manager ''production'' False"

lemma sample_tx:
  "\<exists>w1. run mem_server 0 (activate_tx 1 ''1'' k) m sample_mem = run mem_server 0 (k TxDone) m w1"
  unfolding activate_tx_def
  by (auto simp: mem_server_def sample_mem_def get_reply_def close_tx_def exec_result_def touch_def unlock_def)

lemma sample_validates: "validateGatewayConfig sample_lib sample_manager sample_gateway = None"
proof -
  have "\<exists>s :: unit routerSnapshot. compile sample_parsers sample_mux ''production'' False 0 sample_gateway = Inr s"
    using sample_gateway_valid sample_registers by (simp add: compile_iff gateway_validate_iff)
  then show ?thesis
    using sample_gateway_valid
    by (auto simp: validateGatewayConfig_def manager_Validate_def sample_lib_def sample_manager_def new_manager_def)
qed

theorem activation_is_all_or_nothing_witness:
  "\<exists>wr mg' w'. run mem_server 0 (activateConfig sample_lib ''activate'' ''now'' ''1'' admin_request sample_admin) sample_manager sample_mem
       = (wr, mg', w') \<and> w_code wr = 200 \<and> active_config mg' = Some sample_gateway"
proof -
  obtain wr mg' w' where r: "run mem_server 0 (activateConfig sample_lib ''activate'' ''now'' ''1'' admin_request sample_admin)
      sample_manager sample_mem = (wr, mg', w')" by (metis prod_cases3)
  have p: "positive_version ''1'' = Some 1" and i: "if_match admin_request = ''1''" by code_simp+
  have g: "rs_exec mem_server 0 (GET (configKey 1)) sample_mem = (RBytes ''{}'', sample_mem)"
    and u: "cl_unmarshal sample_lib ''{}'' = Some sample_gateway"
    by (simp_all add: mem_server_def sample_mem_def sample_lib_def)
  let ?k = "activation_answer sample_lib ''activate'' ''now'' sample_admin 1 sample_gateway"
  let ?a = "audit ''now'' (ai_subject sample_admin) (''config.'' @ ''activate'') (format_int 1)
          (json_answer 200 [(''active'', JNum (format_int 1))]) :: (unit, writer) handler_prog"
  from sample_tx [of ?k sample_manager] obtain w1 where
    "run mem_server 0 (?k TxDone) sample_manager w1 = (wr, mg', w')"
    using r by (auto simp: activateConfig_def p i g u sample_validates)
  then have "run mem_server 0 (activate_local sample_lib sample_gateway 1 ?a) sample_manager w1 = (wr, mg', w')"
    by (simp add: activation_answer_def)
  with run_activate_local [OF sample_validates, of mem_server 0 1 ?a w1] obtain mg1 where
    "run mem_server 0 ?a mg1 w1 = (wr, mg', w')" by auto
  with run_audit [of mem_server 0 "''now''" "ai_subject sample_admin" "''config.'' @ ''activate''" "format_int 1"
      "json_answer 200 [(''active'', JNum (format_int 1))]" mg1 w1] have "w_code wr = 200" by auto
  with activation_is_all_or_nothing [OF r] r p g u show ?thesis by auto
qed

subsection \<open>Protection\<close>

text \<open>
  Who an administrator is: the holder of the bootstrap key, the holder of a key that Redis
  holds as not revoked and with the scope \<open>gateway.admin\<close>, or the browser of a session with
  that scope.
\<close>

definition session_backed :: "'w redis_server \<Rightarrow> nat \<Rightarrow> control_lib \<Rightarrow> http_request \<Rightarrow> 'w \<Rightarrow> adminIdentity \<Rightarrow> bool" where
  "session_backed S c L request w i \<longleftrightarrow> (\<exists>cookie data w' session. cl_cookie L request = Some cookie \<and>
     rs_exec S c (GET (sessionKeyPrefix @ cookie)) w = (RBytes data, w') \<and> cl_unsession L data = Some session \<and>
     ''gateway.admin'' \<in> set (as_scopes session) \<and>
     i = \<lparr>ai_subject = as_subject session, ai_csrf = as_csrf session, ai_session = True\<rparr>)"

definition backed :: "'w redis_server \<Rightarrow> nat \<Rightarrow> control_lib \<Rightarrow> adminConfig \<Rightarrow> http_request \<Rightarrow> 'w \<Rightarrow> adminIdentity \<Rightarrow> bool" where
  "backed S c L config request w i \<longleftrightarrow>
     (let hash = cl_sha L (admin_secret request); read_key = rs_exec S c (HGETALL (api_key_redis_key (hex_encode hash))) w in
      session_backed S c L request w i \<or>
      admin_secret request \<noteq> [] \<and>
        (hash_bytes (ad_bootstrap_key_sha config) = Some hash \<and> i = \<lparr>ai_subject = ''bootstrap'', ai_csrf = [], ai_session = False\<rparr> \<or>
         (\<exists>record. fst read_key = RHash record \<and> lookup_or [] record ''revoked'' \<noteq> ''1'' \<and>
            ''gateway.admin'' \<in> scope_set (splitSpace (lookup_or [] record ''scopes'')) \<and>
            i = \<lparr>ai_subject = lookup_or [] record ''name'', ai_csrf = [], ai_session = False\<rparr>) \<or>
         session_backed S c L request (snd read_key) i))"

lemma run_session_auth:
  "\<exists>i w1. run S c (session_auth L request k) m w = run S c (k i) m w1 \<and>
     (case i of None \<Rightarrow> True | Some i \<Rightarrow> session_backed S c L request w i)"
proof (cases "cl_cookie L request")
  case None
  then show ?thesis by (auto simp: session_auth_def intro: exI [where x = None])
next
  case (Some cookie)
  obtain r w1 where g: "rs_exec S c (GET (sessionKeyPrefix @ cookie)) w = (r, w1)" by (metis surj_pair)
  show ?thesis
  proof (cases "\<exists>data session. r = RBytes data \<and> cl_unsession L data = Some session \<and> ''gateway.admin'' \<in> scope_set (as_scopes session)")
    case True
    then obtain data session where d: "r = RBytes data" "cl_unsession L data = Some session"
      "''gateway.admin'' \<in> scope_set (as_scopes session)" by blast
    let ?i = "\<lparr>ai_subject = as_subject session, ai_csrf = as_csrf session, ai_session = True\<rparr>"
    have "session_backed S c L request w ?i"
      using Some g d unfolding session_backed_def by (auto simp: scope_set_def)
    moreover have "run S c (session_auth L request k) m w = run S c (k (Some ?i)) m w1"
      using Some g d by (simp add: session_auth_def)
    ultimately show ?thesis by (intro exI [where x = "Some ?i"] exI [where x = w1]) simp
  next
    case False
    then have "run S c (session_auth L request k) m w = run S c (k None) m w1"
      using Some g by (auto simp: session_auth_def split: reply.splits option.splits)
    then show ?thesis by (intro exI [where x = None] exI [where x = w1]) simp
  qed
qed

lemma run_admin_authenticate:
  "\<exists>i w1. run S c (admin_authenticate L config request k) m w = run S c (k i) m w1 \<and>
     (case i of None \<Rightarrow> True | Some i \<Rightarrow> backed S c L config request w i)"
proof -
  let ?secret = "admin_secret request"
  let ?hash = "cl_sha L ?secret"
  obtain r w1 where g: "rs_exec S c (HGETALL (api_key_redis_key (hex_encode ?hash))) w = (r, w1)" by (metis surj_pair)
  consider (none) "?secret = []" | (boot) "?secret \<noteq> []" "hash_bytes (ad_bootstrap_key_sha config) = Some ?hash"
    | (key) hash_fields where "?secret \<noteq> []" "hash_bytes (ad_bootstrap_key_sha config) \<noteq> Some ?hash" "r = RHash hash_fields" "admin_key_record hash_fields"
    | (other) "?secret \<noteq> []" "hash_bytes (ad_bootstrap_key_sha config) \<noteq> Some ?hash" "\<forall>hash_fields. r = RHash hash_fields \<longrightarrow> \<not> admin_key_record hash_fields"
    by blast
  then show ?thesis
  proof cases
    case none
    obtain i w2 where "run S c (session_auth L request k) m w = run S c (k i) m w2"
      "case i of None \<Rightarrow> True | Some i \<Rightarrow> session_backed S c L request w i" using run_session_auth [of S c L request k m w] by blast
    with none show ?thesis
      by (intro exI [where x = i] exI [where x = w2]) (simp add: admin_authenticate_def backed_def Let_def split: option.splits)
  next
    case boot
    then have "backed S c L config request w \<lparr>ai_subject = ''bootstrap'', ai_csrf = [], ai_session = False\<rparr>"
      by (simp add: backed_def)
    with boot show ?thesis
      by (intro exI [where x = "Some \<lparr>ai_subject = ''bootstrap'', ai_csrf = [], ai_session = False\<rparr>"] exI [where x = w])
         (simp add: admin_authenticate_def)
  next
    case key
    let ?i = "\<lparr>ai_subject = lookup_or [] hash_fields ''name'', ai_csrf = [], ai_session = False\<rparr>"
    have "backed S c L config request w ?i"
      using key g by (simp add: backed_def Let_def admin_key_record_def)
    with key g show ?thesis
      by (intro exI [where x = "Some ?i"] exI [where x = w1]) (simp add: admin_authenticate_def)
  next
    case other
    with g have "run S c (admin_authenticate L config request k) m w = run S c (session_auth L request k) m w1"
      by (auto simp: admin_authenticate_def split: reply.split)
    moreover obtain i w2 where "run S c (session_auth L request k) m w1 = run S c (k i) m w2"
      "case i of None \<Rightarrow> True | Some i \<Rightarrow> session_backed S c L request w1 i" using run_session_auth [of S c L request k m w1] by blast
    ultimately show ?thesis using other(1) g
      by (intro exI [where x = i] exI [where x = w2]) (simp add: backed_def Let_def split: option.splits)
  qed
qed

text \<open>
  No handler behind \<open>protect\<close> runs for a request without administrator rights: either the
  request is answered with 401, 403 or the redirect to the login and the process state is
  untouched, or its identity is backed by the bootstrap key, by a live Redis key with the scope
  \<open>gateway.admin\<close> or by a session with that scope, a state-changing request of a session
  carried the session's CSRF token, and the result is the handler's.
\<close>

lemma protect_admits_only_administrators:
  assumes "run S c (protect L config handler request) m w = (wr, m', w')"
  shows "(\<exists>v. wr = Some v \<and> w_code v \<in> {401, 403, 302}) \<and> m' = m \<or>
     (\<exists>i w1. backed S c L config request w i \<and> csrf_ok L i request \<and> run S c (handler request i) m w1 = (wr, m', w'))"
proof -
  define k where "k = (\<lambda>identity. case identity of
      None \<Rightarrow> if u_path (q_url request) = ''/admin'' \<and> ad_oidc_issuer config \<noteq> []
              then Ret (Some (redirect ''/admin/login'' new_writer))
              else lift (fault 401 ''admin_unauthorized'' ''gateway.admin scope is required'')
    | Some identity \<Rightarrow>
        if \<not> csrf_ok L identity request then lift (fault 403 ''csrf_failed'' ''A valid CSRF token is required'')
        else handler request identity)"
  have "protect L config handler request = admin_authenticate L config request k"
    by (simp add: protect_def k_def)
  with assms run_admin_authenticate [of S c L config request k m w] obtain i w1 where
    i: "run S c (k i) m w1 = (wr, m', w')" "case i of None \<Rightarrow> True | Some i \<Rightarrow> backed S c L config request w i" by auto
  show ?thesis
  proof (cases i)
    case None
    with i(1) show ?thesis
      by (auto simp: k_def run_lift redirect_def write_header_def set_header_def new_writer_def split: if_splits)
  next
    case (Some j)
    with i show ?thesis by (cases "csrf_ok L j request") (auto simp: k_def run_lift)
  qed
qed

subsection \<open>The watch loop\<close>

definition available :: "'w redis_server \<Rightarrow> bool" where
  "available S \<longleftrightarrow> (\<forall>c k w v. is_config_key k \<and> rs_view S w k = Some (Str v) \<longrightarrow> get_reply (fst (rs_exec S c (GET k) w)) \<noteq> None)"

lemma get_available:
  assumes "config_server S" and "available S" and "is_config_key k" and "rs_view S w k = Some (Str v)"
  shows "\<exists>w1. rs_exec S c (GET k) w = (RBytes v, w1) \<and> same_config (rs_view S w1) (rs_view S w)"
proof -
  obtain r w1 where e: "rs_exec S c (GET k) w = (r, w1)" by (metis surj_pair)
  with assms(1) have ok: "exec_ok S c (GET k) w r w1" by (auto simp: config_server_def)
  from assms(2,3,4) e have "get_reply r \<noteq> None" by (metis available_def fst_conv)
  then have "r = RNil \<or> (\<exists>v'. r = RBytes v')" by (auto simp: get_reply_def split: reply.splits)
  with ok assms(3,4) have "r = RBytes v" by (auto simp: exec_ok_def read_true_def)
  with ok e show ?thesis by (auto simp: exec_ok_def)
qed



text \<open>
  Without an active pointer no version can ever be activated: the handler requires a
  non-empty \<open>If-Match\<close> and compares it with the pointer, which reads as the empty string when it
  is missing. A control plane started with \<open>control_only\<close> on an empty Redis therefore cannot
  make a first activation; only the start of a data-plane process sets the pointer.
\<close>

lemma first_activation_needs_a_data_plane:
  assumes "\<And>w. get_reply (fst (rs_exec S c (GET activeConfigKey) w)) = Some None"
  shows "w_code (fst (run S c (activateConfig L action now path_version request identity) mg w)) \<noteq> 200"
proof -
  have tx: "\<exists>res w1. run S c (activate_tx v e k) m w = run S c (k res) m w1 \<and> res \<noteq> TxDone" if "e \<noteq> []" for v e k m w
  proof -
    have g: "get_reply r = Some None" if "rs_exec S c (GET activeConfigKey) w1 = (r, w2)" for r w1 w2
      using assms [of w1] that by simp
    show ?thesis
      unfolding activate_tx_def close_tx_def using that
      by (auto split: prod.split dest!: g) blast+
  qed
  have ans: "w_code (fst (run S c (activation_answer L action now identity v cfg res) mg w)) \<noteq> 200" if "res \<noteq> TxDone" for res v cfg w
    using that by (cases res) (auto simp: activation_answer_def)
  show ?thesis
  proof (cases "positive_version path_version")
    case None
    then show ?thesis by (simp add: activateConfig_def)
  next
    case (Some v)
    have act: "w_code (fst (run S c (activate_tx v (if_match request) (activation_answer L action now identity v cfg)) mg w)) \<noteq> 200"
      if "if_match request \<noteq> []" for cfg w
      using tx [OF that, of v "activation_answer L action now identity v cfg" mg w] ans by metis
    show ?thesis
      using Some act by (auto simp: activateConfig_def split: prod.split reply.split option.split)
  qed
qed

lemma first_activation_needs_a_data_plane_witness:
  "w_code (fst (run (mem_server\<lparr>rs_exec := (\<lambda>c cmd w. if cmd = GET activeConfigKey then (RNil, w) else mem_exec c cmd w)\<rparr>) 0
     (activateConfig sample_lib ''activate'' ''now'' ''1'' admin_request sample_admin) sample_manager sample_mem)) \<noteq> 200"
  by (rule first_activation_needs_a_data_plane) (simp add: get_reply_def)

lemma audit_key_distinct [simp]: "activeConfigKey \<noteq> auditKey" "configKey n \<noteq> auditKey"
  using not_config_keys(1) config_key_active config_key_configKey by metis+

definition empty_mem :: mem where
  "empty_mem = \<lparr>mm_keys = (\<lambda>_. None), mm_watch = (\<lambda>_. []), mm_dirty = (\<lambda>_. False)\<rparr>"

text \<open>
  The two commands of \<open>Start\<close> are not one transaction. When an administrator deletes the
  freshly stored bootstrap version between them, which is allowed because no version is active
  yet, \<open>Start\<close> then sets the pointer to a version that is no longer stored.
\<close>

lemma start_race_leaves_pointer_dangling:
  "\<exists>cmd1 cmd2. (Start sample_lib sample_app :: (unit, unit) handler_prog) = Cmd cmd1 (\<lambda>_. Cmd cmd2 (\<lambda>_. Ret ())) \<and>
     (let w1 = snd (rs_exec mem_server 0 cmd1 empty_mem);
          (wr, mg, w2) = run mem_server 1 (deleteConfig ''now'' ''1'' admin_request sample_admin) sample_manager w1;
          w3 = snd (rs_exec mem_server 0 cmd2 w2)
      in w_code wr = 200 \<and> rs_view mem_server w3 activeConfigKey = Some (Str ''1'') \<and> rs_view mem_server w3 (configKey 1) = None)"
proof -
  have f: "g_version (a_gateway sample_app) = 1" "a_control_only sample_app = False" "format_int 1 = ''1''"
    and p: "positive_version ''1'' = Some 1" by code_simp+
  have s: "(Start sample_lib sample_app :: (unit, unit) handler_prog) =
      Cmd (SETNX (configKey 1) (cl_marshal sample_lib (a_gateway sample_app))) (\<lambda>_. Cmd (SETNX activeConfigKey ''1'') (\<lambda>_. Ret ()))"
    by (simp add: Start_def f)
  show ?thesis
    by (rule exI, rule exI, rule conjI, rule s)
       (auto simp: deleteConfig_def p delete_tx_def close_tx_def get_reply_def exec_result_def audit_def mem_server_def
         empty_mem_def touch_def unlock_def f)
qed

subsection \<open>API keys\<close>

text \<open>
  The data plane's Redis client on the same server, and what the life of a key relies on: a
  command that is answered without an error has its effect on the hash of the key, and
  \<open>HGETALL\<close> reads that hash.
\<close>

definition client_of :: "'w redis_server \<Rightarrow> nat \<Rightarrow> 'w redis_client" where
  "client_of S c = \<lparr>
     rc_hgetall = (\<lambda>k w. case rs_exec S c (HGETALL k) w of (RHash h, w) \<Rightarrow> (Some h, w) | (_, w) \<Rightarrow> (None, w)),
     rc_eval = (\<lambda>k a w. (None, w)),
     rc_get = (\<lambda>k w. case rs_exec S c (GET k) w of (RBytes v, w) \<Rightarrow> (Some v, w) | (_, w) \<Rightarrow> (None, w)),
     rc_set = (\<lambda>k v d w. case rs_exec S c (SET k v d) w of (ROk, w) \<Rightarrow> (True, w) | (_, w) \<Rightarrow> (False, w))\<rparr>"

definition key_server :: "'w redis_server \<Rightarrow> string \<Rightarrow> bool" where
  "key_server S k \<longleftrightarrow> (\<forall>c cmd w r w'. rs_exec S c cmd w = (r, w') \<longrightarrow>
     (cmd = HGETALL k \<longrightarrow> (\<forall>h. r = RHash h \<longrightarrow> map_of h = map_of (hash_of (rs_view S w k)))) \<and>
     ((\<forall>cs. cmd \<noteq> EXEC cs) \<and> (r \<noteq> RErr \<or> \<not> writes_key cmd k) \<longrightarrow> rs_view S w' k = effect cmd (rs_view S w) k))"

lemma map_of_merge_fields: "map_of (merge_fields h fs) = map_of h ++ map_of (rev fs)"
  unfolding merge_fields_def
proof (induction fs arbitrary: h)
  case Nil
  then show ?case by simp
next
  case (Cons fv fs)
  then show ?case by (cases fv) (simp add: map_add_assoc del: fun_upd_apply)
qed

lemma split_joined_scopes:
  assumes "\<forall>s \<in> set scopes. s \<noteq> [] \<and> (\<forall>c \<in> set s. \<not> is_space c \<and> c \<noteq> CHR '','')"
  shows "splitSpace (join scopes '' '') = scopes"
proof -
  have "CHR '','' \<notin> set (join scopes '' '')" using assms by (induction scopes "'' ''" rule: join.induct) auto
  then have "map (\<lambda>c. if c = CHR '','' then CHR '' '' else c) (join scopes '' '') = join scopes '' ''"
    by (intro map_idI) auto
  then have "replace_all (join scopes '' '') '','' '' '' = join scopes '' ''"
    by (simp add: replace_char_is_replace_all replace_char_def)
  with assms show ?thesis by (simp add: splitSpace_def fields_join)
qed

lemma audit_keeps_key:
  "key_server S (api_key_redis_key i) \<Longrightarrow> rs_exec S c (XADD auditKey fs) a = (r, b) \<Longrightarrow>
    rs_view S b (api_key_redis_key i) = rs_view S a (api_key_redis_key i)"
  by (auto simp: key_server_def writes_key_def auditKey_def api_key_redis_key_def)

abbreviation key_fields :: "createAPIKeyRequest \<Rightarrow> string \<Rightarrow> (string \<times> string) list" where
  "key_fields input now \<equiv> [(''name'', ck_name input), (''scopes'', join (ck_scopes input) '' ''), (''revoked'', ''0''), (''created_at'', now)]"

lemma created_key_record:
  fixes S :: "'w redis_server" and L :: control_lib and token :: string
  defines "k \<equiv> api_key_redis_key (sha256Text (cl_sha L) (''vgk_'' @ token))"
  assumes ks: "key_server S k" and input: "cl_decode_key L (request_reader request) = Inr input"
    and created: "run S c (createAPIKey L (Some token) now request identity) mg w = (wr, mg1, w1)" "w_code wr = 201"
  shows "ck_name input \<noteq> []" and "rs_view S w1 k = Some (Hash (merge_fields (hash_of (rs_view S w k)) (key_fields input now)))"
proof -
  obtain r wa where h: "rs_exec S c (HSET k (key_fields input now)) w = (r, wa)" by (metis surj_pair)
  from created input have "ck_name input \<noteq> []" and rok: "r \<noteq> RErr" and "\<exists>fs r. rs_exec S c (XADD auditKey fs) wa = (r, w1)"
    using h by (auto simp: k_def createAPIKey_def decodeJSON_def Let_def audit_def trim_space_def trim_func_def trim_right_def
        split: if_splits prod.splits)
  then obtain fs r2 where name: "ck_name input \<noteq> []" and x: "rs_exec S c (XADD auditKey fs) wa = (r2, w1)" by blast
  from audit_keeps_key [OF ks [unfolded k_def] x] ks h rok
  show "rs_view S w1 k = Some (Hash (merge_fields (hash_of (rs_view S w k)) (key_fields input now)))"
    by (auto simp: key_server_def k_def)
  show "ck_name input \<noteq> []" by (fact name)
qed

lemma revoked_key_record:
  assumes ks: "key_server S (api_key_redis_key i)" and v: "rs_view S w (api_key_redis_key i) = Some (Hash h0)"
    and revoked: "run S c (revokeAPIKey now i request identity) mg w = (wr, mg1, w1)" "w_code wr = 200"
  shows "rs_view S w1 (api_key_redis_key i) = Some (Hash (merge_fields h0 [(''revoked'', ''1''), (''revoked_at'', now)]))"
proof -
  let ?k = "api_key_redis_key i"
  obtain n wb where e: "rs_exec S c (EXISTS ?k) w = (n, wb)" by (metis surj_pair)
  obtain r wc where h: "rs_exec S c (HSET ?k [(''revoked'', ''1''), (''revoked_at'', now)]) wb = (r, wc)" by (metis surj_pair)
  from revoked e h obtain fs r2 where r: "r \<noteq> RErr" and x: "rs_exec S c (XADD auditKey fs) wc = (r2, w1)"
    by (auto simp: revokeAPIKey_def audit_def split: if_splits prod.splits reply.splits)
  have "rs_view S wb ?k = rs_view S w ?k" using ks e by (auto simp: key_server_def writes_key_def)
  with ks h r v audit_keeps_key [OF ks x] show ?thesis by (auto simp: key_server_def)
qed

text \<open>
  C6: The life of a dynamic API key across both planes. A key created with clean scope names is
  accepted at once by every data-plane route with API-key authentication, as the principal with
  the given name and exactly the given scopes, when Redis answers; and once its revocation was
  answered with 200 it is refused, whatever Redis answers. (No configured key has its digest.)
\<close>

theorem api_key_life_cycle:
  assumes ks: "key_server S (api_key_redis_key (sha256Text (cl_sha L) (''vgk_'' @ token)))"
    and input: "cl_decode_key L (request_reader request) = Inr input"
    and clean: "\<forall>s \<in> set (ck_scopes input). s \<noteq> [] \<and> (\<forall>c \<in> set s. \<not> is_space c \<and> c \<noteq> CHR '','')"
    and created: "run S c (createAPIKey L (Some token) now request identity) mg w = (wr, mg1, w1)" "w_code wr = 201"
    and revoked: "run S c (revokeAPIKey now' (sha256Text (cl_sha L) (''vgk_'' @ token)) request' identity') mg' w1 = (wr', mg2, w2)" "w_code wr' = 200"
    and data: "header_get (q_header q) ''X-API-Key'' = ''vgk_'' @ token" "find (\<lambda>e. cl_sha L (''vgk_'' @ token) = fst e) (ca_keys auth) = None"
  shows "(\<forall>h w'. rs_exec S d (HGETALL (api_key_redis_key (sha256Text (cl_sha L) (''vgk_'' @ token)))) w1 = (RHash h, w') \<longrightarrow>
      fst (authenticate_api_key (cl_sha L) (Some (client_of S d)) auth q w1) =
        Inr \<lparr>pr_id = ck_name input, pr_scopes = set (ck_scopes input)\<rparr>) \<and>
    (\<forall>p. fst (authenticate_api_key (cl_sha L) (Some (client_of S d)) auth q w2) \<noteq> Inr p)"
proof -
  let ?k = "api_key_redis_key (sha256Text (cl_sha L) (''vgk_'' @ token))"
  note name = created_key_record(1) [OF ks input created] and v1 = created_key_record(2) [OF ks input created]
  note v2 = revoked_key_record [OF ks v1 revoked]
  have sc: "scope_set (ck_scopes input) = set (ck_scopes input)" using clean by (auto simp: scope_set_def)
  have key: "api_key_redis_key (hex_encode (cl_sha L (''vgk_'' @ token))) = ?k" by (simp add: sha256Text_def)
  have read: "map_of hh = map_of (hash_of (rs_view S a ?k))" if "rs_exec S d (HGETALL ?k) a = (RHash hh, b)" for hh a b
    using ks that by (auto simp: key_server_def)
  show ?thesis
  proof (intro conjI allI impI)
    fix hh w'
    assume x: "rs_exec S d (HGETALL ?k) w1 = (RHash hh, w')"
    from read [OF x] v1 have m: "map_of hh = map_of (hash_of (rs_view S w ?k)) ++ map_of (rev (key_fields input now))"
      by (simp add: map_of_merge_fields)
    then have "redis_principal hh = Some \<lparr>pr_id = ck_name input, pr_scopes = set (ck_scopes input)\<rparr>"
      using name clean by (simp add: redis_principal_def lookup_or_def split_joined_scopes sc)
    with x data key show "fst (authenticate_api_key (cl_sha L) (Some (client_of S d)) auth q w1) =
        Inr \<lparr>pr_id = ck_name input, pr_scopes = set (ck_scopes input)\<rparr>"
      by (simp add: authenticate_api_key_def client_of_def Let_def)
  next
    fix p
    obtain y w' where x: "rs_exec S d (HGETALL ?k) w2 = (y, w')" by (metis surj_pair)
    have "redis_principal hh = None" if "y = RHash hh" for hh
      using read [of w2 hh w'] x that v2 by (simp add: map_of_merge_fields redis_principal_def lookup_or_def)
    with x data key show "fst (authenticate_api_key (cl_sha L) (Some (client_of S d)) auth q w2) \<noteq> Inr p"
      by (cases y) (auto simp: authenticate_api_key_def client_of_def Let_def)
  qed
qed

lemma key_server_mem: "key_server mem_server k"
  unfolding key_server_def
proof (intro allI impI)
  fix c cmd w r w'
  assume "rs_exec mem_server c cmd w = (r, w')"
  then have e: "mem_exec c cmd w = (r, w')" by (simp add: mem_server_def)
  have "(\<forall>cs. cmd \<noteq> EXEC cs) \<longrightarrow> mm_keys w' k = effect cmd (mm_keys w) k"
  proof (cases "single_write cmd")
    case True
    with mem_write [OF e] show ?thesis by simp
  next
    case False
    with e show ?thesis by (cases cmd) (auto simp: single_write_def unlock_def)
  qed
  moreover have "cmd = HGETALL k \<longrightarrow> (\<forall>h. r = RHash h \<longrightarrow> h = hash_of (mm_keys w k))" using e by auto
  ultimately show "(cmd = HGETALL k \<longrightarrow> (\<forall>h. r = RHash h \<longrightarrow> map_of h = map_of (hash_of (rs_view mem_server w k)))) \<and>
     ((\<forall>cs. cmd \<noteq> EXEC cs) \<and> (r \<noteq> RErr \<or> \<not> writes_key cmd k) \<longrightarrow> rs_view mem_server w' k = effect cmd (rs_view mem_server w) k)"
    by (simp add: mem_server_def)
qed

definition sample_secret :: string where
  "sample_secret = replicate 28 (CHR ''a'')"

theorem api_key_life_cycle_witness:
  "\<exists>w1 w2. fst (authenticate_api_key rev (Some (client_of mem_server 1)) sample_key_auth
       (sample_request\<lparr>q_header := [(''X-Api-Key'', [''vgk_'' @ sample_secret])]\<rparr>) w1) =
      Inr \<lparr>pr_id = ''ci'', pr_scopes = {''users.read''}\<rparr> \<and>
     (\<forall>p. fst (authenticate_api_key rev (Some (client_of mem_server 1)) sample_key_auth
       (sample_request\<lparr>q_header := [(''X-Api-Key'', [''vgk_'' @ sample_secret])]\<rparr>) w2) \<noteq> Inr p)"
proof -
  let ?id = "sha256Text (cl_sha sample_lib) (''vgk_'' @ sample_secret)"
  let ?q = "sample_request\<lparr>q_header := [(''X-Api-Key'', [''vgk_'' @ sample_secret])]\<rparr>"
  let ?c = "run mem_server 0 (createAPIKey sample_lib (Some sample_secret) ''now'' admin_request sample_admin) sample_manager sample_mem"
  let ?r = "run mem_server 0 (revokeAPIKey ''later'' ?id admin_request sample_admin) sample_manager (snd (snd ?c))"
  have in1: "cl_decode_key sample_lib (request_reader admin_request) = Inr \<lparr>ck_name = ''ci'', ck_scopes = [''users.read'']\<rparr>"
    by (simp add: sample_lib_def)
  have cl: "\<forall>s \<in> set (ck_scopes \<lparr>ck_name = ''ci'', ck_scopes = [''users.read'']\<rparr>). s \<noteq> [] \<and> (\<forall>c \<in> set s. \<not> is_space c \<and> c \<noteq> CHR '','')"
    by code_simp
  have c: "?c = (fst ?c, fst (snd ?c), snd (snd ?c))" "w_code (fst ?c) = 201" by simp code_simp
  have r: "?r = (fst ?r, fst (snd ?r), snd (snd ?r))" "w_code (fst ?r) = 200" by simp code_simp
  have d: "header_get (q_header ?q) ''X-API-Key'' = ''vgk_'' @ sample_secret"
    "find (\<lambda>e. cl_sha sample_lib (''vgk_'' @ sample_secret) = fst e) (ca_keys sample_key_auth) = None" by code_simp+
  have g: "\<exists>h. rs_exec mem_server 1 (HGETALL (api_key_redis_key ?id)) (snd (snd ?c)) = (RHash h, snd (snd ?c))"
    by (simp add: mem_server_def)
  have sha: "cl_sha sample_lib = rev" by (simp add: sample_lib_def)
  from api_key_life_cycle [OF key_server_mem in1 cl c r d, of 1] g
  show ?thesis unfolding sha by auto
qed

end
