(* ===== verification/Tokens.thy ===== *)
theory Tokens
  imports Go_Strings
begin

text \<open>
  \<open>base64.RawURLEncoding\<close>, which both programs use for random tokens and for PKCE
  challenges: the code sends tokens in URLs and cookies and compares challenges as text, so it
  relies on the encoding using only URL-safe characters and being injective.
\<close>

section \<open>Definitions\<close>

definition b64_alphabet :: string where
  "b64_alphabet = ''ABCDEFGHIJKLMNOPQRSTUVWXYZabcdefghijklmnopqrstuvwxyz0123456789-_''"

fun b64_sextets :: "nat list \<Rightarrow> nat list" where
  "b64_sextets [] = []"
| "b64_sextets [a] = [a div 4, a mod 4 * 16]"
| "b64_sextets [a, b] = [a div 4, a mod 4 * 16 + b div 16, b mod 16 * 4]"
| "b64_sextets (a # b # c # cs) =
     [a div 4, a mod 4 * 16 + b div 16, b mod 16 * 4 + c div 64, c mod 64] @ b64_sextets cs"

definition raw_url_encode :: "bytes \<Rightarrow> string" where
  "raw_url_encode data = map (nth b64_alphabet) (b64_sextets (map of_char data))"

section \<open>Facts\<close>

lemma b64_alphabet_facts: "length b64_alphabet = 64" "distinct b64_alphabet"
  by code_simp+

lemma b64_sextets_range: "\<forall>n \<in> set ns. n < 256 \<Longrightarrow> \<forall>x \<in> set (b64_sextets ns). x < 64"
  by (induction ns rule: b64_sextets.induct) auto

lemma b64_sextets_length: "length (b64_sextets ns) = (4 * length ns + 2) div 3"
  by (induction ns rule: b64_sextets.induct) auto

lemma b64_digit:
  fixes a b x y k :: nat
  assumes "a * k + x = b * k + y" and "x < k" and "y < k"
  shows "a = b \<and> x = y"
proof -
  have "(u * k + v) div k = u" if "v < k" for u v :: nat
    using that by (cases "k = 0") (simp_all add: add.commute)
  with assms have "a = b" by metis
  with assms(1) show ?thesis by simp
qed

lemma div_mod_eq: "(a :: nat) div k = b div k \<Longrightarrow> a mod k = b mod k \<Longrightarrow> a = b"
  by (metis div_mult_mod_eq)

lemma b64_second:
  fixes a b a' b' :: nat
  assumes "a mod 4 * 16 + b div 16 = a' mod 4 * 16 + b' div 16" and "b < 256" and "b' < 256"
  shows "a mod 4 = a' mod 4" and "b div 16 = b' div 16"
  using b64_digit [OF assms(1)] assms by (auto simp: less_mult_imp_div_less)

lemma b64_third:
  fixes b c b' c' :: nat
  assumes "b mod 16 * 4 + c div 64 = b' mod 16 * 4 + c' div 64" and "c < 256" and "c' < 256"
  shows "b mod 16 = b' mod 16" and "c div 64 = c' div 64"
  using b64_digit [OF assms(1)] assms by (auto simp: less_mult_imp_div_less)

lemma b64_sextets_inj:
  assumes "b64_sextets ns = b64_sextets ms" and "length ns = length ms"
    and "\<forall>n \<in> set ns. n < 256" and "\<forall>n \<in> set ms. n < 256"
  shows "ns = ms"
  using assms
proof (induction ns arbitrary: ms rule: b64_sextets.induct)
  case 1
  then show ?case by simp
next
  case (2 a)
  then obtain a' where "ms = [a']" by (cases ms) auto
  with 2 show ?case by (auto intro: div_mod_eq [where k = 4])
next
  case (3 a b)
  then obtain a' b' where ms: "ms = [a', b']" by (cases ms; cases "tl ms") auto
  with 3 have "a mod 4 = a' mod 4" "b div 16 = b' div 16" by (auto dest: b64_second)
  with 3 ms show ?case by (auto intro: div_mod_eq [where k = 4] div_mod_eq [where k = 16])
next
  case (4 a b c cs)
  then obtain a' b' c' cs' where ms: "ms = a' # b' # c' # cs'"
    by (cases ms; cases "tl ms"; cases "tl (tl ms)") auto
  with 4 have "a mod 4 = a' mod 4" "b div 16 = b' div 16" "b mod 16 = b' mod 16" "c div 64 = c' div 64"
    by (auto dest: b64_second b64_third)
  with 4 ms show ?case
    by (auto intro: div_mod_eq [where k = 4] div_mod_eq [where k = 16] div_mod_eq [where k = 64])
qed

lemma of_char_range: "\<forall>n \<in> set (map (of_char :: char \<Rightarrow> nat) cs). n < 256"
  by auto

lemma raw_url_encode_length: "length (raw_url_encode data) = (4 * length data + 2) div 3"
  by (simp add: raw_url_encode_def b64_sextets_length)

lemma raw_url_encode_safe: "set (raw_url_encode data) \<subseteq> set b64_alphabet"
  using b64_sextets_range [OF of_char_range, of data] by (auto simp: raw_url_encode_def b64_alphabet_facts)

lemma raw_url_encode_inj:
  assumes "raw_url_encode x = raw_url_encode y" and "length x = length y"
  shows "x = y"
proof -
  let ?s = "\<lambda>d. b64_sextets (map (of_char :: char \<Rightarrow> nat) d)"
  have "inj_on (nth b64_alphabet) (set (?s x) \<union> set (?s y))"
    using b64_sextets_range [OF of_char_range] by (intro inj_on_nth b64_alphabet_facts) (auto simp: b64_alphabet_facts)
  with assms(1) have "?s x = ?s y" unfolding raw_url_encode_def by (rule map_inj_on)
  then have "map (of_char :: char \<Rightarrow> nat) x = map of_char y"
    by (rule b64_sextets_inj) (use assms(2) of_char_range in \<open>simp_all only: length_map\<close>)
  then show ?thesis by (rule map_injective) (simp add: inj_def)
qed

end
