(* ===== verification/Admin_Session.thy ===== *)
theory Admin_Session
  imports Control_Theorems Tokens "HOL-Library.Countable"
begin

text \<open>
  The sessions of administrators, from \<open>control.go\<close>: \<open>login\<close>, \<open>callback\<close>, \<open>logout\<close>,
  \<open>initOIDC\<close>, \<open>setCookie\<close> and \<open>randomToken\<close>. The state of a control-plane process is its
  router manager and the OAuth configuration that \<open>initOIDC\<close> sets once.

  Parameters, in \<open>oidc_lib\<close>: the answers of the OpenID provider and of the libraries
  go-oidc and oauth2, URL and query parsing, and the text of a cookie. Random bytes are
  arguments, \<open>None\<close> being a failed \<open>rand.Read\<close>; the PKCE verifier of the oauth2 library
  is an argument too.
\<close>

section \<open>Definitions\<close>

record oauth_config =
  oc_issuer :: string         \<comment> \<open>of the discovered provider\<close>
  oc_client_id :: string
  oc_client_secret :: string
  oc_redirect_url :: string
  oc_scopes :: "string list"

record oauth_token =
  ot_id_token :: "string option"  \<comment> \<open>\<open>token.Extra("id_token").(string)\<close>\<close>
  ot_scope :: "string option"

record id_claims =
  ic_subject :: string
  ic_scope :: string

record cookie =
  co_name :: string
  co_value :: string
  co_path :: string
  co_http_only :: bool
  co_secure :: bool
  co_same_site :: string
  co_max_age :: int

record oidc_lib =
  ol_url :: url_ops
  ol_query :: "http_request \<Rightarrow> string \<Rightarrow> string"   \<comment> \<open>\<open>request.URL.Query().Get\<close>\<close>
  ol_cookie_text :: "cookie \<Rightarrow> string"              \<comment> \<open>\<open>cookie.String()\<close>\<close>
  ol_discover :: "string \<Rightarrow> bool"                   \<comment> \<open>\<open>oidc.NewProvider\<close> succeeds\<close>
  ol_auth_url :: "oauth_config \<Rightarrow> string \<Rightarrow> string \<Rightarrow> string"
  ol_exchange :: "oauth_config \<Rightarrow> string \<Rightarrow> string \<Rightarrow> oauth_token option"
  ol_verify :: "oauth_config \<Rightarrow> string \<Rightarrow> bytes option"  \<comment> \<open>payload of a verified ID token\<close>
  ol_claims :: "bytes \<Rightarrow> id_claims option"

record 'k control =
  cp_manager :: "'k manager"
  cp_oauth :: "oauth_config option"

definition randomToken :: "bytes option \<Rightarrow> string option" where
  "randomToken data = map_option raw_url_encode data"

definition adminCookie :: string where
  "adminCookie = ''vial_gateway_admin''"

definition whole_seconds :: "duration \<Rightarrow> int" where
  "whole_seconds ttl = sgn ttl * (\<bar>ttl\<bar> div second)"
  \<comment> \<open>\<open>int(ttl.Seconds())\<close>, for durations whose seconds a float64 represents exactly\<close>

definition setCookie :: "oidc_lib \<Rightarrow> adminConfig \<Rightarrow> string \<Rightarrow> duration \<Rightarrow> writer \<Rightarrow> writer" where
  "setCookie OI config val ttl w =
     (let secure = (case uo_parse (ol_url OI) (ad_external_url config) of
            None \<Rightarrow> False | Some external \<Rightarrow> u_scheme external = ''https'');
          text = ol_cookie_text OI \<lparr>co_name = adminCookie, co_value = val, co_path = ''/admin'', co_http_only = True,
            co_secure = secure, co_same_site = ''Lax'', co_max_age = whole_seconds ttl\<rparr>
      in if text \<noteq> [] then add_header ''Set-Cookie'' text w else w)"

definition oauth_of :: "adminConfig \<Rightarrow> oauth_config" where
  "oauth_of config = \<lparr>oc_issuer = ad_oidc_issuer config, oc_client_id = ad_oidc_client_id config,
     oc_client_secret = ad_oidc_client_secret config,
     oc_redirect_url = trim_suffix (ad_external_url config) ''/'' @ ''/admin/callback'',
     oc_scopes = ''openid'' # ad_oidc_scopes config\<rparr>"

definition init_oidc :: "oidc_lib \<Rightarrow> adminConfig \<Rightarrow> 'k control \<Rightarrow> 'k control" where
  "init_oidc OI config cp =
     (if cp_oauth cp = None \<and> ol_discover OI (ad_oidc_issuer config) then cp\<lparr>cp_oauth := Some (oauth_of config)\<rparr> else cp)"

definition initOIDC :: "oidc_lib \<Rightarrow> adminConfig \<Rightarrow> (oauth_config option \<Rightarrow> ('k control, 'r) prog) \<Rightarrow> ('k control, 'r) prog" where
  "initOIDC OI config k = Local (init_oidc OI config) (\<lambda>cp. k (cp_oauth (init_oidc OI config cp)))"
  \<comment> \<open>under \<open>oidcMu\<close>: one step of the process; \<open>None\<close> is the error\<close>

definition minute :: duration where "minute = 60 * second"

definition login_host :: "oidc_lib \<Rightarrow> adminConfig \<Rightarrow> http_request \<Rightarrow> string option" where
  "login_host OI config request = (case uo_parse (ol_url OI) (ad_external_url config) of
      None \<Rightarrow> None
    | Some external \<Rightarrow>
        if u_host external \<noteq> [] \<and> q_host request \<noteq> u_host external
        then Some (uo_string (ol_url OI) (external\<lparr>u_path := ''/admin/login'', u_raw_query := [], u_fragment := []\<rparr>))
        else None)"

definition pending_session :: "string \<Rightarrow> string \<Rightarrow> adminSession" where
  "pending_session state verifier = \<lparr>as_subject = [], as_scopes = [], as_csrf = [], as_state = state, as_verifier = verifier\<rparr>"

definition login :: "control_lib \<Rightarrow> oidc_lib \<Rightarrow> adminConfig \<Rightarrow> bytes option \<Rightarrow> string \<Rightarrow> bytes option \<Rightarrow> http_request
    \<Rightarrow> ('k control, writer) prog" where
  "login L OI config rnd_state verifier rnd_id request = (case login_host OI config request of
      Some location \<Rightarrow> Ret (redirect location new_writer)
    | None \<Rightarrow>
        if ad_oidc_issuer config = [] then fault 404 ''oidc_disabled'' ''OIDC is not configured''
        else initOIDC OI config (\<lambda>oauth. case oauth of
            None \<Rightarrow> fault 503 ''oidc_unavailable'' ''OIDC provider is unavailable''
          | Some oauth \<Rightarrow> (case (randomToken rnd_state, randomToken rnd_id) of
              (Some state, Some session_id) \<Rightarrow>
                Cmd (SET (sessionKeyPrefix @ session_id) (cl_session L (pending_session state verifier)) (10 * minute))
                  (\<lambda>r. if r = RErr then unavailable
                       else Ret (redirect (ol_auth_url OI oauth state verifier) (setCookie OI config session_id (10 * minute) new_writer)))
            | _ \<Rightarrow> fault 500 ''random_failed'' ''Could not initialize OIDC login'')))"

definition id_token_claims :: "oidc_lib \<Rightarrow> oauth_config \<Rightarrow> oauth_token \<Rightarrow> string + id_claims" where
  "id_token_claims OI oauth token = (case ot_id_token token of
      None \<Rightarrow> Inl ''OIDC ID token is missing''
    | Some raw \<Rightarrow> (case ol_verify OI oauth raw of
          None \<Rightarrow> Inl ''OIDC ID token is invalid''
        | Some payload \<Rightarrow> (case ol_claims OI payload of
              None \<Rightarrow> Inl ''OIDC claims are invalid''
            | Some claims \<Rightarrow> Inr claims)))"

definition granted_scopes :: "id_claims \<Rightarrow> oauth_token \<Rightarrow> string list" where
  "granted_scopes claims token =
     (let scopes = splitSpace (ic_scope claims) in
      if scopes = [] then (case ot_scope token of Some granted \<Rightarrow> splitSpace granted | None \<Rightarrow> scopes) else scopes)"

definition session_ttl :: "adminConfig \<Rightarrow> duration" where
  "session_ttl config = (if ad_session_ttl config \<le> 0 then 8 * 60 * minute else ad_session_ttl config)"

definition create_session :: "control_lib \<Rightarrow> oidc_lib \<Rightarrow> adminConfig \<Rightarrow> bytes option \<Rightarrow> bytes option \<Rightarrow> string
    \<Rightarrow> string \<Rightarrow> string list \<Rightarrow> ('m, writer) prog" where
  "create_session L OI config rnd_csrf rnd_id now subject scopes = (case (randomToken rnd_csrf, randomToken rnd_id) of
      (Some csrf, Some session_id) \<Rightarrow>
        Cmd (SET (sessionKeyPrefix @ session_id)
              (cl_session L \<lparr>as_subject = subject, as_scopes = scopes, as_csrf = csrf, as_state = [], as_verifier = []\<rparr>)
              (session_ttl config))
          (\<lambda>r. if r = RErr then unavailable
               else audit now subject ''session.login'' []
                 (Ret (redirect ''/admin'' (setCookie OI config session_id (session_ttl config) new_writer))))
    | _ \<Rightarrow> fault 500 ''random_failed'' ''Could not create admin session'')"

definition callback :: "control_lib \<Rightarrow> oidc_lib \<Rightarrow> adminConfig \<Rightarrow> bytes option \<Rightarrow> bytes option \<Rightarrow> string \<Rightarrow> http_request
    \<Rightarrow> ('k control, writer) prog" where
  "callback L OI config rnd_csrf rnd_id now request = initOIDC OI config (\<lambda>oauth. case oauth of
      None \<Rightarrow> fault 503 ''oidc_unavailable'' ''OIDC provider is unavailable''
    | Some oauth \<Rightarrow> (case cl_cookie L request of
          None \<Rightarrow> fault 400 ''oidc_state'' ''OIDC state is missing''
        | Some val \<Rightarrow> Cmd (GETDEL (sessionKeyPrefix @ val)) (\<lambda>r. case r of
              RBytes data \<Rightarrow> (case cl_unsession L data of
                  None \<Rightarrow> fault 400 ''oidc_state'' ''OIDC state is invalid''
                | Some pending \<Rightarrow>
                    if ol_query OI request ''state'' \<noteq> as_state pending
                    then fault 400 ''oidc_state'' ''OIDC state is invalid''
                    else (case ol_exchange OI oauth (ol_query OI request ''code'') (as_verifier pending) of
                        None \<Rightarrow> fault 401 ''oidc_exchange'' ''OIDC authorization failed''
                      | Some token \<Rightarrow> (case id_token_claims OI oauth token of
                            Inl msg \<Rightarrow> fault 401 ''oidc_token'' msg
                          | Inr claims \<Rightarrow>
                              if ''gateway.admin'' \<notin> scope_set (granted_scopes claims token)
                              then fault 403 ''insufficient_scope'' ''gateway.admin scope is required''
                              else create_session L OI config rnd_csrf rnd_id now (ic_subject claims) (granted_scopes claims token))))
            | _ \<Rightarrow> fault 400 ''oidc_state'' ''OIDC state expired'')))"

definition logout :: "control_lib \<Rightarrow> oidc_lib \<Rightarrow> adminConfig \<Rightarrow> string \<Rightarrow> http_request \<Rightarrow> adminIdentity \<Rightarrow> ('m, writer) prog" where
  "logout L OI config now request identity =
     (let finish = audit now (ai_subject identity) ''session.logout'' []
            (Ret (redirect ''/admin'' (setCookie OI config [] (- 60 * minute) new_writer)))
      in case cl_cookie L request of
           None \<Rightarrow> finish
         | Some val \<Rightarrow> Cmd (DEL (sessionKeyPrefix @ val)) (\<lambda>_. finish))"

text \<open>A handler over the manager of the process, as a handler of the process.\<close>

primrec on_manager :: "('k manager, 'r) prog \<Rightarrow> ('k control, 'r) prog" where
  "on_manager (Ret r) = Ret r"
| "on_manager (Cmd c k) = Cmd c (\<lambda>r. on_manager (k r))"
| "on_manager (Local u k) = Local (\<lambda>cp. cp\<lparr>cp_manager := u (cp_manager cp)\<rparr>) (\<lambda>cp. on_manager (k (cp_manager cp)))"

section \<open>Facts\<close>

lemma run_on_manager:
  "run S c (on_manager p) cp w = (case run S c p (cp_manager cp) w of (r, mg, w) \<Rightarrow> (r, cp\<lparr>cp_manager := mg\<rparr>, w))"
  by (induction p arbitrary: cp w) (auto split: prod.split)

lemma safe_on_manager [simp]: "safe p K \<Longrightarrow> safe (on_manager p) K"
  by (induction p arbitrary: K) auto

lemma run_initOIDC: "run S c (initOIDC OI config k) cp w =
    run S c (k (cp_oauth (init_oidc OI config cp))) (init_oidc OI config cp) w"
  by (simp add: initOIDC_def)

lemma init_oidc_manager [simp]: "cp_manager (init_oidc OI config cp) = cp_manager cp"
  by (simp add: init_oidc_def)

lemma safe_initOIDC: "(\<And>oa K. safe (k oa) K) \<Longrightarrow> safe (initOIDC OI config k) K"
  by (simp add: initOIDC_def)

lemma safe_login: "safe (login L OI config a v b request) K"
  unfolding login_def
  by (auto split: option.split simp del: safe.simps(2) intro!: safe_initOIDC) auto

lemma safe_callback: "safe (callback L OI config a b now request) K"
  unfolding callback_def create_session_def
  by (auto split: option.split reply.split sum.split intro!: safe_initOIDC)

lemma safe_logout: "safe (logout L OI config now request i) K"
  by (auto simp: logout_def Let_def split: option.split)

lemma fault_sets_no_cookie: "header_get (w_header (write_fault s code msg new_writer)) ''Set-Cookie'' = []"
proof -
  have "canonical_key ''Set-Cookie'' \<noteq> canonical_key ''Content-Type''" "canonical_key ''Set-Cookie'' \<noteq> canonical_key ''Cache-Control''"
    "canonical_key ''Set-Cookie'' \<noteq> canonical_key ''X-Content-Type-Options''" by code_simp+
  then show ?thesis
    by (simp add: write_fault_def Let_def set_header_def write_header_def write_chunk_def new_writer_def hdr_simps)
       (simp add: header_get_def)
qed

lemma setCookie_code [simp]: "w_code (setCookie OI config v ttl w) = w_code w"
  by (simp add: setCookie_def Let_def add_header_def)

lemma redirect_code [simp]: "w_code w = 0 \<Longrightarrow> w_code (redirect location w) = 302"
  by (simp add: redirect_def write_header_def set_header_def)

lemma run_create_session:
  assumes "run S c (create_session L OI config rnd_csrf rnd_id now subject scopes) cp w = (wr, cp', w')"
  shows "cp' = cp \<and> (w_code wr \<in> {500, 503} \<and> header_get (w_header wr) ''Set-Cookie'' = [] \<or>
     w_code wr = 302 \<and> (\<exists>csrf sid r wa fs r'. randomToken rnd_csrf = Some csrf \<and> randomToken rnd_id = Some sid \<and>
       rs_exec S c (SET (sessionKeyPrefix @ sid)
         (cl_session L \<lparr>as_subject = subject, as_scopes = scopes, as_csrf = csrf, as_state = [], as_verifier = []\<rparr>)
         (session_ttl config)) w = (r, wa) \<and> r \<noteq> RErr \<and> rs_exec S c (XADD auditKey fs) wa = (r', w')))"
  using assms unfolding create_session_def
  by (auto simp: audit_def fault_sets_no_cookie split: option.splits prod.splits if_splits)

definition admitted :: "control_lib \<Rightarrow> oidc_lib \<Rightarrow> oauth_config \<Rightarrow> http_request \<Rightarrow> bytes \<Rightarrow> id_claims \<Rightarrow> oauth_token \<Rightarrow> bool" where
  "admitted L OI oauth request data claims token \<longleftrightarrow>
     (\<exists>pending. cl_unsession L data = Some pending \<and> ol_query OI request ''state'' = as_state pending \<and>
        ol_exchange OI oauth (ol_query OI request ''code'') (as_verifier pending) = Some token) \<and>
     id_token_claims OI oauth token = Inr claims \<and> ''gateway.admin'' \<in> scope_set (granted_scopes claims token)"

lemma run_callback:
  assumes "run S c (callback L OI config rnd_csrf rnd_id now request) cp w = (wr, cp', w')"
  shows "cp' = init_oidc OI config cp \<and>
    (w_code wr \<in> {400, 401, 403, 500, 503} \<and> header_get (w_header wr) ''Set-Cookie'' = [] \<or>
     w_code wr = 302 \<and> (\<exists>oauth val data claims token wa. cp_oauth cp' = Some oauth \<and> cl_cookie L request = Some val \<and>
       rs_exec S c (GETDEL (sessionKeyPrefix @ val)) w = (RBytes data, wa) \<and> admitted L OI oauth request data claims token \<and>
       run S c (create_session L OI config rnd_csrf rnd_id now (ic_subject claims) (granted_scopes claims token)) cp' wa = (wr, cp', w')))"
proof -
  let ?cp = "init_oidc OI config cp"
  let ?create = "\<lambda>claims token wa. run S c (create_session L OI config rnd_csrf rnd_id now (ic_subject claims) (granted_scopes claims token)) ?cp wa"
  obtain r wa where g: "\<And>val. cl_cookie L request = Some val \<Longrightarrow> rs_exec S c (GETDEL (sessionKeyPrefix @ val)) w = (r, wa)"
    by (cases "cl_cookie L request") (auto, metis surj_pair)
  from assms consider "cp' = ?cp" "w_code wr \<in> {400, 401, 403, 500, 503}" "header_get (w_header wr) ''Set-Cookie'' = []"
    | oauth val data claims token where "cp_oauth ?cp = Some oauth" "cl_cookie L request = Some val" "r = RBytes data"
        "admitted L OI oauth request data claims token" "?create claims token wa = (wr, cp', w')"
    unfolding callback_def run_initOIDC admitted_def
    by (auto simp: fault_sets_no_cookie g split: option.splits reply.splits sum.splits if_splits)
  then show ?thesis
  proof cases
    case 2
    with run_create_session [OF 2(5)] g [OF 2(2)] show ?thesis by (metis insert_iff)
  qed simp
qed

definition refuse_login :: "adminConfig \<Rightarrow> http_request \<Rightarrow> writer" where
  "refuse_login config request =
     (if u_path (q_url request) = ''/admin'' \<and> ad_oidc_issuer config \<noteq> [] then redirect ''/admin/login'' new_writer
      else write_fault 401 ''admin_unauthorized'' ''gateway.admin scope is required'' new_writer)"

section \<open>What the sessions rely on\<close>

text \<open>
  Documented behaviour of Redis on session keys, which carry an expiry: a value that is read is
  the value of the key; a command that does not touch the key leaves it alone, unless it expires;
  an acknowledged write has its effect, unless the key has expired since.
\<close>

definition touches :: "redis_cmd \<Rightarrow> string \<Rightarrow> bool" where
  "touches cmd k \<longleftrightarrow> (case cmd of EXEC cs \<Rightarrow> (\<exists>c \<in> set cs. writes_key c k) | _ \<Rightarrow> writes_key cmd k)"

definition session_server :: "'w redis_server \<Rightarrow> bool" where
  "session_server S \<longleftrightarrow> (\<forall>k c cmd w r w'. has_prefix k sessionKeyPrefix \<longrightarrow> rs_exec S c cmd w = (r, w') \<longrightarrow>
     (cmd = GET k \<or> cmd = GETDEL k \<longrightarrow> (\<forall>v. r = RBytes v \<longrightarrow> rs_view S w k = Some (Str v))) \<and>
     (\<not> touches cmd k \<longrightarrow> rs_view S w' k = rs_view S w k \<or> rs_view S w' k = None) \<and>
     (r \<noteq> RErr \<longrightarrow> cmd = DEL k \<or> cmd = GETDEL k \<longrightarrow> rs_view S w' k = None) \<and>
     (\<forall>v d. r \<noteq> RErr \<longrightarrow> cmd = SET k v d \<longrightarrow> rs_view S w' k = Some (Str v) \<or> rs_view S w' k = None))"

text \<open>Commands of any connections that leave a key alone.\<close>

definition quiet :: "'w redis_server \<Rightarrow> string \<Rightarrow> 'w \<Rightarrow> 'w \<Rightarrow> bool" where
  "quiet S k = (\<lambda>w w'. \<exists>c cmd r. rs_exec S c cmd w = (r, w') \<and> \<not> touches cmd k)\<^sup>*\<^sup>*"

lemma session_key [simp]: "has_prefix (sessionKeyPrefix @ x) sessionKeyPrefix"
  by (simp add: has_prefix_iff)

lemma quiet_view:
  assumes "session_server S" and "quiet S (sessionKeyPrefix @ x) w w'"
  shows "rs_view S w' (sessionKeyPrefix @ x) = rs_view S w (sessionKeyPrefix @ x) \<or> rs_view S w' (sessionKeyPrefix @ x) = None"
  using assms(2) unfolding quiet_def
proof (induction rule: rtranclp_induct)
  case (step y z)
  then obtain c cmd r where "rs_exec S c cmd y = (r, z)" "\<not> touches cmd (sessionKeyPrefix @ x)" by blast
  with assms(1) have "rs_view S z (sessionKeyPrefix @ x) = rs_view S y (sessionKeyPrefix @ x) \<or> rs_view S z (sessionKeyPrefix @ x) = None"
    unfolding session_server_def by (metis session_key)
  with step.IH show ?case by auto
qed simp

lemma quiet_step: "rs_exec S c cmd w = (r, w') \<Longrightarrow> \<not> touches cmd k \<Longrightarrow> quiet S k w' w'' \<Longrightarrow> quiet S k w w''"
  unfolding quiet_def by (rule converse_rtranclp_into_rtranclp [where b = w']) auto

lemma audit_touches [simp]: "\<not> touches (XADD auditKey fs) (sessionKeyPrefix @ x)"
  by (simp add: touches_def writes_key_def auditKey_def sessionKeyPrefix_def)

lemma session_read:
  assumes "session_server S" and "rs_exec S c (GET (sessionKeyPrefix @ x)) w = (RBytes v, w')"
  shows "rs_view S w (sessionKeyPrefix @ x) = Some (Str v)"
  using assms unfolding session_server_def by (metis session_key)

lemma protect_session:
  assumes "admin_secret q = []" and "cl_cookie L q = Some sid"
  shows "run S c (protect L config h q) m w = (case rs_exec S c (GET (sessionKeyPrefix @ sid)) w of (r, w1) \<Rightarrow>
     (case r of RBytes data \<Rightarrow> (case cl_unsession L data of
          Some session \<Rightarrow>
            if ''gateway.admin'' \<in> scope_set (as_scopes session) then
              (let i = \<lparr>ai_subject = as_subject session, ai_csrf = as_csrf session, ai_session = True\<rparr> in
               if csrf_ok L i q then run S c (h q i) m w1
               else (Some (write_fault 403 ''csrf_failed'' ''A valid CSRF token is required'' new_writer), m, w1))
            else (Some (refuse_login config q), m, w1)
        | None \<Rightarrow> (Some (refuse_login config q), m, w1))
      | _ \<Rightarrow> (Some (refuse_login config q), m, w1)))"
  using assms unfolding protect_def admin_authenticate_def session_auth_def
  by (auto simp: Let_def refuse_login_def run_lift split: prod.split reply.split option.split)

text \<open>
  The state of a login that has not come back is no session: until the callback, a request
  with its cookie is sent to the login or refused.
\<close>

lemma pending_login_is_no_session:
  assumes S: "session_server S"
    and codec: "\<And>state. cl_unsession L (cl_session L (pending_session state verifier)) = Some (pending_session state verifier)"
    and login: "run S c (login L OI config rnd_state verifier (Some rid) request) cp w = (wr, cp1, w1)"
      "w_code wr = 302" "login_host OI config request = None"
    and later: "quiet S (sessionKeyPrefix @ raw_url_encode rid) w1 w2"
    and q: "admin_secret q = []" "cl_cookie L q = Some (raw_url_encode rid)"
  shows "fst (run S d (protect L config h q) m w2) = Some (refuse_login config q)"
proof -
  from login(1,2) obtain state r where "rs_exec S c (SET (sessionKeyPrefix @ raw_url_encode rid) (cl_session L (pending_session state verifier)) (10 * minute)) w = (r, w1)"
      "r \<noteq> RErr"
    unfolding login_def randomToken_def login(3) option.case run_initOIDC
    by (auto simp: run_initOIDC split: if_splits option.splits prod.splits)
  with S have "rs_view S w1 (sessionKeyPrefix @ raw_url_encode rid) \<in> {Some (Str (cl_session L (pending_session state verifier))), None}"
    unfolding session_server_def by (metis insert_iff session_key)
  with quiet_view [OF S later] have v: "rs_view S w2 (sessionKeyPrefix @ raw_url_encode rid) \<in> {Some (Str (cl_session L (pending_session state verifier))), None}"
    by auto
  obtain r w3 where g: "rs_exec S d (GET (sessionKeyPrefix @ raw_url_encode rid)) w2 = (r, w3)" by (metis surj_pair)
  have "cl_unsession L data = Some (pending_session state verifier)" if "r = RBytes data" for data
    using session_read [OF S, of d] g that v codec by (metis insert_iff option.distinct(1) option.inject rval.inject(1) singletonD)
  then show ?thesis
    unfolding protect_session [OF q] by (cases r) (auto simp: g pending_session_def scope_set_def)
qed


text \<open>
  C8: The state of a login is good for one callback. Once a callback has created a session from
  it, every further callback with the same cookie is refused with 400 (or 503 when the provider
  is unreachable) and sets no cookie, whatever the clients of Redis did in between to other keys.
  (The new session has another identifier than the login.)
\<close>

theorem login_state_is_single_use:
  assumes S: "session_server S" and cookie: "cl_cookie L q = Some val" "cl_cookie L q' = Some val"
    and first: "run S c (callback L OI config rnd_csrf (Some rid) now q) cp w = (wr, cp1, w1)" "w_code wr = 302"
    and fresh: "raw_url_encode rid \<noteq> val"
    and later: "quiet S (sessionKeyPrefix @ val) w1 w2"
    and second: "run S d (callback L OI config rnd_csrf' rnd_id' now' q') cp2 w2 = (wr', cp3, w3)"
  shows "w_code wr' \<in> {400, 503} \<and> header_get (w_header wr') ''Set-Cookie'' = []"
proof -
  let ?k = "sessionKeyPrefix @ val"
  from run_callback [OF first(1)] first(2) cookie obtain data wa claims token where
    g: "rs_exec S c (GETDEL ?k) w = (RBytes data, wa)" and
    cs: "run S c (create_session L OI config rnd_csrf (Some rid) now (ic_subject claims) (granted_scopes claims token)) cp1 wa = (wr, cp1, w1)"
    by auto
  from run_create_session [OF cs] first(2) obtain v ttl r wb fs r' where
    b: "rs_exec S c (SET (sessionKeyPrefix @ raw_url_encode rid) v ttl) wa = (r, wb)" "rs_exec S c (XADD auditKey fs) wb = (r', w1)"
    by (auto simp: randomToken_def)
  have "\<not> touches (SET (sessionKeyPrefix @ raw_url_encode rid) v ttl) ?k" using fresh by (simp add: touches_def writes_key_def)
  from quiet_view [OF S quiet_step [OF b(1) this quiet_step [OF b(2) audit_touches later]]]
  have "rs_view S w2 ?k = rs_view S wa ?k \<or> rs_view S w2 ?k = None" .
  moreover have "rs_view S wa ?k = None" using S g unfolding session_server_def by (metis reply.distinct(7) session_key)
  ultimately have none: "rs_view S w2 ?k = None" by auto
  obtain r wc where x: "rs_exec S d (GETDEL ?k) w2 = (r, wc)" by (metis surj_pair)
  have "r \<noteq> RBytes data'" for data' using S x none unfolding session_server_def by (metis option.distinct(1) session_key)
  with second cookie x show ?thesis
    unfolding callback_def run_initOIDC by (auto simp: fault_sets_no_cookie split: option.splits reply.splits)
qed

text \<open>
  C9: A created session works until it is deleted. After a callback that answered with 302, a
  request with the new session's cookie, no API key and, for a change, the session's CSRF token
  is let through by \<open>protect\<close> as the verified subject, whenever Redis still has the session;
  and once a logout's \<open>DEL\<close> has been acknowledged the cookie is refused, whatever Redis
  answers and whatever is done to other keys in between.
\<close>

theorem admin_session_round_trip:
  assumes S: "session_server S"
    and login: "run S c (callback L OI config (Some csrf) (Some rid) now request) cp w = (wr, cp1, w1)" "w_code wr = 302"
    and codec: "\<And>subject scopes. cl_unsession L (cl_session L (\<lparr>as_subject = subject, as_scopes = scopes,
        as_csrf = raw_url_encode csrf, as_state = [], as_verifier = []\<rparr>)) =
        Some \<lparr>as_subject = subject, as_scopes = scopes, as_csrf = raw_url_encode csrf, as_state = [], as_verifier = []\<rparr>"
    and q: "admin_secret q = []" "cl_cookie L q = Some (raw_url_encode rid)"
  shows "\<exists>oauth token claims. cp_oauth cp1 = Some oauth \<and> id_token_claims OI oauth token = Inr claims \<and>
    (let i = \<lparr>ai_subject = ic_subject claims, ai_csrf = raw_url_encode csrf, ai_session = True\<rparr> in
     (\<forall>w2 d data w3. csrf_ok L i q \<and> quiet S (sessionKeyPrefix @ raw_url_encode rid) w1 w2 \<and>
        rs_exec S d (GET (sessionKeyPrefix @ raw_url_encode rid)) w2 = (RBytes data, w3) \<longrightarrow>
        run S d (protect L config h q) m w2 = run S d (h q i) m w3)) \<and>
    (\<forall>w2 w3 r e w4. rs_exec S e (DEL (sessionKeyPrefix @ raw_url_encode rid)) w2 = (r, w3) \<and> r \<noteq> RErr \<and>
       quiet S (sessionKeyPrefix @ raw_url_encode rid) w3 w4 \<longrightarrow>
       fst (run S e (protect L config h q) m w4) = Some (refuse_login config q))"
proof -
  let ?k = "sessionKeyPrefix @ raw_url_encode rid"
  from run_callback [OF login(1)] login(2) obtain oauth data wa claims token where
    oa: "cp_oauth cp1 = Some oauth" and ad: "admitted L OI oauth request data claims token" and
    cs: "run S c (create_session L OI config (Some csrf) (Some rid) now (ic_subject claims) (granted_scopes claims token)) cp1 wa = (wr, cp1, w1)"
    by auto
  let ?s = "\<lparr>as_subject = ic_subject claims, as_scopes = granted_scopes claims token, as_csrf = raw_url_encode csrf, as_state = [], as_verifier = []\<rparr>"
  from run_create_session [OF cs] login(2) obtain r wb fs r' where
    b: "rs_exec S c (SET ?k (cl_session L ?s) (session_ttl config)) wa = (r, wb)" "r \<noteq> RErr" "rs_exec S c (XADD auditKey fs) wb = (r', w1)"
    by (auto simp: randomToken_def)
  have vb: "rs_view S wb ?k = Some (Str (cl_session L ?s)) \<or> rs_view S wb ?k = None"
    using S b(1,2) unfolding session_server_def by (metis session_key)
  have live: "data = cl_session L ?s" if "quiet S ?k w1 w2" "rs_exec S d (GET ?k) w2 = (RBytes data, w3)" for data d w2 w3
    using quiet_view [OF S quiet_step [OF b(3) audit_touches that(1)]] session_read [OF S that(2)] vb by auto
  have gone: False if "rs_exec S e (DEL ?k) w2 = (x, w3)" "x \<noteq> RErr" "quiet S ?k w3 w4" "rs_exec S e (GET ?k) w4 = (RBytes data, w5)"
    for e w2 x w3 w4 w5 data
  proof -
    have "rs_view S w3 ?k = None" using S that(1,2) unfolding session_server_def by (metis session_key)
    with quiet_view [OF S that(3)] have "rs_view S w4 ?k = None" by auto
    with session_read [OF S that(4)] show ?thesis by simp
  qed
  show ?thesis
  proof (rule exI [of _ oauth], rule exI [of _ token], rule exI [of _ claims], intro conjI)
    show "let i = \<lparr>ai_subject = ic_subject claims, ai_csrf = raw_url_encode csrf, ai_session = True\<rparr> in
     \<forall>w2 d data w3. csrf_ok L i q \<and> quiet S ?k w1 w2 \<and> rs_exec S d (GET ?k) w2 = (RBytes data, w3) \<longrightarrow>
        run S d (protect L config h q) m w2 = run S d (h q i) m w3"
      using ad by (auto simp: protect_session [OF q] admitted_def Let_def codec dest!: live)
    show "\<forall>w2 w3 r e w4. rs_exec S e (DEL ?k) w2 = (r, w3) \<and> r \<noteq> RErr \<and> quiet S ?k w3 w4 \<longrightarrow>
       fst (run S e (protect L config h q) m w4) = Some (refuse_login config q)"
      unfolding protect_session [OF q] by (auto split: prod.split reply.split dest: gone)
  qed (use oa ad in \<open>auto simp: admitted_def\<close>)
qed

section \<open>Witnesses\<close>

lemma effects_untouched: "\<forall>c \<in> set cs. \<not> writes_key c k \<Longrightarrow> fold effect cs s k = s k"
  by (induction cs arbitrary: s) (auto simp: effect_unwritten)

lemma session_server_mem: "session_server mem_server"
proof -
  have "\<not> touches cmd k \<Longrightarrow> mm_keys w' k = mm_keys w k" if "mem_exec c cmd w = (r, w')" for k c cmd w r w'
    using that by (cases cmd)
      (auto simp: touches_def unlock_def effects_untouched writes_key_def [of "SETNX _ _"] writes_key_def [of "SET _ _ _"]
        writes_key_def [of "GETDEL _"] writes_key_def [of "DEL _"] writes_key_def [of "UNLINK _"] writes_key_def [of "HSET _ _"]
        writes_key_def [of "XADD _ _"] split: if_splits)
  then show ?thesis
    unfolding session_server_def by (auto simp: mem_server_def split: option.splits rval.splits)
qed

text \<open>A session codec with its law, for the witnesses: a session as a number in unary.\<close>

definition nats :: "string \<Rightarrow> nat list" where "nats = map of_char"
definition chars :: "nat list \<Rightarrow> string" where "chars = map char_of"

lemma chars_nats [simp]: "chars (nats s) = s" "map (chars \<circ> nats) ss = ss"
  by (simp_all add: chars_def nats_def comp_def)

definition session_bytes :: "adminSession \<Rightarrow> bytes" where
  "session_bytes s = replicate (to_nat (nats (as_subject s), map nats (as_scopes s), nats (as_csrf s), nats (as_state s), nats (as_verifier s))) (CHR ''1'')"

definition bytes_session :: "bytes \<Rightarrow> adminSession option" where
  "bytes_session b = (case from_nat (length b) of (subject, scopes, csrf, state, verifier) \<Rightarrow>
     Some \<lparr>as_subject = chars subject, as_scopes = map chars scopes, as_csrf = chars csrf, as_state = chars state, as_verifier = chars verifier\<rparr>)"

lemma session_codec [simp]: "bytes_session (session_bytes s) = Some s"
  by (simp add: bytes_session_def session_bytes_def)

definition session_lib :: control_lib where
  "session_lib = sample_lib\<lparr>cl_session := session_bytes, cl_unsession := bytes_session,
     cl_cookie := (\<lambda>q. Some (header_get (q_header q) ''Cookie''))\<rparr>"

definition sample_oidc :: oidc_lib where
  "sample_oidc = \<lparr>ol_url = \<lparr>uo_parse = (\<lambda>_. None), uo_string = (\<lambda>_. []), uo_resolve = (\<lambda>u _. u)\<rparr>,
     ol_query = (\<lambda>_ k. if k = ''state'' then ''st'' else ''code''), ol_cookie_text = co_value, ol_discover = (\<lambda>_. True),
     ol_auth_url = (\<lambda>_ _ _. ''https://idp.example/auth''),
     ol_exchange = (\<lambda>_ code verifier. if code = ''code'' \<and> verifier = ''ver'' then Some \<lparr>ot_id_token = Some ''jwt'', ot_scope = None\<rparr> else None),
     ol_verify = (\<lambda>_ raw. if raw = ''jwt'' then Some ''claims'' else None),
     ol_claims = (\<lambda>_. Some \<lparr>ic_subject = ''alice'', ic_scope = ''openid gateway.admin''\<rparr>)\<rparr>"

definition login_mem :: mem where
  "login_mem = empty_mem\<lparr>mm_keys := [sessionKeyPrefix @ ''login'' \<mapsto> Str (session_bytes (pending_session ''st'' ''ver''))]\<rparr>"

definition cookie_request :: "string \<Rightarrow> http_request" where
  "cookie_request val = sample_request\<lparr>q_header := [(''Cookie'', [val])]\<rparr>"

definition sample_control :: "unit control" where
  "sample_control = \<lparr>cp_manager = sample_manager, cp_oauth = None\<rparr>"

lemma cookie_request_get [simp]: "header_get (q_header (cookie_request v)) ''Cookie'' = v"
proof -
  have "canonical_key ''Cookie'' = ''Cookie''" by code_simp
  then show ?thesis by (simp add: header_get_def cookie_request_def)
qed

lemma cookie_request_fields [simp]: "admin_secret (cookie_request v) = []" "q_method (cookie_request v) = ''GET''"
proof -
  have "canonical_key ''X-API-Key'' \<noteq> ''Cookie''" "canonical_key ''Authorization'' \<noteq> ''Cookie''" "\<not> has_prefix [] ''Bearer ''" by code_simp+
  then show "admin_secret (cookie_request v) = []" by (simp add: admin_secret_def header_get_def cookie_request_def)
qed (simp add: cookie_request_def sample_request_def)

lemma sample_callback:
  "\<exists>wr cp' w'. run mem_server 0 (callback session_lib sample_oidc empty_admin (Some ''csr'') (Some ''rnd'') ''now'' (cookie_request ''login''))
       sample_control login_mem = (wr, cp', w') \<and> w_code wr = 302 \<and>
     (\<exists>v. mm_keys w' (sessionKeyPrefix @ raw_url_encode ''rnd'') = Some (Str v))"
proof -
  have sc: "''gateway.admin'' \<in> scope_set (granted_scopes \<lparr>ic_subject = ''alice'', ic_scope = ''openid gateway.admin''\<rparr> t)" for t
  proof -
    have "splitSpace ''openid gateway.admin'' = [''openid'', ''gateway.admin'']" by code_simp
    then show ?thesis by (simp add: granted_scopes_def Let_def scope_set_def)
  qed
  have a: "sessionKeyPrefix @ x \<noteq> auditKey" for x by (simp add: sessionKeyPrefix_def auditKey_def)
  have g: "mm_keys login_mem (sessionKeyPrefix @ ''login'') = Some (Str (session_bytes (pending_session ''st'' ''ver'')))"
    by (simp add: login_mem_def)
  show ?thesis
    unfolding callback_def run_initOIDC
    by (simp add: init_oidc_def sample_control_def sc g id_token_claims_def create_session_def randomToken_def audit_def session_ttl_def
          sample_oidc_def session_lib_def mem_server_def pending_session_def a)
qed

lemma session_lib_cookie [simp]: "cl_cookie session_lib (cookie_request v) = Some v"
  by (simp add: session_lib_def)

lemma quiet_refl: "quiet S k w w"
  by (simp add: quiet_def)


theorem login_state_is_single_use_witness:
  "\<exists>wr cp1 w1. run mem_server 0 (callback session_lib sample_oidc empty_admin (Some ''csr'') (Some ''rnd'') ''now'' (cookie_request ''login''))
       sample_control login_mem = (wr, cp1, w1) \<and> w_code wr = 302 \<and>
     w_code (fst (run mem_server 1 (callback session_lib sample_oidc empty_admin (Some ''csr'') (Some ''rnd'') ''now'' (cookie_request ''login''))
       sample_control w1)) \<in> {400, 503}"
proof -
  let ?p = "callback session_lib sample_oidc empty_admin (Some ''csr'') (Some ''rnd'') ''now'' (cookie_request ''login'')"
  from sample_callback obtain wr cp' w' where r: "run mem_server 0 ?p sample_control login_mem = (wr, cp', w')" and c: "w_code wr = 302" by blast
  have f: "raw_url_encode ''rnd'' \<noteq> ''login''" by code_simp
  obtain wr2 cp2 w2 where r2: "run mem_server 1 ?p sample_control w' = (wr2, cp2, w2)" by (metis prod_cases3)
  from login_state_is_single_use [OF session_server_mem session_lib_cookie session_lib_cookie r c f quiet_refl r2] r c r2
  show ?thesis by simp
qed

theorem admin_session_round_trip_witness:
  "\<exists>wr cp1 w1 subject. run mem_server 0 (callback session_lib sample_oidc empty_admin (Some ''csr'') (Some ''rnd'') ''now'' (cookie_request ''login''))
       sample_control login_mem = (wr, cp1, w1) \<and>
     fst (run mem_server 1 (protect session_lib empty_admin (\<lambda>q i. Ret (Some (redirect (ai_subject i) new_writer))) (cookie_request (raw_url_encode ''rnd'')))
       sample_control w1) = Some (redirect subject new_writer)"
proof -
  let ?q = "cookie_request (raw_url_encode ''rnd'')" and ?k = "sessionKeyPrefix @ raw_url_encode ''rnd''"
  let ?h = "\<lambda>(q :: http_request) i. Ret (Some (redirect (ai_subject i) new_writer)) :: (unit control, writer option) prog"
  from sample_callback obtain wr cp' w' where r: "run mem_server 0 (callback session_lib sample_oidc empty_admin (Some ''csr'') (Some ''rnd'') ''now''
      (cookie_request ''login'')) sample_control login_mem = (wr, cp', w')" and c: "w_code wr = 302"
    and v: "\<exists>v. mm_keys w' ?k = Some (Str v)" by blast
  have codec: "cl_unsession session_lib (cl_session session_lib s) = Some s" for s by (simp add: session_lib_def)
  have csrf: "csrf_ok session_lib i ?q" for i by (simp add: csrf_ok_def)
  have live: "\<exists>data. rs_exec mem_server 1 (GET ?k) w' = (RBytes data, w')"
    using v by (auto simp: mem_server_def)
  from admin_session_round_trip [OF session_server_mem r c codec, of ?q ?h sample_control] csrf live quiet_refl r
  show ?thesis by (fastforce simp: Let_def)
qed

end
