(* ===== verification/Admin_Read.thy ===== *)
theory Admin_Read
  imports Admin_Session "HOL-Library.Char_ord" "HOL-Library.List_Lexorder"
begin

text \<open>
  The reading side of the administration interface, from \<open>admin_ui.go\<close>: the dashboard and
  its assets, \<open>status\<close>, \<open>statistics\<close> over Prometheus, \<open>getConfig\<close>, \<open>listAPIKeys\<close> and
  \<open>listAudit\<close> with its cursors.

  Parameters, in \<open>admin_lib\<close>: query and URL handling, the HTML template and the embedded
  assets, the state of a circuit breaker, the HTTP client, the JSON decoder and
  \<open>strconv.ParseFloat\<close>. Finite floating-point values are rationals. Go's \<open>sort.Slice\<close>
  may exchange equal elements; the model keeps their order. A nil slice and an empty one are
  not distinguished. The loop of \<open>listAPIKeys\<close> over \<open>SCAN\<close> takes fuel.
\<close>

section \<open>Definitions\<close>

record adminEndpointStatus =
  es_url :: string
  es_healthy :: bool
  es_breaker :: string

record adminRouteStatus =
  rs_config :: routeConfig   \<comment> \<open>the fields copied from the configuration\<close>
  rs_upstreams :: "adminEndpointStatus list"
  rs_healthy :: nat

record adminAPIKey =
  ak_id :: string
  ak_key_name :: string
  ak_key_scopes :: "string list"
  ak_created_at :: string
  ak_revoked_at :: string
  ak_revoked :: bool

record adminAuditEntry =
  ae_id :: string
  ae_at :: string
  ae_actor :: string
  ae_action :: string
  ae_target :: string

record adminRouteStatistic =
  st_route :: string
  st_rate :: rat

record prometheusSample =
  ps_metric :: "(string \<times> string) list"
  ps_value :: rat

record prometheusQueryResponse =
  pq_status :: string
  pq_error :: string
  pq_result :: "((string \<times> string) list \<times> json list) list"

datatype float64 = FloatError | NaN | Infinite | Finite rat

record admin_lib =
  al_url :: url_ops
  al_query :: "http_request \<Rightarrow> string \<Rightarrow> string"
  al_breaker :: "string \<times> nat \<Rightarrow> string"     \<comment> \<open>\<open>endpoint.breaker.State().String()\<close>\<close>
  al_page :: "string \<Rightarrow> string \<Rightarrow> int \<Rightarrow> routeConfig list \<Rightarrow> bytes"  \<comment> \<open>\<open>adminTemplate\<close>\<close>
  al_styles :: bytes
  al_script :: bytes
  al_query_url :: "string \<Rightarrow> string \<Rightarrow> string option"  \<comment> \<open>URL with an encoded \<open>query\<close> parameter\<close>
  al_do :: "string \<Rightarrow> (int \<times> reader) option"         \<comment> \<open>\<open>client.Do\<close>: status and body\<close>
  al_decode :: "reader \<Rightarrow> prometheusQueryResponse option"
  al_parse_float :: "string \<Rightarrow> float64"
  al_format_float :: "rat \<Rightarrow> string"

subsection \<open>Dashboard and assets\<close>

definition dashboard :: "admin_lib \<Rightarrow> http_request \<Rightarrow> adminIdentity \<Rightarrow> ('k, writer) handler_prog" where
  "dashboard A request identity = Local id (\<lambda>mg.
     let (version, routes) = (case mg_current mg of
           None \<Rightarrow> (0, []) | Some s \<Rightarrow> (g_version (sn_config s), g_routes (sn_config s)));
         w = set_header ''Content-Type'' ''text/html; charset=utf-8'' new_writer;
         w = set_header ''Cache-Control'' ''no-store'' w;
         w = set_header ''Content-Security-Policy''
           (''default-src '' @ [CHR 0x27] @ ''self'' @ [CHR 0x27] @ ''; script-src '' @ [CHR 0x27] @ ''self'' @ [CHR 0x27] @
            ''; style-src '' @ [CHR 0x27] @ ''self'' @ [CHR 0x27] @ ''; connect-src '' @ [CHR 0x27] @ ''self'' @ [CHR 0x27] @
            ''; img-src '' @ [CHR 0x27] @ ''self'' @ [CHR 0x27] @ '' data:; frame-ancestors '' @ [CHR 0x27] @ ''none'' @ [CHR 0x27] @
            ''; base-uri '' @ [CHR 0x27] @ ''none'' @ [CHR 0x27] @ ''; form-action '' @ [CHR 0x27] @ ''self'' @ [CHR 0x27]) w;
         w = set_header ''Referrer-Policy'' ''no-referrer'' w;
         w = set_header ''X-Content-Type-Options'' ''nosniff'' w;
         w = set_header ''X-Frame-Options'' ''DENY'' w
     in Ret (write_chunk (Bytes (al_page A (ai_subject identity) (ai_csrf identity) version routes)) w))"

definition asset :: "string \<Rightarrow> bytes \<Rightarrow> writer" where
  "asset content_type data =
     write_chunk (Bytes data) (set_header ''X-Content-Type-Options'' ''nosniff''
       (set_header ''Cache-Control'' ''no-cache'' (set_header ''Content-Type'' content_type new_writer)))"

definition adminCSS :: "admin_lib \<Rightarrow> http_request \<Rightarrow> ('m, writer) prog" where
  "adminCSS A request = Ret (asset ''text/css; charset=utf-8'' (al_styles A))"

definition adminJS :: "admin_lib \<Rightarrow> http_request \<Rightarrow> ('m, writer) prog" where
  "adminJS A request = Ret (asset ''text/javascript; charset=utf-8'' (al_script A))"

subsection \<open>Status\<close>

definition endpoint_status :: "admin_lib \<Rightarrow> string \<Rightarrow> nat \<Rightarrow> upstreamEndpoint \<Rightarrow> adminEndpointStatus" where
  "endpoint_status A pool i ep = \<lparr>es_url = uo_string (al_url A) (ep_url ep), es_healthy = ep_healthy ep, es_breaker = al_breaker A (pool, i)\<rparr>"

definition route_status :: "admin_lib \<Rightarrow> upstreamPool list \<Rightarrow> nat \<Rightarrow> routeConfig \<Rightarrow> adminRouteStatus" where
  "route_status A pools index route =
     (let upstreams = (if index < length pools
            then map (\<lambda>(i, ep). endpoint_status A (pool_name (pools ! index)) i ep)
                   (List.enumerate 0 (pool_endpoints (pools ! index)))
            else [])
      in \<lparr>rs_config = route, rs_upstreams = upstreams, rs_healthy = length (filter es_healthy upstreams)\<rparr>)"

definition omit_empty :: "bool \<Rightarrow> string \<Rightarrow> json \<Rightarrow> (string \<times> json) list" where
  "omit_empty omit k v = (if omit then [] else [(k, v)])"

definition jint :: "int \<Rightarrow> json" where "jint n = JNum (format_int n)"

definition endpoint_json :: "adminEndpointStatus \<Rightarrow> json" where
  "endpoint_json e = JObj [(''url'', JStr (es_url e)), (''healthy'', JBool (es_healthy e)), (''breaker'', JStr (es_breaker e))]"

definition route_json :: "adminRouteStatus \<Rightarrow> json" where
  "route_json s = (let r = rs_config s in JObj (
     [(''name'', JStr (r_name r)), (''hosts'', JArr (map JStr (r_hosts r))), (''methods'', JArr (map JStr (r_methods r))),
      (''path_prefix'', JStr (r_path_prefix r))] @
     omit_empty (r_auth_policy r = []) ''auth_policy'' (JStr (r_auth_policy r)) @
     omit_empty (r_rate_policy r = []) ''rate_policy'' (JStr (r_rate_policy r)) @
     omit_empty (r_cache_policy r = []) ''cache_policy'' (JStr (r_cache_policy r)) @
     omit_empty (r_concurrency r = 0) ''concurrency'' (jint (r_concurrency r)) @
     omit_empty (r_retries r = 0) ''retries'' (jint (r_retries r)) @
     omit_empty (\<not> r_streaming r) ''streaming'' (JBool True) @
     [(''upstreams'', JArr (map endpoint_json (rs_upstreams s))), (''healthy_upstreams'', jint (int (rs_healthy s)))]))"

definition status_json :: "admin_lib \<Rightarrow> string \<Rightarrow> 'k routerSnapshot \<Rightarrow> json" where
  "status_json A bearer s =
     (let c = sn_config s;
          routes = map (\<lambda>(i, r). route_status A (snapshot_pools s) i r) (List.enumerate 0 (g_routes c));
          total = sum_list (map (\<lambda>r. length (rs_upstreams r)) routes);
          healthy = sum_list (map rs_healthy routes)
      in JObj [(''active_version'', jint (g_version c)), (''schema_version'', jint (g_schema_version c)),
        (''route_count'', jint (int (length routes))), (''healthy_upstreams'', jint (int healthy)), (''total_upstreams'', jint (int total)),
        (''auth_policy_count'', jint (int (length (g_auth_policies c)))), (''rate_policy_count'', jint (int (length (g_rate_policies c)))),
        (''cache_policy_count'', jint (int (length (g_cache_policies c)))),
        (''service_name'', JStr (tc_service_name (g_telemetry c))), (''tracing_enabled'', JBool (tc_otlp_endpoint (g_telemetry c) \<noteq> [])),
        (''dynamic_dns_enabled'', JBool (dd_enabled (g_dynamic_dns c))), (''dynamic_dns_bearer_configured'', JBool (bearer \<noteq> [])),
        (''routes'', JArr (map route_json routes))])"

definition status :: "admin_lib \<Rightarrow> string \<Rightarrow> http_request \<Rightarrow> adminIdentity \<Rightarrow> ('k, writer) handler_prog" where
  "status A bearer request identity = Local id (\<lambda>mg. case mg_current mg of
      None \<Rightarrow> fault 503 ''config_unavailable'' ''No active configuration is loaded''
    | Some s \<Rightarrow> Ret (write_json 200 (status_json A bearer s) new_writer))"
  \<comment> \<open>\<open>bearer\<close>: \<open>manager.dynamicDNSBearer\<close>\<close>

subsection \<open>Statistics\<close>

fun raw_string :: "json \<Rightarrow> string option" where
  "raw_string (JStr s) = Some s"
| "raw_string JNull = Some []"
| "raw_string _ = None"
  \<comment> \<open>\<open>json.Unmarshal\<close> into a string\<close>

definition sample_of :: "admin_lib \<Rightarrow> (string \<times> string) list \<times> json list \<Rightarrow> prometheusSample option" where
  "sample_of A = (\<lambda>(metric, vals). case vals of
      [_, raw] \<Rightarrow> map_option (\<lambda>encoded. \<lparr>ps_metric = metric,
          ps_value = (case al_parse_float A encoded of Finite v \<Rightarrow> v | _ \<Rightarrow> 0)\<rparr>) (raw_string raw)
    | _ \<Rightarrow> None)"

definition queryPrometheus :: "admin_lib \<Rightarrow> adminConfig \<Rightarrow> string \<Rightarrow> prometheusSample list option" where
  "queryPrometheus A config expression =
     (case al_query_url A (trim_suffix (ad_prometheus_url config) ''/'' @ ''/api/v1/query'') expression of
        None \<Rightarrow> None
      | Some endpoint \<Rightarrow> (case al_do A endpoint of
            None \<Rightarrow> None
          | Some (code, body) \<Rightarrow>
              if code \<noteq> 200 then None
              else (case al_decode A (limit_reader body (2 ^ 20)) of
                  None \<Rightarrow> None
                | Some payload \<Rightarrow>
                    if pq_status payload \<noteq> ''success'' then None
                    else Some (List.map_filter (sample_of A) (pq_result payload)))))"
  \<comment> \<open>\<open>None\<close>: an error, whose text is not shown\<close>

definition quoted :: "string \<Rightarrow> string" where "quoted s = CHR 0x22 # s @ [CHR 0x22]"

definition statistic_queries :: "(string \<times> string) list" where
  "statistic_queries = [
     (''requests_per_second'', ''sum(rate(vial_gateway_requests_total[5m]))''),
     (''error_rate_percent'', ''100 * sum(rate(vial_gateway_requests_total{status=~'' @ quoted ''5..'' @ ''}[5m])) / clamp_min(sum(rate(vial_gateway_requests_total[5m])), 0.000001)''),
     (''upstream_failures_per_second'', ''sum(rate(vial_gateway_upstream_attempts_total{result!='' @ quoted ''ok'' @ ''}[5m]))''),
     (''cache_hit_rate_percent'', ''100 * sum(rate(vial_gateway_cache_total{result='' @ quoted ''hit'' @ ''}[5m])) / clamp_min(sum(rate(vial_gateway_cache_total{result=~'' @ quoted ''hit|miss'' @ ''}[5m])), 0.000001)'')]"

fun query_all :: "admin_lib \<Rightarrow> adminConfig \<Rightarrow> (string \<times> string) list \<Rightarrow> (string \<times> rat) list \<Rightarrow> (string \<times> rat) list option" where
  "query_all A config [] vals = Some vals"
| "query_all A config ((name, expression) # qs) vals = (case queryPrometheus A config expression of
      None \<Rightarrow> None
    | Some samples \<Rightarrow> query_all A config qs (case samples of [] \<Rightarrow> vals | s # _ \<Rightarrow> AList.update name (ps_value s) vals))"

definition route_statistics :: "prometheusSample list \<Rightarrow> adminRouteStatistic list" where
  "route_statistics samples = rev (sort_key st_rate (rev (List.map_filter (\<lambda>s.
      let route = lookup_or [] (ps_metric s) ''route'' in
      if route \<noteq> [] then Some \<lparr>st_route = route, st_rate = ps_value s\<rparr> else None) samples)))"

definition statistics :: "admin_lib \<Rightarrow> adminConfig \<Rightarrow> http_request \<Rightarrow> adminIdentity \<Rightarrow> ('m, writer) prog" where
  "statistics A config request identity =
     (if ad_prometheus_url config = [] then fault 503 ''statistics_unavailable'' ''Prometheus is not configured''
      else (case query_all A config statistic_queries [] of
          None \<Rightarrow> fault 503 ''statistics_unavailable'' ''Prometheus is unavailable''
        | Some vals \<Rightarrow> (case queryPrometheus A config ''sum by (route) (rate(vial_gateway_requests_total[5m]))'' of
              None \<Rightarrow> fault 503 ''statistics_unavailable'' ''Prometheus is unavailable''
            | Some samples \<Rightarrow>
                (let num = (\<lambda>k. JNum (al_format_float A (lookup_or 0 vals k))) in
                 json_answer 200 [(''window'', JStr ''5m''), (''requests_per_second'', num ''requests_per_second''),
                   (''error_rate_percent'', num ''error_rate_percent''), (''upstream_failures_per_second'', num ''upstream_failures_per_second''),
                   (''cache_hit_rate_percent'', num ''cache_hit_rate_percent''),
                   (''routes'', JArr (map (\<lambda>r. JObj [(''route'', JStr (st_route r)),
                      (''requests_per_second'', JNum (al_format_float A (st_rate r)))]) (route_statistics samples)))]))))"
  \<comment> \<open>its deadline of three seconds acts through \<open>al_do\<close>\<close>

subsection \<open>Configurations and API keys\<close>

definition getConfig :: "string \<Rightarrow> http_request \<Rightarrow> adminIdentity \<Rightarrow> ('m, writer) prog" where
  "getConfig path_version request identity = (case positive_version path_version of
      None \<Rightarrow> fault 400 ''invalid_version'' ''A positive version is required''
    | Some version \<Rightarrow> Cmd (GET (configKey version)) (\<lambda>r. case r of
          RBytes data \<Rightarrow> Ret (write_chunk (Bytes data) (set_header ''X-Content-Type-Options'' ''nosniff''
            (set_header ''Cache-Control'' ''no-store'' (set_header ''Content-Type'' ''application/json; charset=utf-8'' new_writer))))
        | RNil \<Rightarrow> fault 404 ''version_not_found'' ''Configuration version does not exist''
        | _ \<Rightarrow> unavailable))"

definition key_of_record :: "string \<Rightarrow> (string \<times> string) list \<Rightarrow> adminAPIKey" where
  "key_of_record name rec = \<lparr>ak_id = trim_prefix name ''vial-gateway:apikey:'', ak_key_name = lookup_or [] rec ''name'',
     ak_key_scopes = splitSpace (lookup_or [] rec ''scopes''), ak_created_at = lookup_or [] rec ''created_at'',
     ak_revoked_at = lookup_or [] rec ''revoked_at'', ak_revoked = (lookup_or [] rec ''revoked'' = ''1'')\<rparr>"

fun read_keys :: "string list \<Rightarrow> adminAPIKey list \<Rightarrow> (adminAPIKey list \<Rightarrow> ('m, 'r) prog) \<Rightarrow> ('m, 'r) prog" where
  "read_keys [] acc k = k acc"
| "read_keys (name # names) acc k = Cmd (HGETALL name) (\<lambda>r. case r of
      RHash rec \<Rightarrow>
        if lookup_or [] rec ''name'' = [] then read_keys names acc k
        else (let acc = acc @ [key_of_record name rec] in
              if length acc = 200 then k acc else read_keys names acc k)
    | _ \<Rightarrow> read_keys names acc k)"

primrec list_keys_loop :: "nat \<Rightarrow> nat \<Rightarrow> adminAPIKey list \<Rightarrow> ('m, adminAPIKey list scan) prog" where
  "list_keys_loop 0 cursor acc = Ret ScanFuel"
| "list_keys_loop (Suc fuel) cursor acc =
     (if length acc < 200 then Cmd (SCAN cursor ''vial-gateway:apikey:*'' 100) (\<lambda>r. case r of
          RScan names nx \<Rightarrow> read_keys names acc (\<lambda>acc. if nx = 0 then Ret (ScanDone acc) else list_keys_loop fuel nx acc)
        | _ \<Rightarrow> Ret ScanError)
      else Ret (ScanDone acc))"

definition newest_first :: "adminAPIKey list \<Rightarrow> adminAPIKey list" where
  "newest_first keys = rev (sort_key ak_created_at (rev keys))"

definition key_json :: "adminAPIKey \<Rightarrow> json" where
  "key_json k = JObj ([(''id'', JStr (ak_id k)), (''name'', JStr (ak_key_name k)), (''scopes'', JArr (map JStr (ak_key_scopes k))),
     (''created_at'', JStr (ak_created_at k))] @ omit_empty (ak_revoked_at k = []) ''revoked_at'' (JStr (ak_revoked_at k)) @
     [(''revoked'', JBool (ak_revoked k))])"

definition listAPIKeys :: "nat \<Rightarrow> http_request \<Rightarrow> adminIdentity \<Rightarrow> ('m, writer option) prog" where
  "listAPIKeys fuel request identity = bind (list_keys_loop fuel 0 []) (\<lambda>res. case res of
      ScanFuel \<Rightarrow> Ret None
    | ScanError \<Rightarrow> lift unavailable
    | ScanDone keys \<Rightarrow> lift (json_answer 200 [(''api_keys'', JArr (map key_json (newest_first keys)))]))"

subsection \<open>Audit\<close>

definition audit_limit :: "string \<Rightarrow> int" where
  "audit_limit text = (case parse_int64 text of
      Some limit \<Rightarrow> if limit < 1 \<or> limit > 200 then 25 else limit
    | None \<Rightarrow> 25)"
  \<comment> \<open>on an error \<open>ParseInt\<close> returns 0 or a bound of int64, which are out of range too\<close>

definition cursor_ok :: "string \<Rightarrow> bool" where
  "cursor_ok before \<longleftrightarrow> (case split_char before (CHR ''-'') of
      [ms, seq] \<Rightarrow> parse_uint64 ms \<noteq> None \<and> parse_uint64 seq \<noteq> None
    | _ \<Rightarrow> False)"

definition message_value :: "(string \<times> string) list \<Rightarrow> string \<Rightarrow> string" where
  "message_value m name = (case map_of m name of Some v \<Rightarrow> v | None \<Rightarrow> ''<nil>'')"

definition audit_entry :: "string \<times> (string \<times> string) list \<Rightarrow> adminAuditEntry" where
  "audit_entry m = \<lparr>ae_id = fst m, ae_at = message_value (snd m) ''at'', ae_actor = message_value (snd m) ''actor'',
     ae_action = message_value (snd m) ''action'', ae_target = message_value (snd m) ''target''\<rparr>"

definition audit_page :: "int \<Rightarrow> (string \<times> (string \<times> string) list) list \<Rightarrow> adminAuditEntry list \<times> string" where
  "audit_page limit messages =
     (let hasMore = (int (length messages) > limit);
          messages = (if hasMore then take (nat limit) messages else messages);
          entries = map audit_entry messages
      in (entries, if hasMore \<and> entries \<noteq> [] then ae_id (last entries) else []))"

definition entry_json :: "adminAuditEntry \<Rightarrow> json" where
  "entry_json e = JObj ([(''id'', JStr (ae_id e)), (''at'', JStr (ae_at e)), (''actor'', JStr (ae_actor e)), (''action'', JStr (ae_action e))] @
     omit_empty (ae_target e = []) ''target'' (JStr (ae_target e)))"

definition listAudit :: "admin_lib \<Rightarrow> http_request \<Rightarrow> adminIdentity \<Rightarrow> ('m, writer) prog" where
  "listAudit A request identity =
     (let limit = audit_limit (al_query A request ''limit''); before = al_query A request ''before'' in
      if before \<noteq> [] \<and> \<not> cursor_ok before then fault 400 ''invalid_cursor'' ''Audit cursor is invalid''
      else Cmd (XREVRANGE auditKey (if before \<noteq> [] then CHR ''('' # before else ''+'') ''-'' (limit + 1)) (\<lambda>r. case r of
          RStream messages \<Rightarrow> (case audit_page limit messages of
              (entries, next_cursor) \<Rightarrow> json_answer 200 [(''events'', JArr (map entry_json entries)), (''next_cursor'', JStr next_cursor)])
        | _ \<Rightarrow> unavailable))"

section \<open>Facts\<close>

lemma safe_dashboard: "safe (dashboard A request i) K"
  by (simp add: dashboard_def Let_def split: prod.split)

lemma safe_status: "safe (status A bearer request i) K"
  by (simp add: status_def split: option.split)

lemma safe_statistics: "safe (statistics A config request i) K"
  by (auto simp: statistics_def Let_def split: option.split)

lemma safe_getConfig: "safe (getConfig v request i) K"
  by (auto simp: getConfig_def split: option.split reply.split)

lemma safe_read_keys: "(\<And>acc K. safe (k acc) K) \<Longrightarrow> safe (read_keys names acc k) K"
  by (induction names arbitrary: acc K) (auto simp: Let_def split: reply.split)

lemma safe_list_keys_loop: "safe (list_keys_loop fuel cursor acc) K"
  by (induction fuel arbitrary: cursor acc K) (auto split: reply.split simp del: reply_ok.simps intro!: safe_read_keys)

lemma safe_listAPIKeys: "safe (listAPIKeys fuel request i) K"
  unfolding listAPIKeys_def by (auto intro!: safe_bind safe_list_keys_loop split: scan.split)

lemma safe_listAudit: "safe (listAudit A request i) K"
  by (auto simp: listAudit_def Let_def split: reply.split prod.split)

text \<open>The listing of API keys is bounded, and shows only named records.\<close>

lemma run_read_keys:
  assumes "length acc < 200" and "\<forall>key \<in> set acc. ak_key_name key \<noteq> []"
  shows "\<exists>acc' w'. run S c (read_keys names acc k) m w = run S c (k acc') m w' \<and> length acc' \<le> 200 \<and>
    (\<forall>key \<in> set acc'. ak_key_name key \<noteq> [])"
  using assms
proof (induction names arbitrary: acc w)
  case Nil
  then show ?case by (metis less_imp_le read_keys.simps(1))
next
  case (Cons name names)
  obtain r w1 where r: "rs_exec S c (HGETALL name) w = (r, w1)" by (metis surj_pair)
  show ?case
  proof (cases "\<exists>rec. r = RHash rec \<and> lookup_or [] rec ''name'' \<noteq> []")
    case True
    then obtain rec where rec: "r = RHash rec" "lookup_or [] rec ''name'' \<noteq> []" by blast
    let ?acc = "acc @ [key_of_record name rec]"
    have named: "\<forall>key \<in> set ?acc. ak_key_name key \<noteq> []" using Cons.prems(2) rec(2) by (auto simp: key_of_record_def)
    show ?thesis
    proof (cases "length ?acc = 200")
      case full: True
      with named have "run S c (read_keys (name # names) acc k) m w = run S c (k ?acc) m w1" "length ?acc \<le> 200"
        using rec r by (simp_all add: Let_def)
      with named show ?thesis by blast
    next
      case False
      with Cons.prems(1) have "length ?acc < 200" by simp
      from Cons.IH [OF this named] show ?thesis using False rec r by (simp add: Let_def)
    qed
  next
    case False
    then have "run S c (read_keys (name # names) acc k) m w = run S c (read_keys names acc k) m w1"
      using r by (auto split: reply.split)
    moreover have "\<exists>acc' w'. run S c (read_keys names acc k) m w1 = run S c (k acc') m w' \<and> length acc' \<le> 200 \<and>
        (\<forall>key \<in> set acc'. ak_key_name key \<noteq> [])"
      by (rule Cons.IH) (use Cons.prems in auto)
    ultimately show ?thesis by simp
  qed
qed

lemma run_list_keys:
  assumes "length acc \<le> 200" and "\<forall>key \<in> set acc. ak_key_name key \<noteq> []"
    and "run S c (list_keys_loop fuel cursor acc) m w = (ScanDone keys, m', w')"
  shows "length keys \<le> 200 \<and> (\<forall>key \<in> set keys. ak_key_name key \<noteq> [])"
  using assms
proof (induction fuel arbitrary: cursor acc w)
  case (Suc fuel)
  show ?case
  proof (cases "length acc < 200")
    case True
    obtain r w1 where r: "rs_exec S c (SCAN cursor ''vial-gateway:apikey:*'' 100) w = (r, w1)" by (metis surj_pair)
    show ?thesis
    proof (cases r)
      case (RScan names nx)
      let ?k = "\<lambda>acc. if nx = 0 then Ret (ScanDone acc) else list_keys_loop fuel nx acc"
      from run_read_keys [OF True Suc.prems(2), of S c names ?k m w1] obtain acc' w2 where
        "run S c (read_keys names acc ?k) m w1 = run S c (?k acc') m w2" "length acc' \<le> 200" "\<forall>key \<in> set acc'. ak_key_name key \<noteq> []"
        by blast
      with Suc True r RScan show ?thesis by (auto split: if_splits)
    qed (use Suc.prems True r in auto)
  qed (use Suc.prems in auto)
qed simp

lemma api_key_listing_bounded:
  assumes "run S c (list_keys_loop fuel 0 []) m w = (ScanDone keys, m', w')"
  shows "length (newest_first keys) \<le> 200 \<and> (\<forall>key \<in> set (newest_first keys). ak_key_name key \<noteq> [])"
  using run_list_keys [OF _ _ assms] by (simp add: newest_first_def)

text \<open>The totals of the status page are those of the pools.\<close>

lemma route_status_counts:
  assumes "i < length pools"
  shows "length (rs_upstreams (route_status A pools i r)) = length (pool_endpoints (pools ! i))"
    and "rs_healthy (route_status A pools i r) = length (filter ep_healthy (pool_endpoints (pools ! i)))"
proof -
  have *: "length (filter (es_healthy \<circ> (\<lambda>(i, ep). endpoint_status A n i ep)) (List.enumerate j eps)) = length (filter ep_healthy eps)" for n j eps
    by (induction eps arbitrary: j) (auto simp: endpoint_status_def)
  show "length (rs_upstreams (route_status A pools i r)) = length (pool_endpoints (pools ! i))"
    and "rs_healthy (route_status A pools i r) = length (filter ep_healthy (pool_endpoints (pools ! i)))"
    using assms by (simp_all add: route_status_def Let_def filter_map *)
qed

lemma status_totals:
  assumes "length routes = length pools"
  shows "sum_list (map (\<lambda>r. length (rs_upstreams r)) (map (\<lambda>(i, r). route_status A pools i r) (List.enumerate 0 routes))) =
      sum_list (map (\<lambda>p. length (pool_endpoints p)) pools)"
    and "sum_list (map rs_healthy (map (\<lambda>(i, r). route_status A pools i r) (List.enumerate 0 routes))) =
      sum_list (map (\<lambda>p. length (filter ep_healthy (pool_endpoints p))) pools)"
proof -
  have m: "map (f \<circ> (\<lambda>(i, r). route_status A pools i r)) (List.enumerate 0 routes) = map g pools"
    if "\<And>i r. i < length pools \<Longrightarrow> f (route_status A pools i r) = g (pools ! i)" for f :: "adminRouteStatus \<Rightarrow> nat" and g
    using that assms by (intro nth_equalityI) (auto simp: nth_enumerate_eq)
  show "sum_list (map (\<lambda>r. length (rs_upstreams r)) (map (\<lambda>(i, r). route_status A pools i r) (List.enumerate 0 routes))) =
      sum_list (map (\<lambda>p. length (pool_endpoints p)) pools)"
    and "sum_list (map rs_healthy (map (\<lambda>(i, r). route_status A pools i r) (List.enumerate 0 routes))) =
      sum_list (map (\<lambda>p. length (filter ep_healthy (pool_endpoints p))) pools)"
    by (simp_all only: map_map m [where f = "\<lambda>r. length (rs_upstreams r)", OF route_status_counts(1)] m [where f = rs_healthy, OF route_status_counts(2)])
qed

text \<open>
  The creation times are written with \<open>RFC3339Nano\<close>, which drops trailing zeros, and compared
  as text: a key of a whole second sorts as newer than one created half a second later.
\<close>

lemma key_order_is_not_chronological:
  "map ak_created_at (newest_first [
      key_of_record ''vial-gateway:apikey:a'' [(''name'', ''old''), (''created_at'', ''2026-01-01T00:00:05Z'')],
      key_of_record ''vial-gateway:apikey:b'' [(''name'', ''new''), (''created_at'', ''2026-01-01T00:00:05.5Z'')]]) =
    [''2026-01-01T00:00:05Z'', ''2026-01-01T00:00:05.5Z'']"
  by code_simp

section \<open>Walking the audit log\<close>

text \<open>
  Documented behaviour of \<open>XREVRANGE\<close> on a stream that nobody changes, newest entry first:
  from \<open>+\<close> it returns the newest entries, from an exclusive identifier those older than it.
\<close>

definition audit_server :: "'w redis_server \<Rightarrow> 'w \<Rightarrow> (string \<times> (string \<times> string) list) list \<Rightarrow> bool" where
  "audit_server S w stream \<longleftrightarrow>
     (\<forall>c n. rs_exec S c (XREVRANGE auditKey ''+'' ''-'' n) w = (RStream (take (nat n) stream), w)) \<and>
     (\<forall>c n newer eid ms older. stream = newer @ (eid, ms) # older \<longrightarrow>
        rs_exec S c (XREVRANGE auditKey (CHR ''('' # eid) ''-'' n) w = (RStream (take (nat n) older), w))"

text \<open>A client that follows the cursors, reading the JSON of each response.\<close>

definition page_of :: "writer \<Rightarrow> (json list \<times> string) option" where
  "page_of wr = (case w_body wr of
      [Encoded (JObj [(_, JArr events), (_, JStr next_cursor)])] \<Rightarrow> Some (events, next_cursor)
    | _ \<Rightarrow> None)"

primrec audit_walk :: "(string \<Rightarrow> writer) \<Rightarrow> nat \<Rightarrow> string \<Rightarrow> json list option" where
  "audit_walk fetch 0 before = None"
| "audit_walk fetch (Suc n) before = (case page_of (fetch before) of
      None \<Rightarrow> None
    | Some (events, next_cursor) \<Rightarrow>
        if next_cursor = [] then Some events else map_option ((@) events) (audit_walk fetch n next_cursor))"

lemma page_of_json: "page_of (write_json s (JObj [(a, JArr es), (b, JStr c)]) new_writer) = Some (es, c)"
  by (simp add: page_of_def write_json_def Let_def set_header_def write_header_def write_chunk_def new_writer_def)

lemma audit_limit_range: "1 \<le> audit_limit t \<and> audit_limit t \<le> 200"
  by (auto simp: audit_limit_def split: option.split)

lemma cursor_ok_nonempty: "cursor_ok c \<Longrightarrow> c \<noteq> []"
  by (auto simp: cursor_ok_def split_char_def)

lemma audit_page_from:
  assumes "audit_server S w stream" and "\<forall>m \<in> set stream. cursor_ok (fst m)" and "\<And>b. al_query A (req b) ''before'' = b"
    and "\<And>b. audit_limit (al_query A (req b) ''limit'') = limit"
    and stream: "stream = newer @ older" and bd: "b = (if newer = [] then [] else fst (last newer))"
  shows "page_of (fst (run S c (listAudit A (req b) i) m w)) =
    (case audit_page limit (take (nat (limit + 1)) older) of (events, cursor) \<Rightarrow> Some (map entry_json events, cursor))"
proof -
  have b: "b = [] \<longleftrightarrow> newer = []" "b \<noteq> [] \<Longrightarrow> cursor_ok b"
    using assms(2) stream cursor_ok_nonempty by (auto simp: bd)
  have "rs_exec S c (XREVRANGE auditKey (if b \<noteq> [] then CHR ''('' # b else ''+'') ''-'' (limit + 1)) w =
      (RStream (take (nat (limit + 1)) older), w)"
  proof (cases "newer = []")
    case True
    with assms(1) stream show ?thesis by (simp add: audit_server_def bd)
  next
    case False
    then have "stream = butlast newer @ (b, snd (last newer)) # older" using stream by (simp add: bd)
    with assms(1) have "rs_exec S c (XREVRANGE auditKey (CHR ''('' # b) ''-'' (limit + 1)) w =
        (RStream (take (nat (limit + 1)) older), w)" unfolding audit_server_def by blast
    with False b(1) show ?thesis by simp
  qed
  with b(2) assms(3,4) show ?thesis by (auto simp: listAudit_def Let_def page_of_json split: prod.split)
qed

lemma audit_page_last:
  assumes "1 \<le> limit" and "length older \<le> nat limit"
  shows "audit_page limit (take (nat (limit + 1)) older) = (map audit_entry older, [])"
proof -
  have "nat (limit + 1) = Suc (nat limit)" "\<not> limit < int (length older)" using assms by linarith+
  with assms(2) show ?thesis by (simp add: audit_page_def Let_def)
qed

lemma audit_page_more:
  assumes "1 \<le> limit" and "nat limit < length older"
  shows "audit_page limit (take (nat (limit + 1)) older) =
    (map audit_entry (take (nat limit) older), fst (last (take (nat limit) older)))"
proof -
  have l: "nat (limit + 1) = Suc (nat limit)" "take (nat limit) older \<noteq> []" using assms by auto
  have "int (length (take (nat (limit + 1)) older)) > limit" using assms by (simp add: l)
  moreover have "take (nat limit) (take (nat (limit + 1)) older) = take (nat limit) older" by (simp add: l)
  ultimately show ?thesis using l(2) by (simp add: audit_page_def Let_def audit_entry_def last_map del: take_eq_Nil)
qed

lemma audit_walk_from:
  assumes "audit_server S w stream" and "\<forall>m \<in> set stream. cursor_ok (fst m)" and "\<And>b. al_query A (req b) ''before'' = b"
    and "\<And>b. audit_limit (al_query A (req b) ''limit'') = limit" and "1 \<le> limit"
  shows "stream = newer @ older \<Longrightarrow> length older < n \<Longrightarrow>
    audit_walk (\<lambda>b. fst (run S c (listAudit A (req b) i) m w)) n (if newer = [] then [] else fst (last newer)) =
      Some (map (\<lambda>e. entry_json (audit_entry e)) older)"
proof (induction n arbitrary: newer older)
  case (Suc n)
  obtain b where bd: "b = (if newer = [] then [] else fst (last newer))" by blast
  note p = audit_page_from [where S = S, OF assms(1-4) Suc.prems(1) bd, of c i m]
  show ?case
  proof (cases "length older > nat limit")
    case False
    then have "length older \<le> nat limit" by simp
    from p [unfolded audit_page_last [OF assms(5) this]] show ?thesis unfolding bd [symmetric] by (simp add: comp_def)
  next
    case True
    let ?head = "take (nat limit) older"
    from True assms(5) have ne: "?head \<noteq> []" by auto
    then have "last ?head \<in> set stream" using Suc.prems(1) by (metis Un_iff in_set_takeD last_in_set set_append)
    then have nn: "fst (last ?head) \<noteq> []" using assms(2) cursor_ok_nonempty by blast
    have "stream = (newer @ ?head) @ drop (nat limit) older" "length (drop (nat limit) older) < n"
      using Suc.prems assms(5) True by auto
    from Suc.IH [OF this] ne have ih: "audit_walk (\<lambda>b. fst (run S c (listAudit A (req b) i) m w)) n (fst (last ?head)) =
        Some (map (\<lambda>e. entry_json (audit_entry e)) (drop (nat limit) older))" by (simp del: take_eq_Nil)
    have "map (\<lambda>e. entry_json (audit_entry e)) ?head @ map (\<lambda>e. entry_json (audit_entry e)) (drop (nat limit) older) =
        map (\<lambda>e. entry_json (audit_entry e)) older" by (metis append_take_drop_id map_append)
    with p [unfolded audit_page_more [OF assms(5) True]] nn ih show ?thesis unfolding bd [symmetric] by (simp add: comp_def)
  qed
qed simp


definition stream_server :: "(string \<times> (string \<times> string) list) list \<Rightarrow> unit redis_server" where
  "stream_server stream = \<lparr>rs_exec = (\<lambda>c cmd w. case cmd of
      XREVRANGE k start stop n \<Rightarrow> (RStream (take (nat n) (if start = ''+'' then stream else tl (dropWhile (\<lambda>m. fst m \<noteq> tl start) stream))), w)
    | _ \<Rightarrow> (RErr, w)), rs_view = (\<lambda>_ _. None), rs_watched = (\<lambda>_ _. {}), rs_dirty = (\<lambda>_ _. False)\<rparr>"

lemma audit_server_stream: "distinct (map fst stream) \<Longrightarrow> audit_server (stream_server stream) () stream"
  by (auto simp: audit_server_def stream_server_def dropWhile_append) force

definition sample_admin_lib :: admin_lib where
  "sample_admin_lib = \<lparr>al_url = ol_url sample_oidc, al_query = (\<lambda>q k. if k = ''before'' then q_request_uri q else ''1''),
     al_breaker = (\<lambda>_. ''closed''), al_page = (\<lambda>_ _ _ _. []), al_styles = [], al_script = [], al_query_url = (\<lambda>_ _. None),
     al_do = (\<lambda>_. None), al_decode = (\<lambda>_. None), al_parse_float = (\<lambda>_. FloatError), al_format_float = (\<lambda>_. [])\<rparr>"

definition sample_events :: "(string \<times> (string \<times> string) list) list" where
  "sample_events = [(''2-0'', [(''action'', ''config.create'')]), (''1-0'', [(''action'', ''session.login'')])]"


end
