(* ===== verification/Admin_Api.thy ===== *)
theory Admin_Api
  imports Admin_Read
begin

text \<open>
  The administration interface as a whole: the route table of \<open>newControlPlane\<close>, its
  \<open>ServeHTTP\<close>, and what holds for every request that reaches it. The processes of the
  system run these handlers, the start of a gateway and its watch loop against one Redis; the
  locale \<open>invariant_system\<close> is interpreted on their interleavings.

  What a request draws from its surroundings is in \<open>call\<close>: the time, the random bytes of
  its successive \<open>rand.Read\<close> calls, the PKCE verifier, the path parameters of the mux, and
  fuel for the loops over \<open>SCAN\<close>.
\<close>

section \<open>Definitions\<close>

record call =
  ca_now :: string
  ca_random :: "nat \<Rightarrow> bytes option"
  ca_verifier :: string
  ca_path :: "string \<Rightarrow> string"
  ca_fuel :: nat

record plane =
  pl_lib :: control_lib
  pl_oidc :: oidc_lib
  pl_admin :: admin_lib
  pl_config :: adminConfig
  pl_bearer :: string

definition protected :: "plane \<Rightarrow> (http_request \<Rightarrow> adminIdentity \<Rightarrow> ('k control, writer option) prog)
    \<Rightarrow> http_request \<Rightarrow> ('k control, writer option) prog" where
  "protected P handler = protect (pl_lib P) (pl_config P) handler"

definition managed :: "plane \<Rightarrow> (http_request \<Rightarrow> adminIdentity \<Rightarrow> ('k, writer) handler_prog)
    \<Rightarrow> http_request \<Rightarrow> ('k control, writer option) prog" where
  "managed P handler = protected P (\<lambda>q i. on_manager (lift (handler q i)))"

definition control_routes :: "plane \<Rightarrow> call \<Rightarrow> (string \<times> (http_request \<Rightarrow> ('k control, writer option) prog)) list" where
  "control_routes P call = (let L = pl_lib P; OI = pl_oidc P; A = pl_admin P; config = pl_config P; now = ca_now call in [
     (''GET /admin/assets/app.css'', \<lambda>q. lift (adminCSS A q)),
     (''GET /admin/assets/app.js'', \<lambda>q. lift (adminJS A q)),
     (''GET /admin/login'', \<lambda>q. lift (login L OI config (ca_random call 0) (ca_verifier call) (ca_random call 1) q)),
     (''GET /admin/callback'', \<lambda>q. lift (callback L OI config (ca_random call 0) (ca_random call 1) now q)),
     (''GET /admin'', managed P (dashboard A)),
     (''POST /admin/logout'', protected P (\<lambda>q i. lift (logout L OI config now q i))),
     (''GET /admin/v1/status'', managed P (status A (pl_bearer P))),
     (''GET /admin/v1/statistics'', protected P (\<lambda>q i. lift (statistics A config q i))),
     (''POST /admin/v1/configs/validate'', managed P (validateConfig L)),
     (''POST /admin/v1/configs'', managed P (createConfig L now)),
     (''GET /admin/v1/configs'', protected P (\<lambda>q i. on_manager (listConfigs (ca_fuel call) q i))),
     (''GET /admin/v1/configs/{version}'', protected P (\<lambda>q i. lift (getConfig (ca_path call ''version'') q i))),
     (''DELETE /admin/v1/configs/{version}'', managed P (deleteConfig now (ca_path call ''version''))),
     (''POST /admin/v1/configs/{version}/activate'', managed P (activateConfig L ''activate'' now (ca_path call ''version''))),
     (''POST /admin/v1/configs/{version}/rollback'', managed P (activateConfig L ''rollback'' now (ca_path call ''version''))),
     (''GET /admin/v1/api-keys'', protected P (listAPIKeys (ca_fuel call))),
     (''POST /admin/v1/api-keys'', managed P (createAPIKey L (randomToken (ca_random call 0)) now)),
     (''DELETE /admin/v1/api-keys/{id}'', managed P (revokeAPIKey now (ca_path call ''id''))),
     (''POST /admin/v1/cache/invalidate'', protected P (\<lambda>q i. on_manager (invalidateCache L (ca_fuel call) now q i))),
     (''GET /admin/v1/audit'', protected P (\<lambda>q i. lift (listAudit A q i)))])"

definition control_ServeHTTP :: "plane \<Rightarrow> call \<Rightarrow> http_request \<Rightarrow> ('k control, writer option) prog" where
  "control_ServeHTTP P call request =
     (let routes = control_routes P call in
      case Option.bind (mx_match (cl_mux (pl_lib P)) (map fst routes) request) (map_of routes) of
        None \<Rightarrow> Ret (Some (mx_default (cl_mux (pl_lib P)) request new_writer))
      | Some handler \<Rightarrow> handler request)"

text \<open>The programs that run against Redis: requests, and the start of a gateway with its watch loop.\<close>

inductive control_program :: "plane \<Rightarrow> ('k control, writer option) prog \<Rightarrow> bool" for P where
  request: "control_program P (control_ServeHTTP P call request)"
| start: "control_program P (on_manager (bind (Start (pl_lib P) configuration) (\<lambda>_. bind (watch (pl_lib P) events) (\<lambda>_. Ret None))))"

definition store_start :: "'w redis_server \<Rightarrow> ('k control, writer option, 'w) system \<Rightarrow> bool" where
  "store_start S s \<longleftrightarrow> config_server S \<and> store_ok (rs_view S (sy_world s)) \<and> (\<forall>c. \<exists>r. sy_thread s c = Ret r)"

definition public_patterns :: "string list" where
  "public_patterns = [''GET /admin/assets/app.css'', ''GET /admin/assets/app.js'', ''GET /admin/login'', ''GET /admin/callback'']"

section \<open>Facts\<close>

text \<open>Programs that write no key of the configuration store.\<close>

primrec harmless :: "('m, 'r) prog \<Rightarrow> bool" where
  "harmless (Ret r) \<longleftrightarrow> True"
| "harmless (Cmd cmd k) \<longleftrightarrow> (\<forall>key. is_config_key key \<longrightarrow> \<not> writes_key cmd key) \<and> (\<forall>r. harmless (k r))"
| "harmless (Local u k) \<longleftrightarrow> (\<forall>m. harmless (k m))"

lemma same_config_trans: "same_config s t \<Longrightarrow> same_config t u \<Longrightarrow> same_config s u"
  by (simp add: same_config_def)

lemma harmless_run:
  assumes S: "config_server S"
  shows "harmless p \<Longrightarrow> run S c p m w = (r, m', w') \<Longrightarrow> same_config (rs_view S w') (rs_view S w)"
proof (induction p arbitrary: m w)
  case (Cmd cmd k)
  obtain x w1 where e: "rs_exec S c cmd w = (x, w1)" by (metis surj_pair)
  have "effect cmd (rs_view S w) key = rs_view S w key" if "is_config_key key" for key
    using Cmd.prems(1) that by (intro effect_unwritten) simp
  then have eff: "same_config (effect cmd (rs_view S w)) (rs_view S w)" by (simp add: same_config_def)
  from S e have "exec_ok S c cmd w x w1" by (auto simp: config_server_def)
  then have "same_config (rs_view S w1) (rs_view S w)"
    unfolding exec_ok_def using eff same_config_trans by blast
  moreover have "same_config (rs_view S w') (rs_view S w1)"
    using Cmd.prems e by (auto intro: Cmd.IH)
  ultimately show ?case using same_config_trans by blast
next
  case (Local u k)
  then show ?case by (auto intro: Local.IH [OF rangeI])
qed auto

lemma harmless_bind: "harmless p \<Longrightarrow> (\<And>r. harmless (f r)) \<Longrightarrow> harmless (bind p f)"
  by (induction p) auto

lemma harmless_simps [simp]:
  "harmless (fault s c m)" "harmless unavailable" "harmless (json_answer s fs)"
  "harmless (audit now a b t p) \<longleftrightarrow> harmless p" "harmless p \<Longrightarrow> harmless (lift p)"
  by (auto simp: fault_def unavailable_def json_answer_def audit_def writes_key_def lift_def intro: harmless_bind)

lemma session_writes [simp]: "is_config_key k \<Longrightarrow> sessionKeyPrefix @ x \<noteq> k"
  using not_config_keys(3) by blast

lemma harmless_public:
  "harmless (login L OI config a v b request)" "harmless (callback L OI config a b now request)"
  "harmless (admin_authenticate L config request Ret)"
  by (auto simp: login_def callback_def create_session_def initOIDC_def admin_authenticate_def session_auth_def Let_def writes_key_def
      split: option.split reply.split sum.split)

lemma session_auth_bind: "session_auth L request k = bind (session_auth L request Ret) k"
  by (auto simp: session_auth_def fun_eq_iff split: option.split reply.split)

lemma authenticate_bind: "admin_authenticate L config request k = bind (admin_authenticate L config request Ret) k"
  using session_auth_bind [of L request k]
  by (auto simp: admin_authenticate_def Let_def fun_eq_iff split: reply.split)

text \<open>What the CSRF protection demands of a changing request in a browser session.\<close>

definition carries_csrf :: "control_lib \<Rightarrow> adminIdentity \<Rightarrow> http_request \<Rightarrow> bool" where
  "carries_csrf L i request \<longleftrightarrow> \<not> ai_session i \<or> q_method request \<in> {''GET'', ''HEAD''} \<or>
     ai_csrf i = (if header_get (q_header request) ''X-CSRF-Token'' = [] then cl_form L request ''csrf''
                  else header_get (q_header request) ''X-CSRF-Token'')"

lemma csrf_ok_iff: "csrf_ok L i request \<longleftrightarrow> carries_csrf L i request"
  by (auto simp: csrf_ok_def carries_csrf_def Let_def)

lemma protect_cases:
  assumes S: "config_server S" and run: "run S c (protect L config h request) m w = (wr, m', w')"
  shows "m' = m \<and> same_config (rs_view S w') (rs_view S w) \<and> (\<exists>v. wr = Some v \<and> w_code v \<in> {401, 403, 302}) \<or>
    (\<exists>i. backed S c L config request w i \<and> csrf_ok L i request)"
proof -
  obtain i w1 where a: "run S c (admin_authenticate L config request Ret) m w = (i, m, w1)"
    and b: "case i of None \<Rightarrow> True | Some i \<Rightarrow> backed S c L config request w i"
    using run_admin_authenticate [of S c L config request Ret m w] by auto
  have same: "same_config (rs_view S w1) (rs_view S w)" using harmless_run [OF S harmless_public(3) a] .
  have eq: "protect L config h request = bind (admin_authenticate L config request Ret) (\<lambda>identity. case identity of
      None \<Rightarrow> if u_path (q_url request) = ''/admin'' \<and> ad_oidc_issuer config \<noteq> []
              then Ret (Some (redirect ''/admin/login'' new_writer))
              else lift (fault 401 ''admin_unauthorized'' ''gateway.admin scope is required'')
    | Some identity \<Rightarrow>
        if \<not> csrf_ok L identity request then lift (fault 403 ''csrf_failed'' ''A valid CSRF token is required'')
        else h request identity)"
    unfolding protect_def by (rule authenticate_bind)
  from run a b same show ?thesis
    unfolding eq
    by (auto simp: run_bind run_lift redirect_def write_header_def set_header_def split: option.splits if_splits)
qed

lemma safe_protected: "(\<And>i K. safe (h q i) K) \<Longrightarrow> safe (protected P h q) K"
  unfolding protected_def by (rule safe_protect)

lemma safe_managed: "(\<And>i K. safe (h q i) K) \<Longrightarrow> safe (managed P h q) K"
  unfolding managed_def by (intro safe_protected safe_on_manager safe_lift)

lemmas safe_handlers = safe_dashboard safe_logout safe_status safe_statistics safe_validateConfig safe_createConfig safe_listConfigs
  safe_getConfig safe_deleteConfig safe_activateConfig safe_listAPIKeys safe_createAPIKey safe_revokeAPIKey safe_invalidateCache safe_listAudit
  safe_login safe_callback

lemma safe_control_routes: "(p, h) \<in> set (control_routes P call) \<Longrightarrow> safe (h q) K"
  unfolding control_routes_def Let_def adminCSS_def adminJS_def
  by (simp only: list.set insert_iff empty_iff prod.inject)
     (elim disjE conjE; simp only: False_implies_equals;
      (intro safe_managed safe_protected safe_on_manager safe_lift safe_handlers safe.simps(1) [THEN fun_cong, THEN iffD2] TrueI)?)

lemma safe_control_program: "control_program P p \<Longrightarrow> safe p K"
proof (induction rule: control_program.induct)
  case (request call request)
  show ?case
    unfolding control_ServeHTTP_def Let_def
    by (auto split: option.split intro: safe_control_routes dest: map_of_SomeD simp: bind_eq_Some_conv)
next
  case (start configuration events)
  show ?case by (intro safe_on_manager safe_bind safe_Start safe_watch) simp
qed

lemma store_start_inv: "store_start S s \<Longrightarrow> system_inv S s"
  unfolding store_start_def system_inv_def by (metis safe.simps(1) knows_ignorant)

interpretation store: invariant_system "store_start S" "sys_step S (control_program P)" "system_inv S" for S P
  by unfold_locales (auto intro: store_start_inv system_inv_step safe_control_program)

definition guarded :: "plane \<Rightarrow> (http_request \<Rightarrow> ('k control, writer option) prog) \<Rightarrow> bool" where
  "guarded P h \<longleftrightarrow> (\<exists>handler. h = protected P handler)"

lemma guarded_intros: "guarded P (protected P handler)" "guarded P (managed P handler')"
  unfolding guarded_def managed_def by blast+

lemma control_routes_guarded:
  "(p, h) \<in> set (control_routes P call) \<Longrightarrow> p \<in> set public_patterns \<or> guarded P h"
  unfolding control_routes_def Let_def public_patterns_def
  by (simp only: list.set insert_iff empty_iff prod.inject)
     (elim disjE conjE; simp only: False_implies_equals guarded_intros; simp)

primrec keeps_manager :: "('k control, 'r) prog \<Rightarrow> bool" where
  "keeps_manager (Ret r) \<longleftrightarrow> True"
| "keeps_manager (Cmd cmd k) \<longleftrightarrow> (\<forall>r. keeps_manager (k r))"
| "keeps_manager (Local u k) \<longleftrightarrow> (\<forall>cp. cp_manager (u cp) = cp_manager cp \<and> keeps_manager (k cp))"

lemma keeps_manager_run: "keeps_manager p \<Longrightarrow> run S c p cp w = (r, cp', w') \<Longrightarrow> cp_manager cp' = cp_manager cp"
proof (induction p arbitrary: cp w)
  case (Cmd cmd k)
  then show ?case by (auto split: prod.splits intro: Cmd.IH [OF rangeI])
next
  case (Local u k)
  then show ?case using Local.IH [OF rangeI, of cp "u cp" w] by simp
qed simp

lemma keeps_manager_public:
  "keeps_manager (login L OI config a v b request)" "keeps_manager (callback L OI config a b now request)"
  by (auto simp: login_def callback_def create_session_def initOIDC_def fault_def unavailable_def audit_def Let_def
      split: option.split reply.split sum.split)

lemma keeps_manager_bind: "keeps_manager p \<Longrightarrow> (\<And>r. keeps_manager (f r)) \<Longrightarrow> keeps_manager (bind p f)"
  by (induction p) auto

lemma keeps_manager_lift: "keeps_manager p \<Longrightarrow> keeps_manager (lift p)"
  unfolding lift_def by (rule keeps_manager_bind) simp_all

lemma public_handlers:
  assumes "(p, h) \<in> set (control_routes P call)" and "p \<in> set public_patterns"
  shows "harmless (h q) \<and> keeps_manager (h q)"
proof -
  from assms have "h = (\<lambda>q. lift (adminCSS (pl_admin P) q)) \<or> h = (\<lambda>q. lift (adminJS (pl_admin P) q)) \<or>
    h = (\<lambda>q. lift (login (pl_lib P) (pl_oidc P) (pl_config P) (ca_random call 0) (ca_verifier call) (ca_random call 1) q)) \<or>
    h = (\<lambda>q. lift (callback (pl_lib P) (pl_oidc P) (pl_config P) (ca_random call 0) (ca_random call 1) (ca_now call) q))"
    unfolding control_routes_def Let_def public_patterns_def by auto
  then show ?thesis
    by (auto simp: adminCSS_def adminJS_def harmless_public intro!: keeps_manager_lift keeps_manager_public harmless_simps(5))
qed

text \<open>
  C1: Only administrators change anything. Whatever request reaches the administration
  interface, either the active configuration of the process, with everything else of its router
  manager, and all configuration keys in Redis stay as they are, or the request was backed by the
  bootstrap key, by a live Redis key with the scope \<open>gateway.admin\<close> or by a session with that
  scope and, for a change, its CSRF token. And a request to any pattern but the login, its
  callback and the two assets is answered with 401, 403 or the redirect to the login unless it
  was backed.
\<close>

theorem only_administrators_pass:
  fixes cp :: "'k control"
  assumes "config_server S" and "run S c (control_ServeHTTP P call request) cp w = (wr, cp', w')"
  shows "(cp_manager cp' = cp_manager cp \<and> same_config (rs_view S w') (rs_view S w) \<or>
      (\<exists>i. backed S c (pl_lib P) (pl_config P) request w i \<and> carries_csrf (pl_lib P) i request)) \<and>
    (\<forall>pattern. mx_match (cl_mux (pl_lib P)) (map fst (control_routes P call :: (string \<times> (http_request \<Rightarrow> ('k control, writer option) prog)) list)) request =
        Some pattern \<and> pattern \<in> fst ` set (control_routes P call :: (string \<times> (http_request \<Rightarrow> ('k control, writer option) prog)) list) - set public_patterns \<longrightarrow>
      (\<exists>v. wr = Some v \<and> w_code v \<in> {401, 403, 302}) \<or>
      (\<exists>i. backed S c (pl_lib P) (pl_config P) request w i \<and> carries_csrf (pl_lib P) i request))"
proof -
  let ?R = "control_routes P call :: (string \<times> (http_request \<Rightarrow> ('k control, writer option) prog)) list"
  let ?M = "mx_match (cl_mux (pl_lib P)) (map fst ?R) request"
  show ?thesis
  proof (cases "Option.bind ?M (map_of ?R)")
    case None
    then have "p \<notin> fst ` set ?R" if "?M = Some p" for p using that by (simp add: map_of_eq_None_iff)
    moreover have "cp' = cp \<and> w' = w" using assms(2) None by (simp add: control_ServeHTTP_def Let_def)
    ultimately show ?thesis by (auto simp: same_config_def)
  next
    case (Some h)
    then obtain p where p: "?M = Some p" "map_of ?R p = Some h" by (auto simp: bind_eq_Some_conv)
    then have mem: "(p, h) \<in> set ?R" by (simp add: map_of_SomeD)
    have run: "run S c (h request) cp w = (wr, cp', w')" using assms(2) Some by (simp add: control_ServeHTTP_def Let_def)
    show ?thesis
    proof (cases "p \<in> set public_patterns")
      case True
      then have "harmless (h request)" "keeps_manager (h request)" using public_handlers [OF mem] by blast+
      from harmless_run [OF assms(1) this(1) run] keeps_manager_run [OF this(2) run] True p(1) show ?thesis by auto
    next
      case False
      with control_routes_guarded [OF mem] obtain handler where "h = protected P handler" by (auto simp: guarded_def)
      with run protect_cases [OF assms(1), of c "pl_lib P" "pl_config P" handler request cp w wr cp' w'] show ?thesis
        by (auto simp: protected_def csrf_ok_iff)
    qed
  qed
qed


text \<open>
  C3: Stored versions are immutable: in every reachable state of the store, no step of any
  handler changes the content of a stored version; it can only be added or deleted.
\<close>

theorem stored_versions_are_immutable:
  assumes "reach (store_start S) (sys_step S (control_program P)) s" and "sys_step S (control_program P) s t"
    and "rs_view S (sy_world s) (configKey n) = Some x" and "rs_view S (sy_world t) (configKey n) = Some y"
  shows "x = y"
  using store.reach_inv [OF assms(1)] assms(2-4) by (rule version_immutable_step)

section \<open>Witnesses\<close>

definition sample_plane :: plane where
  "sample_plane = \<lparr>pl_lib = session_lib\<lparr>cl_mux := \<lparr>mx_conflict = (\<lambda>_ _. False), mx_match = (\<lambda>ps q. Some (q_request_uri q)),
       mx_default = (\<lambda>_ w. w)\<rparr>\<rparr>, pl_oidc = sample_oidc, pl_admin = sample_admin_lib, pl_config = empty_admin, pl_bearer = []\<rparr>"

definition sample_call :: call where
  "sample_call = \<lparr>ca_now = ''now'', ca_random = (\<lambda>_. Some ''rnd''), ca_verifier = ''ver'', ca_path = (\<lambda>_. ''1''), ca_fuel = 1\<rparr>"

definition sample_system :: "(unit control, writer option, mem) system" where
  "sample_system = \<lparr>sy_thread = (\<lambda>_. Ret None), sy_world = sample_mem\<rparr>"

lemma sample_start: "store_start mem_server sample_system"
proof -
  have "format_int 1 = ''1''" "activeConfigKey \<noteq> configKey 1" "in_int64 1" by (code_simp, simp, simp add: in_int64_def)
  then have "store_ok (mm_keys sample_mem)"
    by (auto simp: store_ok_def sample_mem_def intro!: exI [where x = 1])
  then show ?thesis by (simp add: store_start_def sample_system_def config_server_mem) (simp add: mem_server_def)
qed

definition delete_request :: http_request where
  "delete_request = (cookie_request ''nobody'')\<lparr>q_method := ''DELETE'', q_request_uri := ''DELETE /admin/v1/configs/{version}''\<rparr>"

theorem only_administrators_pass_witness:
  "\<exists>v. fst (run mem_server 0 (control_ServeHTTP sample_plane sample_call delete_request) sample_control sample_mem) = Some v \<and>
     w_code v \<in> {401, 403, 302}"
proof -
  let ?R = "control_routes sample_plane sample_call :: (string \<times> (http_request \<Rightarrow> (unit control, writer option) prog)) list"
  let ?p = "''DELETE /admin/v1/configs/{version}''"
  obtain wr cp' w' where r: "run mem_server 0 (control_ServeHTTP sample_plane sample_call delete_request) sample_control sample_mem = (wr, cp', w')"
    by (metis prod_cases3)
  have m: "mx_match (cl_mux (pl_lib sample_plane)) (map fst ?R) delete_request = Some ?p"
    by (simp add: sample_plane_def delete_request_def)
  have "?p \<in> fst ` set ?R" by (simp add: control_routes_def Let_def)
  moreover have "?p \<notin> set public_patterns" by (simp add: public_patterns_def)
  moreover have "\<not> backed mem_server 0 (pl_lib sample_plane) (pl_config sample_plane) delete_request sample_mem i" for i
  proof -
    have q: "q_header delete_request = q_header (cookie_request ''nobody'')" by (simp add: delete_request_def)
    have "admin_secret delete_request = []" using cookie_request_fields(1) [of "''nobody''"] unfolding admin_secret_def q .
    moreover have "cl_cookie (pl_lib sample_plane) delete_request = Some ''nobody''" by (simp add: sample_plane_def session_lib_def q)
    moreover have "mm_keys sample_mem (sessionKeyPrefix @ ''nobody'') = None"
      by (simp add: sample_mem_def sessionKeyPrefix_def activeConfigKey_def configKey_def configKeyPrefix_def)
    ultimately show ?thesis by (simp add: backed_def session_backed_def mem_server_def)
  qed
  ultimately show ?thesis using only_administrators_pass [OF config_server_mem r] m r by auto
qed


theorem stored_versions_are_immutable_witness:
  "\<exists>x. rs_view mem_server sample_mem (configKey 1) = Some x"
proof -
  let ?p = "control_ServeHTTP sample_plane sample_call delete_request :: (unit control, writer option) prog"
  let ?t = "sample_system\<lparr>sy_thread := (sy_thread sample_system)(0 := ?p)\<rparr>"
  have r: "reach (store_start mem_server) (sys_step mem_server (control_program sample_plane)) sample_system"
    by (rule reach_start) (rule sample_start)
  have "sys_step mem_server (control_program sample_plane) sample_system ?t"
    by (rule spawn [where r = None]) (simp add: sample_system_def, rule control_program.intros)
  from stored_versions_are_immutable [OF r this, where n = 1 and x = "Str ''{}''" and y = "Str ''{}''"]
  show ?thesis by (simp add: sample_system_def mem_server_def sample_mem_def)
qed

end
