(* ===== verification/Dynamic_DNS.thy ===== *)
theory Dynamic_DNS
  imports Access_Control Sample_Config
begin

text \<open>
  The dynamic-DNS worker of \<open>dynamic_dns.go\<close>: \<open>sync\<close> discovers the public address and
  registers it when it has changed, \<open>run\<close> repeats that on a ticker until its context is done.

  Parameters, in \<open>dns_lib\<close>: the HTTP client (with its timeout), \<open>net.ParseIP\<close> (of
  \<open>parsers\<close>), the text of an address and \<open>url.QueryEscape\<close>. The predicates of
  \<open>net.IP\<close> are modelled on the bytes of an address. A run is given by the answers of each
  of its iterations; \<open>so_sent\<close> are the requests handed to the client, in order.
\<close>

section \<open>Definitions\<close>

definition ip_byte :: "bytes \<Rightarrow> nat \<Rightarrow> nat" where
  "ip_byte ip i = (if i < length ip then of_char (ip ! i) else 0)"

definition is_loopback :: "bytes \<Rightarrow> bool" where
  "is_loopback ip \<longleftrightarrow> (case ip_to4 ip of
      Some ip4 \<Rightarrow> ip_byte ip4 0 = 127
    | None \<Rightarrow> map of_char ip = replicate 15 0 @ [1 :: nat])"

definition is_private :: "bytes \<Rightarrow> bool" where
  "is_private ip \<longleftrightarrow> (case ip_to4 ip of
      Some ip4 \<Rightarrow> ip_byte ip4 0 = 10 \<or> ip_byte ip4 0 = 172 \<and> ip_byte ip4 1 div 16 = 1 \<or> ip_byte ip4 0 = 192 \<and> ip_byte ip4 1 = 168
    | None \<Rightarrow> length ip = 16 \<and> ip_byte ip 0 div 2 = 126)"

definition is_unspecified :: "bytes \<Rightarrow> bool" where
  "is_unspecified ip \<longleftrightarrow> (case ip_to4 ip of
      Some ip4 \<Rightarrow> map of_char ip4 = replicate 4 (0 :: nat)
    | None \<Rightarrow> map of_char ip = replicate 16 (0 :: nat))"

definition is_multicast :: "bytes \<Rightarrow> bool" where
  "is_multicast ip \<longleftrightarrow> (case ip_to4 ip of
      Some ip4 \<Rightarrow> ip_byte ip4 0 div 16 = 14
    | None \<Rightarrow> length ip = 16 \<and> ip_byte ip 0 = 255)"

definition is_link_local :: "bytes \<Rightarrow> bool" where
  "is_link_local ip \<longleftrightarrow> (case ip_to4 ip of
      Some ip4 \<Rightarrow> ip_byte ip4 0 = 169 \<and> ip_byte ip4 1 = 254
    | None \<Rightarrow> length ip = 16 \<and> ip_byte ip 0 = 254 \<and> ip_byte ip 1 div 64 = 2)"

definition is_global_unicast :: "bytes \<Rightarrow> bool" where
  "is_global_unicast ip \<longleftrightarrow> (length ip = 4 \<or> length ip = 16) \<and>
     map_option (map of_char) (ip_to4 ip) \<noteq> Some (replicate 4 (255 :: nat)) \<and>
     \<not> is_unspecified ip \<and> \<not> is_loopback ip \<and> \<not> is_multicast ip \<and> \<not> is_link_local ip"

record dns_request =
  dr_url :: string
  dr_header :: header

record dns_lib =
  dl_parsers :: parsers
  dl_request_ok :: "string \<Rightarrow> bool"   \<comment> \<open>\<open>http.NewRequestWithContext\<close> accepts the URL\<close>
  dl_do :: "dns_request \<Rightarrow> string + (int \<times> reader)"
  dl_ip_string :: "bytes \<Rightarrow> string"
  dl_escape :: "string \<Rightarrow> string"

record dynamicDNSWorker =
  dw_config :: dynamicDNSConfig
  dw_bearer :: string
  dw_last_ip :: string

record sync_outcome =
  so_result :: "go_error + bool"
  so_worker :: dynamicDNSWorker
  so_sent :: "dns_request list"

definition newDynamicDNSWorker :: "dynamicDNSConfig \<Rightarrow> string \<Rightarrow> dynamicDNSWorker" where
  "newDynamicDNSWorker configuration bearer = \<lparr>dw_config = configuration, dw_bearer = bearer, dw_last_ip = []\<rparr>"

definition check_request :: "dynamicDNSWorker \<Rightarrow> dns_request" where
  "check_request worker = \<lparr>dr_url = dd_check_url (dw_config worker),
     dr_header = header_set (header_set (header_set [] ''Accept'' ''text/plain'') ''Cache-Control'' ''no-cache'')
       ''User-Agent'' ''vial-gateway-dynamic-dns/1''\<rparr>"

definition update_request :: "dns_lib \<Rightarrow> dynamicDNSWorker \<Rightarrow> string \<Rightarrow> dns_request" where
  "update_request D worker canonical =
     (let h = header_set (header_set [] ''Accept'' ''application/json, text/plain;q=0.9'') ''User-Agent'' ''vial-gateway-dynamic-dns/1''
      in \<lparr>dr_url = replace_all (dd_update_url (dw_config worker)) ''{ip}'' (dl_escape D canonical),
          dr_header = (if dw_bearer worker \<noteq> [] then header_set h ''Authorization'' (''Bearer '' @ dw_bearer worker) else h)\<rparr>)"

definition two_hundreds :: "int \<Rightarrow> bool" where
  "two_hundreds code \<longleftrightarrow> \<not> (code < 200 \<or> code \<ge> 300)"

definition discover :: "dns_lib \<Rightarrow> dynamicDNSWorker \<Rightarrow> go_error + bytes" where
  "discover D worker = (case dl_do D (check_request worker) of
      Inl err \<Rightarrow> Inl (Errorf ''discover public IP: %w'' [err])
    | Inr (code, body) \<Rightarrow>
        if \<not> two_hundreds code then Inl (Errorf ''discover public IP: HTTP %d'' [format_int code])
        else (case read_all (limit_reader body 129) of
            Inl err \<Rightarrow> Inl (Errorf ''read public IP: %w'' [''read failed''])
          | Inr data \<Rightarrow>
              if length data > 128 then Inl (Errorf ''public IP response is too large'' [])
              else (case parse_ip (dl_parsers D) (trim_space data) of
                  None \<Rightarrow> Inl (Errorf ''public IP endpoint returned a non-public address'' [])
                | Some ip \<Rightarrow>
                    if \<not> is_global_unicast ip \<or> is_private ip \<or> is_loopback ip
                    then Inl (Errorf ''public IP endpoint returned a non-public address'' [])
                    else Inr ip)))"

definition publish :: "dns_lib \<Rightarrow> dynamicDNSWorker \<Rightarrow> string \<Rightarrow> sync_outcome" where
  "publish D worker canonical =
     (let update = update_request D worker canonical; check = check_request worker in
      if \<not> dl_request_ok D (dr_url update)
      then \<lparr>so_result = Inl (Errorf ''invalid URL'' []), so_worker = worker, so_sent = [check]\<rparr>
      else (case dl_do D update of
          Inl err \<Rightarrow> \<lparr>so_result = Inl (Errorf ''update dynamic DNS: %w'' [err]), so_worker = worker, so_sent = [check, update]\<rparr>
        | Inr (code, body) \<Rightarrow>
            if \<not> two_hundreds code
            then \<lparr>so_result = Inl (Errorf ''update dynamic DNS: HTTP %d'' [format_int code]), so_worker = worker, so_sent = [check, update]\<rparr>
            else \<lparr>so_result = Inr True, so_worker = worker\<lparr>dw_last_ip := canonical\<rparr>, so_sent = [check, update]\<rparr>))"

definition sync :: "dns_lib \<Rightarrow> dynamicDNSWorker \<Rightarrow> sync_outcome" where
  "sync D worker =
     (if \<not> dl_request_ok D (dd_check_url (dw_config worker))
      then \<lparr>so_result = Inl (Errorf ''invalid URL'' []), so_worker = worker, so_sent = []\<rparr>
      else (case discover D worker of
          Inl err \<Rightarrow> \<lparr>so_result = Inl err, so_worker = worker, so_sent = [check_request worker]\<rparr>
        | Inr ip \<Rightarrow>
            (let canonical = dl_ip_string D ip in
             if canonical = dw_last_ip worker
             then \<lparr>so_result = Inr False, so_worker = worker, so_sent = [check_request worker]\<rparr>
             else publish D worker canonical)))"

text \<open>
  One iteration has the answers of its calls and says whether the context was done when a call
  failed. The list ends when the context is done at the \<open>select\<close>.
\<close>

fun dns_loop :: "(dns_lib \<times> bool) list \<Rightarrow> dynamicDNSWorker \<Rightarrow> gatewayMetrics \<Rightarrow> dynamicDNSWorker \<times> gatewayMetrics \<times> dns_request list" where
  "dns_loop [] worker m = (worker, m, [])"
| "dns_loop ((D, cancelled) # its) worker m =
     (let out = sync D worker; count = (\<lambda>k. m\<lparr>gm_dynamic_dns := inc (gm_dynamic_dns m) k\<rparr>) in
      case so_result out of
        Inl err \<Rightarrow>
          if cancelled then (so_worker out, m, so_sent out)
          else (case dns_loop its (so_worker out) (count ''error'') of (worker, m, sent) \<Rightarrow> (worker, m, so_sent out @ sent))
      | Inr changed \<Rightarrow>
          (case dns_loop its (so_worker out) (count (if changed then ''updated'' else ''unchanged'')) of
             (worker, m, sent) \<Rightarrow> (worker, m, so_sent out @ sent)))"

definition dns_run :: "(dns_lib \<times> bool) list \<Rightarrow> dynamicDNSWorker \<Rightarrow> gatewayMetrics
    \<Rightarrow> (dynamicDNSWorker \<times> gatewayMetrics \<times> dns_request list) option" where
  "dns_run its worker m = (if dd_interval (dw_config worker) \<le> 0 then None else Some (dns_loop its worker m))"
  \<comment> \<open>\<open>time.NewTicker\<close> panics on an interval that is not positive\<close>

section \<open>Facts\<close>

definition public_address :: "bytes \<Rightarrow> bool" where
  "public_address ip \<longleftrightarrow> is_global_unicast ip \<and> \<not> is_private ip"

lemma discover_public: "discover D worker = Inr ip \<Longrightarrow> public_address ip"
  by (auto simp: discover_def public_address_def split: sum.splits prod.splits if_splits option.splits)

lemma publish_fields:
  "so_worker (publish D worker c) = (if so_result (publish D worker c) = Inr True then worker\<lparr>dw_last_ip := c\<rparr> else worker)"
  "so_sent (publish D worker c) = [check_request worker] \<or> so_sent (publish D worker c) = [check_request worker, update_request D worker c]"
  "so_result (publish D worker c) \<noteq> Inr False"
  by (auto simp: publish_def Let_def split: sum.splits prod.splits)

lemma check_has_no_token: "header_get (dr_header (check_request worker)) ''Authorization'' = []"
proof -
  have "canonical_key ''Authorization'' \<noteq> canonical_key ''Accept''" "canonical_key ''Authorization'' \<noteq> canonical_key ''Cache-Control''"
    "canonical_key ''Authorization'' \<noteq> canonical_key ''User-Agent''" by code_simp+
  then show ?thesis by (simp add: check_request_def hdr_simps) (simp add: header_get_def)
qed

text \<open>An accepted configuration never panics on its ticker.\<close>

lemma validated_worker_runs:
  assumes "dynamic_dns_validate P environment c = None" and "dd_enabled c"
  shows "dns_run its (newDynamicDNSWorker c bearer) m \<noteq> None"
proof -
  have "\<not> dd_interval c < 10 * second"
    using assms by (auto simp: dynamic_dns_validate_def and_then_def split: if_splits option.splits)
  then show ?thesis by (simp add: dns_run_def newDynamicDNSWorker_def)
qed

text \<open>
  The shared address space of carrier-grade NAT and the documentation ranges are neither private
  nor special to \<open>net.IP\<close>: the worker registers them although they are not public.
\<close>

lemma shared_address_space_counts_as_public:
  "public_address (map char_of [100, 64, 0, 1 :: nat])" "public_address (map char_of [192, 0, 2, 1 :: nat])"
  by code_simp+

section \<open>Properties\<close>

definition registered :: "dns_lib \<Rightarrow> dynamicDNSWorker \<Rightarrow> string \<Rightarrow> bool" where
  "registered D worker text \<longleftrightarrow> (\<exists>ip code body. discover D worker = Inr ip \<and> public_address ip \<and> text = dl_ip_string D ip \<and>
     dl_do D (update_request D worker text) = Inr (code, body) \<and> two_hundreds code)"

lemma last_ip_requests [simp]:
  "check_request (worker\<lparr>dw_last_ip := x\<rparr>) = check_request worker" "update_request D (worker\<lparr>dw_last_ip := x\<rparr>) = update_request D worker"
  by (simp_all add: check_request_def update_request_def Let_def fun_eq_iff)

lemma last_ip_discover [simp]:
  "discover D (worker\<lparr>dw_last_ip := x\<rparr>) = discover D worker" "registered D (worker\<lparr>dw_last_ip := x\<rparr>) = registered D worker"
  by (simp_all add: discover_def [of D "worker\<lparr>dw_last_ip := x\<rparr>"] discover_def [of D worker, symmetric] registered_def fun_eq_iff)

lemma publish_True:
  "so_result (publish D worker c) = Inr True \<Longrightarrow> \<exists>code body. dl_do D (update_request D worker c) = Inr (code, body) \<and> two_hundreds code"
  by (auto simp: publish_def Let_def split: sum.splits prod.splits if_splits)

lemma sync_cases:
  "so_worker (sync D worker) = worker \<and> set (so_sent (sync D worker)) \<subseteq> {check_request worker} \<or>
   (\<exists>ip. discover D worker = Inr ip \<and> dl_ip_string D ip \<noteq> dw_last_ip worker \<and> sync D worker = publish D worker (dl_ip_string D ip))"
  by (cases "discover D worker") (auto simp: sync_def Let_def)

lemma keep_last_ip: "\<exists>x. worker = worker\<lparr>dw_last_ip := x\<rparr> \<and> (x = dw_last_ip worker \<or> Q x)"
  by (rule exI [of _ "dw_last_ip worker"]) simp

lemma sync_spec:
  "\<exists>x. so_worker (sync D worker) = worker\<lparr>dw_last_ip := x\<rparr> \<and> (x = dw_last_ip worker \<or> registered D worker x)"
  "\<forall>req \<in> set (so_sent (sync D worker)). req = check_request worker \<or>
     (\<exists>ip. discover D worker = Inr ip \<and> public_address ip \<and> dl_ip_string D ip \<noteq> dw_last_ip worker \<and>
        req = update_request D worker (dl_ip_string D ip))"
proof -
  consider "so_worker (sync D worker) = worker" "set (so_sent (sync D worker)) \<subseteq> {check_request worker}"
    | ip where "discover D worker = Inr ip" "dl_ip_string D ip \<noteq> dw_last_ip worker" "sync D worker = publish D worker (dl_ip_string D ip)"
    using sync_cases by blast
  then have "(\<exists>x. so_worker (sync D worker) = worker\<lparr>dw_last_ip := x\<rparr> \<and> (x = dw_last_ip worker \<or> registered D worker x)) \<and>
    (\<forall>req \<in> set (so_sent (sync D worker)). req = check_request worker \<or>
     (\<exists>ip. discover D worker = Inr ip \<and> public_address ip \<and> dl_ip_string D ip \<noteq> dw_last_ip worker \<and>
        req = update_request D worker (dl_ip_string D ip)))"
  proof cases
    case 1
    then show ?thesis using keep_last_ip [of worker] by auto
  next
    case (2 ip)
    note pub = discover_public [OF 2(1)]
    have "\<exists>x. so_worker (publish D worker (dl_ip_string D ip)) = worker\<lparr>dw_last_ip := x\<rparr> \<and> (x = dw_last_ip worker \<or> registered D worker x)"
    proof (cases "so_result (publish D worker (dl_ip_string D ip)) = Inr True")
      case True
      with publish_True [OF True] 2(1) pub have "registered D worker (dl_ip_string D ip)" by (auto simp: registered_def)
      with True publish_fields(1) [of D worker "dl_ip_string D ip"] show ?thesis by auto
    next
      case False
      with publish_fields(1) [of D worker "dl_ip_string D ip"] keep_last_ip [of worker] show ?thesis by simp
    qed
    with 2 pub publish_fields(2) [of D worker "dl_ip_string D ip"] show ?thesis by auto
  qed
  then show "\<exists>x. so_worker (sync D worker) = worker\<lparr>dw_last_ip := x\<rparr> \<and> (x = dw_last_ip worker \<or> registered D worker x)"
    and "\<forall>req \<in> set (so_sent (sync D worker)). req = check_request worker \<or>
     (\<exists>ip. discover D worker = Inr ip \<and> public_address ip \<and> dl_ip_string D ip \<noteq> dw_last_ip worker \<and>
        req = update_request D worker (dl_ip_string D ip))" by blast+
qed

lemma sync_idempotent:
  assumes "so_result (sync D worker) = Inr True"
  shows "so_result (sync D (so_worker (sync D worker))) = Inr False"
proof -
  obtain ip where ip: "discover D worker = Inr ip" "sync D worker = publish D worker (dl_ip_string D ip)"
    and ok: "dl_request_ok D (dd_check_url (dw_config worker))"
    using assms by (cases "discover D worker") (auto simp: sync_def Let_def split: if_splits)
  with assms publish_fields(1) [of D worker "dl_ip_string D ip"] have "so_worker (sync D worker) = worker\<lparr>dw_last_ip := dl_ip_string D ip\<rparr>" by simp
  with ip ok show ?thesis by (simp add: sync_def [of D "worker\<lparr>dw_last_ip := _\<rparr>"] Let_def)
qed

definition proper :: "dns_lib set \<Rightarrow> dynamicDNSWorker \<Rightarrow> dns_request \<Rightarrow> bool" where
  "proper Ds worker req \<longleftrightarrow> req = check_request worker \<or>
     (\<exists>D \<in> Ds. \<exists>ip. discover D worker = Inr ip \<and> public_address ip \<and> req = update_request D worker (dl_ip_string D ip))"

lemma proper_last_ip [simp]: "proper Ds (worker\<lparr>dw_last_ip := x\<rparr>) = proper Ds worker"
  by (simp add: proper_def fun_eq_iff)

lemma proper_mono: "proper Ds worker req \<Longrightarrow> Ds \<subseteq> Es \<Longrightarrow> proper Es worker req"
  unfolding proper_def by blast

lemma sync_proper: "req \<in> set (so_sent (sync D worker)) \<Longrightarrow> D \<in> Ds \<Longrightarrow> proper Ds worker req"
  using sync_spec(2) [of D worker] unfolding proper_def by blast

lemma dns_loop_step:
  assumes "dns_loop ((D, cancelled) # its) worker m = (worker', m', sent)"
  obtains "worker' = so_worker (sync D worker)" "sent = so_sent (sync D worker)"
  | m1 tail where "dns_loop its (so_worker (sync D worker)) m1 = (worker', m', tail)" "sent = so_sent (sync D worker) @ tail"
  using assms by (cases "so_result (sync D worker)"; cases cancelled) (auto simp: Let_def split: prod.splits)

lemma dns_loop_spec:
  assumes "dns_loop its worker m = (worker', m', sent)"
  shows "\<exists>x. worker' = worker\<lparr>dw_last_ip := x\<rparr> \<and> (x = dw_last_ip worker \<or> (\<exists>D \<in> fst ` set its. registered D worker x))"
    and "\<forall>req \<in> set sent. proper (fst ` set its) worker req"
proof -
  have "(\<exists>x. worker' = worker\<lparr>dw_last_ip := x\<rparr> \<and> (x = dw_last_ip worker \<or> (\<exists>D \<in> fst ` set its. registered D worker x))) \<and>
    (\<forall>req \<in> set sent. proper (fst ` set its) worker req)"
    using assms
  proof (induction its arbitrary: worker m sent)
    case Nil
    then show ?case using keep_last_ip [of worker] by simp
  next
    case (Cons it its)
    obtain D cancelled where it: "it = (D, cancelled)" by (cases it)
    obtain x where x: "so_worker (sync D worker) = worker\<lparr>dw_last_ip := x\<rparr>" "x = dw_last_ip worker \<or> registered D worker x"
      using sync_spec(1) by blast
    have head: "proper (fst ` set (it # its)) worker req" if "req \<in> set (so_sent (sync D worker))" for req
      using that by (rule sync_proper) (simp add: it)
    from Cons.prems [unfolded it] show ?case
    proof (cases rule: dns_loop_step)
      case 1
      with x head it show ?thesis by auto
    next
      case (2 m1 tail)
      from Cons.IH [OF 2(1)] obtain y where
        y: "worker' = worker\<lparr>dw_last_ip := y\<rparr>" "y = x \<or> (\<exists>D \<in> fst ` set its. registered D worker y)"
        and tail: "\<forall>req \<in> set tail. proper (fst ` set its) worker req" unfolding x(1) by auto
      have "\<forall>req \<in> set sent. proper (fst ` set (it # its)) worker req"
        unfolding 2(2) using head tail by (auto intro: proper_mono)
      with x(2) y it show ?thesis by auto
    qed
  qed
  then show "\<exists>x. worker' = worker\<lparr>dw_last_ip := x\<rparr> \<and> (x = dw_last_ip worker \<or> (\<exists>D \<in> fst ` set its. registered D worker x))"
    and "\<forall>req \<in> set sent. proper (fst ` set its) worker req" by blast+
qed


section \<open>Witness\<close>

definition sample_dns :: dns_lib where
  "sample_dns = \<lparr>dl_parsers = sample_parsers\<lparr>parse_ip := (\<lambda>_. Some (map char_of [8, 8, 4, 4 :: nat]))\<rparr>, dl_request_ok = (\<lambda>_. True),
     dl_do = (\<lambda>_. Inr (200, \<lparr>rd_data = ''8.8.4.4'', rd_err = None\<rparr>)), dl_ip_string = (\<lambda>_. ''8.8.4.4''), dl_escape = (\<lambda>s. s)\<rparr>"

definition sample_dns_config :: dynamicDNSConfig where
  "sample_dns_config = \<lparr>dd_enabled = True, dd_check_url = ''https://ip.example'', dd_update_url = ''https://dns.example/?ip={ip}'',
     dd_interval = 10 * second, dd_timeout = second\<rparr>"

lemma sample_sync:
  "so_result (sync sample_dns (newDynamicDNSWorker sample_dns_config ''secret'')) = Inr True"
  "dw_last_ip (so_worker (sync sample_dns (newDynamicDNSWorker sample_dns_config ''secret''))) = ''8.8.4.4''"
  by code_simp+


end
