(* ===== verification/Lifecycle.thy ===== *)
theory Lifecycle
  imports Control_Theorems
begin

text \<open>
  The life of a gateway process: \<open>newApp\<close> (\<open>app.go\<close>), \<open>Close\<close> and the Redis guard of
  \<open>newControlPlane\<close> (\<open>control.go\<close>), and \<open>main.go\<close>: the certificate reloader,
  \<open>reloadGateway\<close>, \<open>configureTelemetry\<close>, \<open>run\<close> with its deferred calls and its signal loop.

  What lies outside the sources is a parameter: \<open>redis.ParseURL\<close>, the OTLP exporter and
  \<open>net.Listen\<close> are fields of \<open>boot_lib\<close>; \<open>tls.LoadX509KeyPair\<close> is a function from the two
  file names that may be different at every signal, since the files change; \<open>config.Load\<close> is its
  result; \<open>app.Serve\<close> is the error it returns. The locale \<open>last_good\<close> is interpreted on a
  SIGHUP, which replaces the pair of configuration and certificate, and \<open>invariant_system\<close> on
  the running process.
\<close>

section \<open>Definitions\<close>

subsection \<open>Building the application\<close>

record boot_lib =
  bl_parsers :: parsers
  bl_mux :: mux_lib
  bl_parse_redis :: "string \<Rightarrow> go_error option"   \<comment> \<open>the error of \<open>redis.ParseURL\<close>\<close>
  bl_exporter :: "string \<Rightarrow> go_error option"      \<comment> \<open>the error of \<open>otlptracehttp.New\<close>\<close>
  bl_listen :: "string \<Rightarrow> go_error option"        \<comment> \<open>the error of \<open>net.Listen\<close>\<close>

datatype redis_client = NoClient | OpenClient | ClosedClient

record 'k gatewayApp =
  ga_configuration :: applicationConfig
  ga_manager :: "'k manager"
  ga_redis :: redis_client
  ga_control :: bool      \<comment> \<open>the admin patterns are registered with a control plane\<close>

definition newControlPlane :: "redis_client \<Rightarrow> go_error option" where
  "newControlPlane client =
     (if client = NoClient then Some (Errorf ''admin control plane requires Redis'' []) else None)"

definition redisClient :: "boot_lib \<Rightarrow> string \<Rightarrow> go_error + redis_client" where
  "redisClient B raw =
     (if raw = [] then Inr NoClient
      else (case bl_parse_redis B raw of
          Some e \<Rightarrow> Inl (Errorf ''parse Redis URL: %w'' [error_text e])
        | None \<Rightarrow> Inr OpenClient))"

definition newApp :: "boot_lib \<Rightarrow> applicationConfig \<Rightarrow> go_error + 'k gatewayApp" where
  "newApp B configuration = (case app_validate (bl_parsers B) configuration of
      Some e \<Rightarrow> Inl e
    | None \<Rightarrow> (case redisClient B (a_redis_url configuration) of
          Inl e \<Rightarrow> Inl e
        | Inr client \<Rightarrow> (case Activate (bl_parsers B) (bl_mux B) (a_gateway configuration)
              (new_manager (a_environment configuration) (a_control_only configuration)) of
              (Some e, _) \<Rightarrow> Inl e
            | (None, manager) \<Rightarrow>
                (case (if ad_enabled (a_admin configuration) then newControlPlane client else None) of
                   Some e \<Rightarrow> Inl e
                 | None \<Rightarrow> Inr \<lparr>ga_configuration = configuration, ga_manager = manager, ga_redis = client,
                     ga_control = ad_enabled (a_admin configuration)\<rparr>))))"

definition gateway_Close :: "'k gatewayApp \<Rightarrow> 'k gatewayApp" where
  "gateway_Close gateway = gateway\<lparr>
     ga_manager := (case mg_current (ga_manager gateway) of
         None \<Rightarrow> ga_manager gateway
       | Some snapshot \<Rightarrow> cancel_snapshot (sn_id snapshot) (ga_manager gateway)),
     ga_redis := (if ga_redis gateway \<noteq> NoClient then ClosedClient else NoClient)\<rparr>"

subsection \<open>Certificates and reload\<close>

type_synonym 'cert keypairs = "string \<Rightarrow> string \<Rightarrow> go_error + 'cert"

record 'cert certificateReloader =
  cr_current :: "'cert option"

definition loadCertificate :: "'cert keypairs \<Rightarrow> string \<Rightarrow> string \<Rightarrow> go_error + 'cert" where
  "loadCertificate files certFile keyFile = (case files certFile keyFile of
      Inl e \<Rightarrow> Inl e
    | Inr certificate \<Rightarrow> Inr certificate)"

definition get_certificate :: "'cert certificateReloader \<Rightarrow> go_error + 'cert" where
  "get_certificate reloader = (case cr_current reloader of
      None \<Rightarrow> Inl (Errorf ''TLS certificate is not loaded'' [])
    | Some certificate \<Rightarrow> Inr certificate)"

type_synonym ('k, 'cert) served_state = "'k manager \<times> 'cert certificateReloader option"

definition reloadGateway :: "parsers \<Rightarrow> mux_lib \<Rightarrow> 'cert keypairs \<Rightarrow> applicationConfig \<Rightarrow> ('k, 'cert) served_state
    \<Rightarrow> go_error option \<times> ('k, 'cert) served_state" where
  "reloadGateway P M files replacement state = (case state of (manager, certificates) \<Rightarrow>
     (case app_validate P replacement of
        Some e \<Rightarrow> (Some e, state)
      | None \<Rightarrow>
          (let tlsEnabled = (tls_cert_file (a_tls replacement) \<noteq> []) in
           if tlsEnabled \<noteq> (certificates \<noteq> None)
           then (Some (Errorf ''TLS listener mode cannot change during reload'' []), state)
           else (case (if tlsEnabled
                       then map_sum id Some (loadCertificate files (tls_cert_file (a_tls replacement)) (tls_key_file (a_tls replacement)))
                       else Inr None) of
               Inl e \<Rightarrow> (Some e, state)
             | Inr certificate \<Rightarrow> (case Activate P M (a_gateway replacement) manager of
                   (Some e, manager) \<Rightarrow> (Some e, (manager, certificates))
                 | (None, manager) \<Rightarrow> (None, (manager, (case certificate of
                       None \<Rightarrow> certificates
                     | Some c \<Rightarrow> map_option (cr_current_update (\<lambda>_. Some c)) certificates))))))))"

text \<open>One turn of the signal loop on SIGHUP: \<open>config.Load\<close> and then the reload. Errors are only
  logged by the loop.\<close>

type_synonym 'cert hangup = "'cert keypairs \<times> (go_error + applicationConfig)"

definition sighup :: "parsers \<Rightarrow> mux_lib \<Rightarrow> 'cert hangup \<Rightarrow> ('k, 'cert) served_state
    \<Rightarrow> go_error option \<times> ('k, 'cert) served_state" where
  "sighup P M h state = (case h of
      (files, Inl e) \<Rightarrow> (Some e, state)
    | (files, Inr replacement) \<Rightarrow> reloadGateway P M files replacement state)"

subsection \<open>The process\<close>

record ('k, 'cert) process =
  ps_telemetry :: "string option"   \<comment> \<open>service name of the running tracer provider\<close>
  ps_app :: "'k gatewayApp option"
  ps_listening :: bool
  ps_certificates :: "'cert certificateReloader option"
  ps_watching :: bool               \<comment> \<open>the goroutine of \<open>watch\<close> runs\<close>
  ps_cancelled :: bool              \<comment> \<open>the context of \<open>run\<close> is cancelled\<close>

definition new_process :: "('k, 'cert) process" where
  "new_process = \<lparr>ps_telemetry = None, ps_app = None, ps_listening = False, ps_certificates = None,
     ps_watching = False, ps_cancelled = False\<rparr>"

definition configureTelemetry :: "boot_lib \<Rightarrow> telemetryConfig \<Rightarrow> go_error + string option" where
  "configureTelemetry B configuration =
     (if tc_otlp_endpoint configuration = [] then Inr None
      else (case bl_exporter B (tc_otlp_endpoint configuration) of
          Some e \<Rightarrow> Inl e
        | None \<Rightarrow> Inr (Some (if tc_service_name configuration = [] then ''vial-gateway'' else tc_service_name configuration))))"

definition wrap_error :: "string \<Rightarrow> go_error \<Rightarrow> go_error" where
  "wrap_error message e = Errorf (message @ '': %w'') [error_text e]"

text \<open>The part of \<open>run\<close> before \<open>app.Serve\<close>; the process returned with an error holds what was
  set up before the failing call.\<close>

definition startup :: "boot_lib \<Rightarrow> 'cert keypairs \<Rightarrow> go_error + applicationConfig \<Rightarrow> go_error option \<times> ('k, 'cert) process" where
  "startup B files loaded = (case loaded of
      Inl e \<Rightarrow> (Some (wrap_error ''load configuration'' e), new_process)
    | Inr configuration \<Rightarrow> (case app_validate (bl_parsers B) configuration of
        Some e \<Rightarrow> (Some (wrap_error ''validate configuration'' e), new_process)
      | None \<Rightarrow> (case configureTelemetry B (g_telemetry (a_gateway configuration)) of
          Inl e \<Rightarrow> (Some (wrap_error ''configure telemetry'' e), new_process)
        | Inr telemetry \<Rightarrow>
            (let p = new_process\<lparr>ps_telemetry := telemetry\<rparr> in
             case newApp B configuration of
               Inl e \<Rightarrow> (Some (wrap_error ''configure gateway'' e), p)
             | Inr gateway \<Rightarrow>
                 (let p = p\<lparr>ps_app := Some gateway\<rparr> in
                  case bl_listen B (a_http_address configuration) of
                    Some e \<Rightarrow> (Some (wrap_error ''listen'' e), p)
                  | None \<Rightarrow>
                      (let p = p\<lparr>ps_listening := True\<rparr>;
                           started = p\<lparr>ps_watching := (ga_redis gateway \<noteq> NoClient)\<rparr> in
                       if tls_cert_file (a_tls configuration) = [] then (None, started)
                       else (case loadCertificate files (tls_cert_file (a_tls configuration)) (tls_key_file (a_tls configuration)) of
                           Inl e \<Rightarrow> (Some (wrap_error ''load TLS certificate'' e), p\<lparr>ps_certificates := Some \<lparr>cr_current = None\<rparr>\<rparr>)
                         | Inr c \<Rightarrow> (None, started\<lparr>ps_certificates := Some \<lparr>cr_current = Some c\<rparr>\<rparr>))))))))"

datatype 'cert signal = SIGHUP "'cert hangup" | SIGINT | SIGTERM

definition with_app :: "(('k, 'cert) served_state \<Rightarrow> ('k, 'cert) served_state) \<Rightarrow> ('k, 'cert) process \<Rightarrow> ('k, 'cert) process" where
  "with_app f p = (case ps_app p of
      None \<Rightarrow> p
    | Some gateway \<Rightarrow> (case f (ga_manager gateway, ps_certificates p) of (manager, certificates) \<Rightarrow>
        p\<lparr>ps_app := Some (gateway\<lparr>ga_manager := manager\<rparr>), ps_certificates := certificates\<rparr>))"

definition handle_signal :: "boot_lib \<Rightarrow> 'cert signal \<Rightarrow> ('k, 'cert) process \<Rightarrow> ('k, 'cert) process" where
  "handle_signal B received p = (case received of
      SIGHUP h \<Rightarrow> with_app (\<lambda>state. snd (sighup (bl_parsers B) (bl_mux B) h state)) p
    | _ \<Rightarrow> p\<lparr>ps_cancelled := True\<rparr>)"

text \<open>The goroutine returns after the first signal that is not SIGHUP.\<close>

fun signal_loop :: "boot_lib \<Rightarrow> 'cert signal list \<Rightarrow> ('k, 'cert) process \<Rightarrow> ('k, 'cert) process" where
  "signal_loop B [] p = p"
| "signal_loop B (s # ss) p =
     (let p = handle_signal B s p in if ps_cancelled p then p else signal_loop B ss p)"

text \<open>The deferred calls of \<open>run\<close>, last one first: cancel the context (which ends \<open>watch\<close>), close
  the listener, close the application, shut the tracer provider down.\<close>

definition release :: "('k, 'cert) process \<Rightarrow> ('k, 'cert) process" where
  "release p = p\<lparr>ps_cancelled := True, ps_watching := False, ps_listening := False,
     ps_app := map_option gateway_Close (ps_app p), ps_telemetry := None\<rparr>"

definition gateway_run :: "boot_lib \<Rightarrow> 'cert keypairs \<Rightarrow> go_error + applicationConfig \<Rightarrow> 'cert signal list \<Rightarrow> go_error option
    \<Rightarrow> go_error option \<times> ('k, 'cert) process" where
  "gateway_run B files loaded signals serve = (case startup B files loaded of
      (Some e, p) \<Rightarrow> (Some e, release p)
    | (None, p) \<Rightarrow> (let p = signal_loop B signals p in
        (case serve of
           Some e \<Rightarrow> if \<not> ps_cancelled p then Some (wrap_error ''run gateway'' e) else None
         | None \<Rightarrow> None, release p)))"

section \<open>Building the application\<close>

lemma Activate_redis_version [simp]: "mg_redis_version (snd (Activate P M g mg)) = mg_redis_version mg"
  by (auto simp: Activate_def Let_def cancel_snapshot_def split: sum.splits option.splits)

lemma app_validate_parts:
  assumes "app_validate P c = None"
  shows "gateway_validate P (a_gateway c) (a_environment c) (a_control_only c) = None"
    and "ad_enabled (a_admin c) \<Longrightarrow> a_redis_url c \<noteq> []"
  using assms by (auto simp: app_validate_def admin_validate_def Let_def split: if_splits)

lemma redisClient_Inr:
  "redisClient B raw = Inr client \<longleftrightarrow>
     (if raw = [] then client = NoClient else bl_parse_redis B raw = None \<and> client = OpenClient)"
  by (auto simp: redisClient_def split: option.splits)

lemma newApp_fields:
  fixes gateway :: "'k gatewayApp"
  assumes "newApp B c = Inr gateway"
  shows "ga_configuration gateway = c \<and> ga_control gateway = ad_enabled (a_admin c) \<and>
    ga_manager gateway = snd (Activate (bl_parsers B) (bl_mux B) (a_gateway c) (new_manager (a_environment c) (a_control_only c))) \<and>
    fst (Activate (bl_parsers B) (bl_mux B) (a_gateway c) (new_manager (a_environment c) (a_control_only c)) :: go_error option \<times> 'k manager) = None \<and>
    redisClient B (a_redis_url c) = Inr (ga_redis gateway) \<and> app_validate (bl_parsers B) c = None"
  using assms by (auto simp: newApp_def split: option.splits sum.splits prod.splits if_splits)

lemma manager_inv_new [simp]: "manager_inv (new_manager e a)"
  by (simp add: manager_inv_def new_manager_def)

lemma newApp_manager_inv: "newApp B c = Inr gateway \<Longrightarrow> manager_inv (ga_manager gateway)"
  by (simp add: newApp_fields manager_inv_Activate)

lemma manager_env_new [simp]:
  "mg_environment (new_manager e a) = e" "mg_allow_no_routes (new_manager e a) = a"
  by (simp_all add: new_manager_def)

section \<open>Reload\<close>

definition served :: "('k, 'cert) served_state \<Rightarrow> (GatewayConfig \<times> 'cert option) option" where
  "served state = map_option (\<lambda>g. (g, Option.bind (snd state) cr_current)) (active_config (fst state))"

definition reload_ok :: "parsers \<Rightarrow> mux_lib \<Rightarrow> string \<Rightarrow> bool \<Rightarrow> bool \<Rightarrow> 'cert hangup \<Rightarrow> bool" where
  "reload_ok P M environment allow tls h = (case h of
      (files, Inl e) \<Rightarrow> False
    | (files, Inr c) \<Rightarrow> app_validate P c = None \<and> (tls_cert_file (a_tls c) \<noteq> []) = tls \<and>
        (tls \<longrightarrow> \<not> isl (files (tls_cert_file (a_tls c)) (tls_key_file (a_tls c)))) \<and>
        accepts_config P M environment allow (a_gateway c))"

definition reload_content :: "bool \<Rightarrow> 'cert hangup \<Rightarrow> GatewayConfig \<times> 'cert option" where
  "reload_content tls h = (let c = projr (snd h) in (a_gateway c,
     if tls then Some (projr (fst h (tls_cert_file (a_tls c)) (tls_key_file (a_tls c)))) else None))"

lemma sighup_accepted:
  assumes "reload_ok P M (mg_environment mg) (mg_allow_no_routes mg) (certs \<noteq> None) h"
  shows "sighup P M h (mg, certs) = (None, snd (sighup P M h (mg, certs))) \<and>
    served (snd (sighup P M h (mg, certs))) = Some (reload_content (certs \<noteq> None) h)"
proof -
  from assms obtain files c where h: "h = (files, Inr c)" by (auto simp: reload_ok_def split: prod.splits sum.splits)
  with assms have "accepts_config P M (mg_environment mg) (mg_allow_no_routes mg) (a_gateway c)" by (simp add: reload_ok_def)
  from Activate_accepted [OF this] obtain mg' where a: "Activate P M (a_gateway c) mg = (None, mg')" "active_config mg' = Some (a_gateway c)"
    by (cases "Activate P M (a_gateway c) mg") (auto simp: active_config_def)
  show ?thesis
  proof (cases certs)
    case None
    with assms h a show ?thesis by (simp add: sighup_def reloadGateway_def reload_ok_def served_def reload_content_def)
  next
    case (Some r)
    with assms h obtain k where "files (tls_cert_file (a_tls c)) (tls_key_file (a_tls c)) = Inr k"
      by (auto simp: reload_ok_def isl_def) (metis sum.exhaust)
    with assms h a Some show ?thesis
      by (simp add: sighup_def reloadGateway_def reload_ok_def served_def reload_content_def loadCertificate_def)
  qed
qed

lemma sighup_rejected:
  assumes "\<not> reload_ok P M (mg_environment mg) (mg_allow_no_routes mg) (certs \<noteq> None) h"
  shows "(\<exists>e. fst (sighup P M h (mg, certs)) = Some e) \<and> active_config (fst (snd (sighup P M h (mg, certs)))) = active_config mg \<and>
    snd (snd (sighup P M h (mg, certs))) = certs"
proof -
  obtain files l where h: "h = (files, l)" by (cases h)
  show ?thesis
  proof (cases l)
    case (Inl e)
    with h show ?thesis by (simp add: sighup_def)
  next
    case (Inr c)
    note c = this
    show ?thesis
    proof (cases "accepts_config P M (mg_environment mg) (mg_allow_no_routes mg) (a_gateway c)")
      case True
      with assms h c show ?thesis
        by (auto simp: sighup_def reloadGateway_def reload_ok_def loadCertificate_def split: option.split sum.split)
    next
      case False
      from Activate_rejected [OF this] obtain e where
        "Activate P M (a_gateway c) mg = (Some e, mg\<lparr>mg_metrics := count_reload ''rejected'' (mg_metrics mg), mg_next := Suc (mg_next mg)\<rparr>)" by blast
      with h c show ?thesis
        by (auto simp: sighup_def reloadGateway_def active_config_def Let_def split: option.split sum.split)
    qed
  qed
qed

lemma sighup_manager:
  "fst (snd (sighup P M h (mg, certs))) \<in> {mg, snd (Activate P M (a_gateway (projr (snd h))) mg)}"
  by (auto simp: sighup_def reloadGateway_def Let_def split: prod.splits sum.splits option.splits)

lemma sighup_frame:
  "mg_environment (fst (snd (sighup P M h (mg, certs)))) = mg_environment mg"
  "mg_allow_no_routes (fst (snd (sighup P M h (mg, certs)))) = mg_allow_no_routes mg"
  "(snd (snd (sighup P M h (mg, certs))) \<noteq> None) = (certs \<noteq> None)"
  "manager_inv mg \<Longrightarrow> manager_inv (fst (snd (sighup P M h (mg, certs))))"
  "mg_redis_version (fst (snd (sighup P M h (mg, certs)))) = mg_redis_version mg"
proof -
  note fst_eq = sighup_manager [of P M h mg certs]
  have snd_eq: "(snd (snd (sighup P M h (mg, certs))) \<noteq> None) = (certs \<noteq> None)"
    by (auto simp: sighup_def reloadGateway_def Let_def split: prod.splits sum.splits option.splits)
  show "mg_environment (fst (snd (sighup P M h (mg, certs)))) = mg_environment mg"
    "mg_allow_no_routes (fst (snd (sighup P M h (mg, certs)))) = mg_allow_no_routes mg"
    "mg_redis_version (fst (snd (sighup P M h (mg, certs)))) = mg_redis_version mg"
    using fst_eq by auto
  show "(snd (snd (sighup P M h (mg, certs))) \<noteq> None) = (certs \<noteq> None)" by (rule snd_eq)
  show "manager_inv (fst (snd (sighup P M h (mg, certs))))" if "manager_inv mg"
    using fst_eq that by (auto intro: manager_inv_Activate)
qed

lemma sighup_loaded:
  assumes "\<And>r. certs = Some r \<Longrightarrow> cr_current r \<noteq> None" and "snd (snd (sighup P M h (mg, certs))) = Some r'"
  shows "cr_current r' \<noteq> None"
  using assms by (auto simp: sighup_def reloadGateway_def Let_def split: prod.splits sum.splits option.splits if_splits)

interpretation hup: last_good "sighup P M" "reload_content tls" served "reload_ok P M environment allow tls"
  "\<lambda>st. mg_environment (fst st) = environment \<and> mg_allow_no_routes (fst st) = allow \<and> (snd st \<noteq> None) = tls"
  for P M environment allow tls
proof
  fix st :: "('k, 'cert) served_state" and h
  obtain mg certs where st: "st = (mg, certs)" by (cases st)
  assume ok: "mg_environment (fst st) = environment \<and> mg_allow_no_routes (fst st) = allow \<and> (snd st \<noteq> None) = tls"
  then have eq: "environment = mg_environment mg" "allow = mg_allow_no_routes mg" "tls = (certs \<noteq> None)" by (simp_all add: st)
  show "sighup P M h st = (None, snd (sighup P M h st)) \<and> served (snd (sighup P M h st)) = Some (reload_content tls h)"
    if "reload_ok P M environment allow tls h"
    using sighup_accepted [of P M mg certs h] that unfolding eq st by simp
  show "(\<exists>e. fst (sighup P M h st) = Some e) \<and> served (snd (sighup P M h st)) = served st"
    if "\<not> reload_ok P M environment allow tls h"
    using sighup_rejected [of P M mg certs h] that unfolding eq st by (simp add: served_def)
  show "mg_environment (fst (snd (sighup P M h st))) = environment \<and> mg_allow_no_routes (fst (snd (sighup P M h st))) = allow \<and>
      (snd (snd (sighup P M h st)) \<noteq> None) = tls"
    unfolding eq st by (simp only: sighup_frame)
qed

section \<open>The running process\<close>

text \<open>While \<open>run\<close> serves, signals arrive and the manager serves requests and is activated by the
  control plane and by \<open>watch\<close>.\<close>

inductive process_step :: "boot_lib \<Rightarrow> ('w, 'k) env \<Rightarrow> ('k, 'cert) process \<Rightarrow> ('k, 'cert) process \<Rightarrow> bool" for B E where
  signalled: "\<not> ps_cancelled p \<Longrightarrow> process_step B E p (handle_signal B s p)"
| traffic: "ps_app p = Some gateway \<Longrightarrow> manager_step (bl_parsers B) (bl_mux B) E (ga_manager gateway) mg \<Longrightarrow>
    process_step B E p (p\<lparr>ps_app := Some (gateway\<lparr>ga_manager := mg\<rparr>)\<rparr>)"

definition process_inv :: "bool \<Rightarrow> bool \<Rightarrow> ('k, 'cert) process \<Rightarrow> bool" where
  "process_inv up tls p \<longleftrightarrow> (\<forall>gateway. ps_app p = Some gateway \<longrightarrow> manager_inv (ga_manager gateway)) \<and>
     (up \<longrightarrow> ps_app p \<noteq> None \<and> ps_listening p \<and> (ps_certificates p \<noteq> None) = tls \<and>
        (\<forall>r. ps_certificates p = Some r \<longrightarrow> cr_current r \<noteq> None))"

definition released :: "('k, 'cert) process \<Rightarrow> bool" where
  "released p \<longleftrightarrow> ps_cancelled p \<and> \<not> ps_watching p \<and> \<not> ps_listening p \<and> ps_telemetry p = None \<and>
     (\<forall>gateway. ps_app p = Some gateway \<longrightarrow>
        mg_live (ga_manager gateway) = [] \<and> mg_dns (ga_manager gateway) = [] \<and> ga_redis gateway \<noteq> OpenClient)"

lemma startup_inv:
  "startup B files loaded = (e, p) \<Longrightarrow> process_inv (e = None) (tls_cert_file (a_tls (projr loaded)) \<noteq> []) p"
  by (auto simp: startup_def process_inv_def new_process_def Let_def newApp_manager_inv
      split: sum.splits option.splits if_splits)

lemma process_inv_signal:
  assumes "process_inv up tls p"
  shows "process_inv up tls (handle_signal B s p)"
proof (cases "(\<exists>h. s = SIGHUP h) \<and> ps_app p \<noteq> None")
  case False
  with assms show ?thesis by (auto simp: process_inv_def handle_signal_def with_app_def split: signal.split)
next
  case True
  then obtain h gateway where h: "s = SIGHUP h" "ps_app p = Some gateway" by blast
  let ?r = "snd (sighup (bl_parsers B) (bl_mux B) h (ga_manager gateway, ps_certificates p))"
  from h have q: "handle_signal B s p = p\<lparr>ps_app := Some (gateway\<lparr>ga_manager := fst ?r\<rparr>), ps_certificates := snd ?r\<rparr>"
    by (simp add: handle_signal_def with_app_def split: prod.split)
  from assms h have "manager_inv (fst ?r)" by (simp add: process_inv_def sighup_frame)
  moreover have "cr_current r' \<noteq> None" if "up" "snd ?r = Some r'" for r'
    by (rule sighup_loaded [OF _ that(2)]) (use assms that(1) in \<open>simp add: process_inv_def\<close>)
  ultimately show ?thesis using assms sighup_frame(3) [of "bl_parsers B" "bl_mux B" h "ga_manager gateway" "ps_certificates p"]
    unfolding process_inv_def q by auto
qed

inductive_cases process_stepE: "process_step B E p q"

lemma process_inv_step: "process_inv up tls p \<Longrightarrow> process_step B E p q \<Longrightarrow> process_inv up tls q"
  by (erule process_stepE) (auto simp: process_inv_signal, auto simp: process_inv_def intro: manager_inv_step)

interpretation proc: invariant_system "\<lambda>p. startup B files loaded = (e, p)" "process_step B E"
  "process_inv (e = None) (tls_cert_file (a_tls (projr loaded)) \<noteq> [])" for B files loaded e E
  by unfold_locales (auto intro: startup_inv process_inv_step)

lemma closed_gateway:
  assumes "manager_inv (ga_manager gateway)"
  shows "mg_live (ga_manager (gateway_Close gateway)) = []" and "mg_dns (ga_manager (gateway_Close gateway)) = []"
    and "ga_redis (gateway_Close gateway) \<noteq> OpenClient"
  using assms by (auto simp: gateway_Close_def manager_inv_def cancel_snapshot_def split: option.splits)

lemma released_release: "process_inv up tls p \<Longrightarrow> released (release p)"
  by (auto simp: process_inv_def released_def release_def closed_gateway)

lemma process_inv_signals: "process_inv up tls p \<Longrightarrow> process_inv up tls (signal_loop B ss p)"
  by (induction ss arbitrary: p) (simp_all add: Let_def process_inv_signal)

text \<open>A configuration that a SIGHUP brought to a replica that follows Redis stays active although the
  pointer names another one: \<open>sighup\<close> does not touch the version that \<open>load\<close> compares with the
  pointer, so the polls of \<open>watch\<close> do nothing until the pointer changes.\<close>

lemma reload_is_not_healed_by_the_watch:
  assumes "config_server S" and "in_int64 (mg_redis_version mg)" and "available S"
    and "rs_view S w activeConfigKey = Some (Str (format_int (mg_redis_version mg)))"
    and "reload_ok P M (mg_environment mg) (mg_allow_no_routes mg) False (files, Inr c)"
  shows "active_config (fst (snd (run S cl (load L) (fst (snd (sighup P M (files, Inr c) (mg, None)))) w))) = Some (a_gateway c)"
proof -
  obtain w1 where g: "rs_exec S cl (GET activeConfigKey) w = (RBytes (format_int (mg_redis_version mg)), w1)"
    using get_available [OF assms(1), of activeConfigKey w "format_int (mg_redis_version mg)" cl] assms(3,4) by auto
  have "active_config (fst (snd (sighup P M (files, Inr c) (mg, None)))) = Some (a_gateway c)"
    using sighup_accepted [of P M mg None "(files, Inr c)"] assms(5)
    by (auto simp: served_def reload_content_def)
  with g show ?thesis by (simp add: load_def parse_int64_format_int [OF assms(2)] sighup_frame)
qed

text \<open>The manager of a process is always one that activations and requests lead to from an empty
  one, so what holds of every such manager holds in the process.\<close>

definition runs_manager :: "('k, 'cert) process \<Rightarrow> 'k manager \<Rightarrow> bool" where
  "runs_manager p mg \<longleftrightarrow> (\<exists>gateway. ps_app p = Some gateway \<and> ga_manager gateway = mg)"

lemma startup_app:
  "startup B files loaded = (e, p) \<Longrightarrow> ps_app p = Some gateway \<Longrightarrow> newApp B (projr loaded) = Inr gateway"
  by (auto simp: startup_def new_process_def Let_def split: sum.splits option.splits if_splits)

lemma handle_signal_manager:
  assumes "runs_manager (handle_signal B s p) mg"
  shows "\<exists>old. runs_manager p old \<and> (mg = old \<or> manager_step (bl_parsers B) (bl_mux B) E old mg)"
proof (cases s)
  case (SIGHUP h)
  with assms obtain old where old: "ps_app p = Some old"
    and g: "mg = fst (snd (sighup (bl_parsers B) (bl_mux B) h (ga_manager old, ps_certificates p)))"
    by (auto simp: runs_manager_def handle_signal_def with_app_def split: option.splits prod.splits)
  from sighup_manager [of "bl_parsers B" "bl_mux B" h "ga_manager old" "ps_certificates p"] g
  have "mg = ga_manager old \<or> manager_step (bl_parsers B) (bl_mux B) E (ga_manager old) mg" by (auto intro: activation)
  with old show ?thesis by (auto simp: runs_manager_def)
qed (use assms in \<open>auto simp: runs_manager_def handle_signal_def\<close>)

interpretation drives: simulation "\<lambda>p. startup B files loaded = (e, p)" "process_step B E"
  "\<lambda>mg. mg = new_manager (a_environment (projr loaded)) (a_control_only (projr loaded))"
  "manager_step (bl_parsers B) (bl_mux B) E" runs_manager
  for B and files :: "'cert keypairs" and loaded e and E :: "('w, 'k) env"
proof
  fix p :: "('k, 'cert) process" and mg
  assume "startup B files loaded = (e, p)" and "runs_manager p mg"
  then obtain gateway where "newApp B (projr loaded) = Inr gateway" and mg: "mg = ga_manager gateway"
    by (auto simp: runs_manager_def startup_app)
  then have g: "mg = snd (Activate (bl_parsers B) (bl_mux B) (a_gateway (projr loaded))
      (new_manager (a_environment (projr loaded)) (a_control_only (projr loaded))))" by (simp add: newApp_fields)
  show "reach (\<lambda>mg. mg = new_manager (a_environment (projr loaded)) (a_control_only (projr loaded)))
      (manager_step (bl_parsers B) (bl_mux B) E) mg"
    unfolding g by (rule reach.reach_step [OF reach.reach_start]) (rule refl, rule activation)
next
  fix p q :: "('k, 'cert) process" and mg
  assume "process_step B E p q" and "runs_manager q mg"
  then show "\<exists>old. runs_manager p old \<and> (mg = old \<or> manager_step (bl_parsers B) (bl_mux B) E old mg)"
    by (elim process_stepE) (auto dest: handle_signal_manager, auto simp: runs_manager_def)
qed

section \<open>Properties\<close>

text \<open>
  C23: \<open>newApp\<close> builds the gateway exactly when the whole configuration validates, the Redis URL
  (when there is one) is accepted by the client library and the mux accepts every pattern; the
  missing-Redis error of \<open>newControlPlane\<close> cannot occur, because validation demanded a Redis URL.
  A gateway that was built serves its configuration, is ready, and has a control plane exactly
  when the admin plane is enabled.
\<close>

theorem newApp_succeeds_exactly:
  "(isl (newApp B c :: go_error + 'k gatewayApp) \<longleftrightarrow>
      app_validate (bl_parsers B) c \<noteq> None \<or> a_redis_url c \<noteq> [] \<and> bl_parse_redis B (a_redis_url c) \<noteq> None \<or>
      register (bl_mux B) [] (concat (map routePatterns (g_routes (a_gateway c)))) = None) \<and>
   (newApp B c = Inr (gateway :: 'k gatewayApp) \<longrightarrow>
      active_config (ga_manager gateway) = Some (a_gateway c) \<and> readiness (ga_manager gateway) = None \<and>
      ga_control gateway = ad_enabled (a_admin c) \<and> (ga_control gateway \<longrightarrow> ga_redis gateway = OpenClient))"
  (is "?iff \<and> (_ \<longrightarrow> ?built)")
proof
  let ?m = "new_manager (a_environment c) (a_control_only c) :: 'k manager"
  let ?a = "Activate (bl_parsers B) (bl_mux B) (a_gateway c) ?m"
  have act: "fst ?a = None \<longleftrightarrow> register (bl_mux B) [] (concat (map routePatterns (g_routes (a_gateway c)))) \<noteq> None"
    if "app_validate (bl_parsers B) c = None"
    using app_validate_parts(1) [OF that] by (simp add: Activate_iff accepts_config_def gateway_validate_iff)
  show ?iff
    using act app_validate_parts(2) [of "bl_parsers B" c]
    by (cases ?a) (auto simp: newApp_def redisClient_def newControlPlane_def split: option.split)
  show "newApp B c = Inr gateway \<longrightarrow> ?built"
  proof
    assume "newApp B c = Inr gateway"
    note f = newApp_fields [OF this]
    then have acc: "accepts_config (bl_parsers B) (bl_mux B) (mg_environment ?m) (mg_allow_no_routes ?m) (a_gateway c)"
      using Activate_iff by blast
    from Activate_accepted [OF acc] f have "active_config (ga_manager gateway) = Some (a_gateway c)"
      by (auto simp: active_config_def)
    moreover from f have "readiness (ga_manager gateway) = None" using Activate_ready [of "bl_parsers B" "bl_mux B" "a_gateway c" ?m] by simp
    moreover from f app_validate_parts(2) have "ga_control gateway \<longrightarrow> ga_redis gateway = OpenClient"
      by (auto simp: redisClient_Inr)
    ultimately show ?built using f by simp
  qed
qed

definition sample_boot :: boot_lib where
  "sample_boot = \<lparr>bl_parsers = sample_parsers, bl_mux = sample_mux, bl_parse_redis = (\<lambda>_. None),
     bl_exporter = (\<lambda>_. None), bl_listen = (\<lambda>_. None)\<rparr>"

definition sample_tls_app :: applicationConfig where
  "sample_tls_app = sample_app\<lparr>a_tls := \<lparr>tls_cert_file = ''tls.crt'', tls_key_file = ''tls.key''\<rparr>\<rparr>"

lemma sample_tls_app_valid: "app_validate sample_parsers sample_tls_app = None"
  by code_simp

lemma sample_tls_app_gateway [simp]: "a_gateway sample_tls_app = sample_gateway"
  by (simp add: sample_tls_app_def sample_app_def)

theorem newApp_succeeds_exactly_witness:
  "\<exists>gateway :: unit gatewayApp. newApp sample_boot sample_tls_app = Inr gateway \<and> readiness (ga_manager gateway) = None \<and>
     ga_redis gateway = OpenClient"
proof -
  note t = newApp_succeeds_exactly [of sample_boot sample_tls_app, where 'k = unit]
  from t have "\<not> isl (newApp sample_boot sample_tls_app :: go_error + unit gatewayApp)"
    using sample_tls_app_valid sample_registers by (simp add: sample_boot_def)
  then obtain gateway :: "unit gatewayApp" where "newApp sample_boot sample_tls_app = Inr gateway"
    by (cases "newApp sample_boot sample_tls_app :: go_error + unit gatewayApp") auto
  with t [of gateway] show ?thesis by (auto simp: sample_tls_app_def sample_app_def)
qed

text \<open>
  C19: Whatever SIGHUPs a process receives, with whatever configuration files and key pairs on
  disk at that time, what it serves afterwards (the routing configuration together with the
  certificate) is exactly what the last acceptable hang-up brought, and what it served before
  when none was acceptable: configuration and certificate change together or not at all.
\<close>

theorem reload_is_all_or_nothing:
  "served (fold (\<lambda>h st. snd (sighup P M h st)) hs (mg, certs)) =
     (case filter (reload_ok P M (mg_environment mg) (mg_allow_no_routes mg) (certs \<noteq> None)) (rev hs) of
        [] \<Rightarrow> served (mg, certs)
      | h # _ \<Rightarrow> Some (reload_content (certs \<noteq> None) h))"
  by (rule hup.active_fold) simp


lemma sample_startup:
  "\<exists>p :: (unit, string) process. startup sample_boot (\<lambda>c k. Inr (c @ k)) (Inr sample_tls_app) = (None, p)"
proof -
  let ?m = "new_manager (a_environment sample_tls_app) (a_control_only sample_tls_app) :: unit manager"
  let ?a = "Activate sample_parsers sample_mux sample_gateway ?m"
  have "fst ?a = None"
    using app_validate_parts(1) [OF sample_tls_app_valid] sample_registers
    by (simp add: Activate_iff accepts_config_def gateway_validate_iff)
  then obtain mg where a: "?a = (None, mg)" by (cases ?a) simp
  have "\<exists>gateway :: unit gatewayApp. newApp sample_boot sample_tls_app = Inr gateway"
    using sample_tls_app_valid a app_validate_parts(2) [OF sample_tls_app_valid]
    by (auto simp: newApp_def sample_boot_def redisClient_def newControlPlane_def)
  then obtain gateway :: "unit gatewayApp" where n: "newApp sample_boot sample_tls_app = Inr gateway" ..
  have t: "configureTelemetry sample_boot (g_telemetry sample_gateway) = Inr None" by code_simp
  have b: "bl_parsers sample_boot = sample_parsers" "bl_listen sample_boot a = None" for a by (simp_all add: sample_boot_def)
  show ?thesis by (simp add: startup_def n t b sample_tls_app_valid Let_def loadCertificate_def)
qed


end
