(* ===== verification/Routing.thy ===== *)
theory Routing
  imports Lifecycle
begin

text \<open>
  The running routes implement the configuration. A snapshot is compiled once and then shared by
  all requests, which change its round-robin counters and JWT keys; here it is shown that in every
  state of a running process each compiled route still is what the active configuration says:
  its patterns, policies, limits, trusted proxies and upstreams.
\<close>

section \<open>What it means to implement a route\<close>

definition static_keys :: "authPolicy \<Rightarrow> (bytes \<times> principal) list" where
  "static_keys policy = ca_keys (compile_auth policy :: unit compiledAuth)"

definition implements :: "parsers \<Rightarrow> GatewayConfig \<Rightarrow> 'k compiledRoute \<times> string list \<Rightarrow> routeConfig \<Rightarrow> bool" where
  "implements P g cp r \<longleftrightarrow> (case cp of (c, patterns) \<Rightarrow>
     patterns = routePatterns r \<and> ro_config c = normalizeRoute r \<and>
     map_option ca_policy (ro_auth c) = (if r_auth_policy r = [] then None else map_of (g_auth_policies g) (r_auth_policy r)) \<and>
     map_option ca_keys (ro_auth c) = map_option static_keys (map_option ca_policy (ro_auth c)) \<and>
     ro_rate c = (if r_rate_policy r = [] then None else map_of (g_rate_policies g) (r_rate_policy r)) \<and>
     ro_cache c = (if r_cache_policy r = [] then None else map_of (g_cache_policies g) (r_cache_policy r)) \<and>
     (ro_auth c = None \<longleftrightarrow> r_auth_policy r = []) \<and> (ro_rate c = None \<longleftrightarrow> r_rate_policy r = []) \<and>
     (ro_cache c = None \<longleftrightarrow> r_cache_policy r = []) \<and>
     ro_sem c = (if r_concurrency r > 0 then Some (nat (r_concurrency r)) else None) \<and>
     ro_max_header c = g_max_header_bytes g \<and> parseTrustedProxies P (g_trusted_proxies g) = Inr (ro_trusted c) \<and>
     map (Inr \<circ> ep_url) (pool_endpoints (ro_pool c)) = map (parseHTTPURL P (r_name r @ '' upstream'')) (r_upstreams r))"

definition implemented :: "parsers \<Rightarrow> mux_lib \<Rightarrow> string \<Rightarrow> bool \<Rightarrow> 'k routerSnapshot \<Rightarrow> bool" where
  "implemented P M environment allow s \<longleftrightarrow> accepts_config P M environment allow (sn_config s) \<and>
     list_all2 (implements P (sn_config s)) (sn_routes s) (g_routes (sn_config s))"

section \<open>Compiling\<close>

lemma compile_endpoints_urls:
  "compile_endpoints P route raws = Some eps \<Longrightarrow>
   map (Inr \<circ> ep_url) eps = map (parseHTTPURL P (r_name route @ '' upstream'')) raws"
  by (induction raws arbitrary: eps) (auto simp: compile_endpoint_def split: option.splits sum.splits)

lemma normalizeRoute_refs [simp]:
  "r_auth_policy (normalizeRoute r) = r_auth_policy r" "r_rate_policy (normalizeRoute r) = r_rate_policy r"
  "r_cache_policy (normalizeRoute r) = r_cache_policy r" "r_concurrency (normalizeRoute r) = r_concurrency r"
  by (simp_all add: normalizeRoute_def Let_def)

lemma compile_auth_policy [simp]: "ca_policy (compile_auth policy) = policy" "ca_keys (compile_auth policy) = static_keys policy"
  by (simp_all add: compile_auth_def static_keys_def)

lemma compileRoute_implements:
  assumes "route_ok P g r" and "compileRoute P r g trusted = Some (c, started)"
    and "parseTrustedProxies P (g_trusted_proxies g) = Inr trusted"
  shows "implements P g (c, routePatterns r) r"
proof -
  from assms(1) have refs: "r_auth_policy r \<noteq> [] \<Longrightarrow> \<exists>x. map_of (g_auth_policies g) (r_auth_policy r) = Some x"
    "r_rate_policy r \<noteq> [] \<Longrightarrow> \<exists>x. map_of (g_rate_policies g) (r_rate_policy r) = Some x"
    "r_cache_policy r \<noteq> [] \<Longrightarrow> \<exists>x. map_of (g_cache_policies g) (r_cache_policy r) = Some x"
    by (auto simp: route_ok_def cache_ref_ok_def split: option.splits)
  from assms(2) obtain eps where eps: "compile_endpoints P (normalizeRoute r) (r_upstreams r) = Some eps"
    by (auto simp: compileRoute_def Let_def split: option.splits)
  note urls = compile_endpoints_urls [OF eps]
  from assms(2,3) eps refs urls show ?thesis
    by (auto simp: compileRoute_def implements_def Let_def lookup_or_def)
qed

lemma compile_routes_implements:
  fixes rs :: "('k compiledRoute \<times> string list \<times> outcome) list"
  assumes "\<forall>r \<in> set routes. route_ok P g r" and "parseTrustedProxies P (g_trusted_proxies g) = Inr trusted"
    and "compile_routes P M g trusted registered routes = Inr rs"
  shows "list_all2 (implements P g) (map (\<lambda>(c, ps, _). (c, ps)) rs) routes"
  using assms(1,3)
proof (induction routes arbitrary: registered rs)
  case Nil
  then show ?case by simp
next
  case (Cons r routes)
  from Cons.prems(2) obtain c started reg rs' where c: "compileRoute P r g trusted = Some (c, started)"
    and rs: "rs = (c, routePatterns r, started) # rs'" "compile_routes P M g trusted reg routes = Inr rs'"
    by (auto simp: map_sum_def split: option.splits sum.splits)
  from Cons.prems(1) compileRoute_implements [OF _ c assms(2)] Cons.IH [OF _ rs(2)] show ?case by (simp add: rs(1))
qed

lemma compile_implemented:
  assumes "compile P M environment allow i g = Inr s"
  shows "implemented P M environment allow s"
proof -
  have acc: "accepts_config P M environment allow g" unfolding accepts_config_def using compile_iff assms by blast
  then have ok: "valid_gateway P environment allow g" by (simp add: accepts_config_def)
  then have routes: "\<forall>r \<in> set (g_routes g). route_ok P g r" by (simp add: valid_gateway_def)
  from ok have v: "gateway_validate P g environment allow = None" by (simp add: gateway_validate_iff)
  obtain trusted where t: "parseTrustedProxies P (g_trusted_proxies g) = Inr trusted"
    using ok parseTrustedProxies_ok [of "g_trusted_proxies g" P] by (auto simp: valid_gateway_def)
  from assms obtain rs where rs: "compile_routes P M g trusted [] (g_routes g) = Inr rs"
    "sn_routes s = map (\<lambda>(c, ps, _). (c, ps)) rs"
    by (auto simp: compile_def v t map_sum_def split: sum.splits)
  with compile_routes_implements [OF routes t rs(1)] compile_fields [OF assms] acc show ?thesis by (simp add: implemented_def)
qed

section \<open>Serving keeps the routes\<close>

definition same_route :: "'k compiledRoute \<Rightarrow> 'k compiledRoute \<Rightarrow> bool" where
  "same_route c d \<longleftrightarrow> (\<exists>auth next. d = c\<lparr>ro_auth := auth, ro_pool := (ro_pool c)\<lparr>pool_next := next\<rparr>\<rparr> \<and>
     map_option ca_policy auth = map_option ca_policy (ro_auth c) \<and> map_option ca_keys auth = map_option ca_keys (ro_auth c))"

lemma authenticate_frame:
  assumes "authenticate sha redis L auth request w = (r, auth', w')"
  shows "map_option ca_policy auth' = map_option ca_policy auth" and "map_option ca_keys auth' = map_option ca_keys auth"
  using assms
  by (auto simp: authenticate_def verifyJWT_def refresh_jwks_def Let_def split: option.splits if_splits prod.splits)

lemma pick_frame: "pick pool = (choice, pool') \<Longrightarrow> \<exists>next. pool' = pool\<lparr>pool_next := next\<rparr>"
  by (auto simp: pick_def)

lemma forward_loop_frame:
  "forward_loop E route request body n err pool m w = (result, pool', m', w') \<Longrightarrow> \<exists>next. pool' = pool\<lparr>pool_next := next\<rparr>"
proof (induction n arbitrary: err pool m w)
  case 0
  then show ?case by (auto intro: exI [of _ "pool_next pool"])
next
  case (Suc n)
  obtain choice p1 where p: "pick pool = (choice, p1)" by fastforce
  from pick_frame [OF p] obtain k where k: "p1 = pool\<lparr>pool_next := k\<rparr>" by blast
  from Suc.prems consider "pool' = p1" | err' m1 w1 where "forward_loop E route request body n err' p1 m1 w1 = (result, pool', m', w')"
    by (auto simp: p Let_def split: option.splits prod.splits if_splits)
  then show ?case
  proof cases
    case 1
    with k show ?thesis by blast
  next
    case 2
    from Suc.IH [OF this] k show ?thesis by auto
  qed
qed

lemma forward_frame:
  assumes "forward E route request m w = (result, pool', m', w')"
  shows "\<exists>next. pool' = (ro_pool route)\<lparr>pool_next := next\<rparr>"
proof (cases "forward_body (en_json E) (ro_config route) request")
  case (Inl fault)
  with assms have "pool' = (ro_pool route)\<lparr>pool_next := pool_next (ro_pool route)\<rparr>" by (simp add: forward_def)
  then show ?thesis ..
next
  case (Inr body)
  with assms show ?thesis by (auto simp: forward_def intro: forward_loop_frame)
qed

lemma serve_body_same:
  assumes "serve_body E route request sw m w = (out, route', m', w')"
  shows "same_route route route'"
proof -
  obtain r auth w1 where a: "authenticate (en_sha E) (en_redis E) (en_jwt E) (ro_auth route) request w = (r, auth, w1)" by (metis prod_cases3)
  have same: "same_route route (route\<lparr>ro_auth := auth\<rparr>)"
    using authenticate_frame [OF a] by (auto simp: same_route_def intro!: exI [of _ auth] exI [of _ "pool_next (ro_pool route)"])
  have fwd: "same_route route (route\<lparr>ro_auth := auth, ro_pool := pool\<rparr>)"
    if "forward E (route\<lparr>ro_auth := auth\<rparr>) request m1 w2 = (result, pool, m2, w3)" for m1 w2 result pool m2 w3
    using forward_frame [OF that] authenticate_frame [OF a] by (auto simp: same_route_def)
  from assms show ?thesis
    unfolding serve_body_def Let_def a
    by (auto split: prod.splits sum.splits bool.splits if_splits intro: same fwd)
qed

lemma serveHTTP_same:
  assumes "serveHTTP E route request writer m w = (out, route', m', w')"
  shows "same_route route route'"
proof (cases "entry_fault route request")
  case (Some v)
  have "same_route route route"
    unfolding same_route_def by (intro exI [of _ "ro_auth route"] exI [of _ "pool_next (ro_pool route)"]) simp
  with Some assms show ?thesis by (cases v) (simp add: serveHTTP_def serve_guarded_def)
next
  case None
  with assms obtain out' route1 m1 where b: "serve_body E (acquire_slot route) (limit_body (ro_config route) request)
      \<lparr>sw_inner = writer, sw_status = 0\<rparr> m w = (out', route1, m1, w')" and r: "route' = release_slot route1"
    by (auto simp: serveHTTP_def serve_guarded_def split: prod.splits)
  from serve_body_same [OF b] obtain auth n where s1: "route1 = acquire_slot route\<lparr>ro_auth := auth, ro_pool := (ro_pool route)\<lparr>pool_next := n\<rparr>\<rparr>"
    and a: "map_option ca_policy auth = map_option ca_policy (ro_auth route)" "map_option ca_keys auth = map_option ca_keys (ro_auth route)"
    by (auto simp: same_route_def)
  have "route' = route\<lparr>ro_auth := auth, ro_pool := (ro_pool route)\<lparr>pool_next := n\<rparr>\<rparr>" by (simp only: r s1 slot_returned)
  with a show ?thesis unfolding same_route_def by blast
qed

lemma same_route_implements:
  assumes "same_route c d" and "implements P g (c, ps) r"
  shows "implements P g (d, ps) r"
proof -
  from assms(1) obtain auth n where d: "d = c\<lparr>ro_auth := auth, ro_pool := (ro_pool c)\<lparr>pool_next := n\<rparr>\<rparr>"
    and a: "map_option ca_policy auth = map_option ca_policy (ro_auth c)" "map_option ca_keys auth = map_option ca_keys (ro_auth c)"
    by (auto simp: same_route_def)
  from a(1) have "auth = None \<longleftrightarrow> ro_auth c = None" by (cases auth; cases "ro_auth c") simp_all
  with a have eq: "(ro_auth d = None) = (ro_auth c = None)" "map_option ca_policy (ro_auth d) = map_option ca_policy (ro_auth c)"
    "map_option ca_keys (ro_auth d) = map_option ca_keys (ro_auth c)" "ro_config d = ro_config c" "ro_rate d = ro_rate c"
    "ro_cache d = ro_cache c" "ro_sem d = ro_sem c" "ro_max_header d = ro_max_header c" "ro_trusted d = ro_trusted c"
    "pool_endpoints (ro_pool d) = pool_endpoints (ro_pool c)"
    by (simp_all add: d)
  from assms(2) show ?thesis unfolding implements_def prod.case eq .
qed

lemma snapshot_serve_implemented:
  assumes "implemented P M environment allow s" and "snapshot_serve M E s request writer m w = (out, s', m', w')"
  shows "implemented P M environment allow s'"
proof -
  from assms(2) consider "s' = s"
    | i route' where "s' = s\<lparr>sn_routes := (sn_routes s)[i := (route', snd (sn_routes s ! i))]\<rparr>" "same_route (fst (sn_routes s ! i)) route'"
    by (auto simp: snapshot_serve_def mux_serve_def split: if_splits cors_result.splits option.splits prod.splits dest: serveHTTP_same)
  then show ?thesis
  proof cases
    case 1
    with assms(1) show ?thesis by simp
  next
    case 2
    show ?thesis
    proof (cases "i < length (sn_routes s)")
      case False
      with 2 assms(1) show ?thesis by (simp add: implemented_def list_update_beyond)
    next
      case True
      from assms(1) have l: "list_all2 (implements P (sn_config s)) (sn_routes s) (g_routes (sn_config s))" by (simp add: implemented_def)
      from list_all2_nthD [OF l True] have "implements P (sn_config s) (fst (sn_routes s ! i), snd (sn_routes s ! i)) (g_routes (sn_config s) ! i)"
        by simp
      from same_route_implements [OF 2(2) this] list_all2_update_cong [OF l]
      have "list_all2 (implements P (sn_config s)) ((sn_routes s)[i := (route', snd (sn_routes s ! i))])
          ((g_routes (sn_config s))[i := g_routes (sn_config s) ! i])" by blast
      with 2 assms(1) show ?thesis by (simp add: implemented_def)
    qed
  qed
qed

definition manager_implemented :: "parsers \<Rightarrow> mux_lib \<Rightarrow> string \<Rightarrow> bool \<Rightarrow> 'k manager \<Rightarrow> bool" where
  "manager_implemented P M environment allow mg \<longleftrightarrow> mg_environment mg = environment \<and> mg_allow_no_routes mg = allow \<and>
     (\<forall>s. mg_current mg = Some s \<longrightarrow> implemented P M environment allow s)"

lemma manager_implemented_activate:
  fixes mg :: "'k manager"
  assumes "manager_implemented P M environment allow mg"
  shows "manager_implemented P M environment allow (snd (Activate P M g mg))"
proof (cases "compile P M (mg_environment mg) (mg_allow_no_routes mg) (mg_next mg) g :: go_error + 'k routerSnapshot")
  case (Inl e)
  with assms show ?thesis by (simp add: manager_implemented_def Activate_def)
next
  case (Inr s)
  from compile_implemented [OF this] assms have "implemented P M environment allow s" by (simp add: manager_implemented_def)
  moreover have "mg_current (snd (Activate P M g mg)) = Some s"
    using Inr by (simp add: Activate_def Let_def cancel_snapshot_def split: option.split)
  ultimately show ?thesis using assms by (simp add: manager_implemented_def)
qed

lemma manager_implemented_serve:
  assumes "manager_implemented P M environment allow mg"
  shows "manager_implemented P M environment allow (fst (snd (manager_ServeHTTP M E mg request writer w)))"
proof (cases "mg_current mg")
  case None
  with assms show ?thesis by (simp add: manager_ServeHTTP_def)
next
  case (Some s)
  obtain out s' m' w' where r: "snapshot_serve M E s request writer (mg_metrics mg) w = (out, s', m', w')" by (metis prod_cases4)
  from Some assms have "implemented P M environment allow s" by (simp add: manager_implemented_def)
  from snapshot_serve_implemented [OF this r] Some r assms show ?thesis by (simp add: manager_ServeHTTP_def manager_implemented_def)
qed

interpretation impl: component_invariant "\<lambda>p. startup B files loaded = (e, p)" "process_step B E"
  "\<lambda>mg. mg = new_manager (a_environment (projr loaded)) (a_control_only (projr loaded))"
  "manager_step (bl_parsers B) (bl_mux B) E" runs_manager
  "manager_implemented (bl_parsers B) (bl_mux B) (a_environment (projr loaded)) (a_control_only (projr loaded))"
  for B and files :: "'cert keypairs" and loaded e and E :: "('w, 'k) env"
proof unfold_locales
  let ?inv = "manager_implemented (bl_parsers B) (bl_mux B) (a_environment (projr loaded)) (a_control_only (projr loaded)) :: 'k manager \<Rightarrow> bool"
  show "?inv s" if "s = new_manager (a_environment (projr loaded)) (a_control_only (projr loaded))" for s
    using that by (simp add: manager_implemented_def new_manager_def)
  show "?inv t" if "?inv s" "manager_step (bl_parsers B) (bl_mux B) E s t" for s t
    using that by (auto elim!: manager_stepE intro: manager_implemented_activate manager_implemented_serve)
qed

lemma running_snapshot:
  assumes "reach (\<lambda>p. startup B files loaded = (e, p)) (process_step B E) p"
    and "ps_app p = Some gateway" and "mg_current (ga_manager gateway) = Some s"
  shows "implemented (bl_parsers B) (bl_mux B) (a_environment (projr loaded)) (a_control_only (projr loaded)) s"
proof -
  have "runs_manager p (ga_manager gateway)" using assms(2) by (simp add: runs_manager_def)
  from impl.reach_component_inv [OF assms(1) this] assms(3) show ?thesis by (simp add: manager_implemented_def)
qed

section \<open>Properties\<close>

text \<open>
  C16: In every state of a process that started, whatever signals, activations and requests it
  has handled, the routes it serves implement its active configuration: that configuration passes
  validation for the environment of the process, the mux accepts its patterns, and route by route
  the compiled route carries the configured patterns, the authentication, rate and cache policy that
  the configuration names (none is lost or invented), the static keys of the policy, the
  concurrency and header limits, the trusted proxies and the parsed upstreams.
\<close>

theorem running_routes_implement_the_configuration:
  assumes "reach (\<lambda>p. startup B files loaded = (None, p)) (process_step B E) p"
    and "ps_app p = Some gateway" and "mg_current (ga_manager gateway) = Some s"
  shows "gateway_validate (bl_parsers B) (sn_config s) (a_environment (projr loaded)) (a_control_only (projr loaded)) = None \<and>
    register (bl_mux B) [] (concat (map routePatterns (g_routes (sn_config s)))) \<noteq> None \<and>
    list_all2 (implements (bl_parsers B) (sn_config s)) (sn_routes s) (g_routes (sn_config s))"
  using running_snapshot [OF assms] by (simp add: implemented_def accepts_config_def gateway_validate_iff)

lemma sample_running:
  obtains p :: "(unit, string) process" and gateway s where
    "reach (\<lambda>p. startup sample_boot (\<lambda>c k. Inr (c @ k)) (Inr sample_tls_app) = (None, p)) (process_step sample_boot sample_env) p"
    "ps_app p = Some gateway" "mg_current (ga_manager gateway) = Some s" "sn_config s = sample_gateway"
proof -
  let ?m = "new_manager (a_environment sample_tls_app) (a_control_only sample_tls_app) :: unit manager"
  obtain p :: "(unit, string) process" where p: "startup sample_boot (\<lambda>c k. Inr (c @ k)) (Inr sample_tls_app) = (None, p)"
    using sample_startup by blast
  obtain gateway where g: "ps_app p = Some gateway" using startup_inv [OF p] by (auto simp: process_inv_def)
  from startup_app [OF p g] have "newApp sample_boot sample_tls_app = Inr gateway" by simp
  from newApp_fields [OF this] have f: "ga_manager gateway = snd (Activate sample_parsers sample_mux sample_gateway ?m)"
    "fst (Activate sample_parsers sample_mux sample_gateway ?m) = None" by (simp_all add: sample_boot_def)
  from f(2) have "accepts_config sample_parsers sample_mux (mg_environment ?m) (mg_allow_no_routes ?m) sample_gateway" by (simp only: Activate_iff)
  from Activate_accepted [OF this] f(1) obtain s where "mg_current (ga_manager gateway) = Some s" "sn_config s = sample_gateway" by auto
  with that [OF reach_start [where start = "\<lambda>p. startup sample_boot (\<lambda>c k. Inr (c @ k)) (Inr sample_tls_app) = (None, p)", OF p] g] show ?thesis by blast
qed

theorem running_routes_implement_the_configuration_witness:
  "\<exists>s :: unit routerSnapshot. list_all2 (implements sample_parsers sample_gateway) (sn_routes s) (g_routes sample_gateway)"
proof (rule sample_running)
  fix p :: "(unit, string) process" and gateway s
  assume r: "reach (\<lambda>p. startup sample_boot (\<lambda>c k. Inr (c @ k)) (Inr sample_tls_app) = (None, p)) (process_step sample_boot sample_env) p"
    "ps_app p = Some gateway" "mg_current (ga_manager gateway) = Some s" and s: "sn_config s = sample_gateway"
  from running_routes_implement_the_configuration [OF r] s show ?thesis by (auto simp: sample_boot_def)
qed

end
