(* ===== verification/Backend.thy ===== *)
theory Backend
  imports Proxy_Route
begin

text \<open>
  The demonstration backend of \<open>cmd/backend/main.go\<close>: a health endpoint and an echo of the
  request. \<open>http.ServeMux\<close> resolves its two patterns, so the more specific \<open>GET /health\<close> (which
  also serves HEAD) wins over \<open>/\<close>. The lemmas describe both branches of the echo and what
  the backend sees of a request that the gateway forwards to it.
\<close>

section \<open>Definitions\<close>

record echoedRequest =
  er_service :: string
  er_method :: string
  er_path :: string
  er_query :: string
  er_body :: string
  er_request_id :: string

record backendConfig =
  bc_http_address :: string
  bc_name :: string

definition echoed_json :: "echoedRequest \<Rightarrow> json" where
  "echoed_json e = JObj [(''service'', JStr (er_service e)), (''method'', JStr (er_method e)), (''path'', JStr (er_path e)),
     (''query'', JStr (er_query e)), (''body'', JStr (er_body e)), (''request_id'', JStr (er_request_id e))]"

definition echoed_request :: "backendConfig \<Rightarrow> http_request \<Rightarrow> bytes \<Rightarrow> echoedRequest" where
  "echoed_request configuration request body = \<lparr>er_service = bc_name configuration, er_method = q_method request,
     er_path = u_path (q_url request), er_query = u_raw_query (q_url request), er_body = body,
     er_request_id = header_get (q_header request) ''X-Request-ID''\<rparr>"

definition backend_health :: "writer \<Rightarrow> writer" where
  "backend_health w = write_header 204 w"

definition backend_echo :: "backendConfig \<Rightarrow> http_request \<Rightarrow> writer \<Rightarrow> writer" where
  "backend_echo configuration request w =
     (case read_all (max_bytes_reader (case q_body request of None \<Rightarrow> \<lparr>rd_data = [], rd_err = None\<rparr> | Some r \<Rightarrow> r) (2 ^ 20)) of
        Inl e \<Rightarrow> http_Error ''request body is too large'' 413 w
      | Inr body \<Rightarrow>
          (let w = set_header ''Content-Type'' ''application/json; charset=utf-8'' w;
               w = set_header ''X-Upstream'' (bc_name configuration) w
           in write_chunk (Encoded (echoed_json (echoed_request configuration request body))) w))"

definition backend_ServeHTTP :: "backendConfig \<Rightarrow> http_request \<Rightarrow> writer \<Rightarrow> writer" where
  "backend_ServeHTTP configuration request w =
     (if (q_method request = ''GET'' \<or> q_method request = ''HEAD'') \<and> u_path (q_url request) = ''/health''
      then backend_health w else backend_echo configuration request w)"

text \<open>The middleware of the gateway that hands the request identifier on (\<open>forwardRequestID\<close> of
  \<open>app.go\<close>); the header name and the identifier come from the go-vial framework.\<close>

definition forwardRequestID :: "string \<Rightarrow> string \<Rightarrow> http_request \<Rightarrow> http_request" where
  "forwardRequestID requestIDHeader i request = request\<lparr>q_header := header_set (q_header request) requestIDHeader i\<rparr>"

section \<open>What the backend answers\<close>

lemma backend_answers:
  "w_code (backend_ServeHTTP configuration request new_writer) \<in> {200, 204, 413}"
  by (auto simp: backend_ServeHTTP_def backend_health_def backend_echo_def write_header_def write_chunk_def set_header_def Let_def
      split: sum.split)

lemma backend_refuses_large_bodies:
  assumes "q_body request = Some \<lparr>rd_data = data, rd_err = None\<rparr>"
  shows "w_code (backend_echo configuration request new_writer) = (if length data \<le> 2 ^ 20 then 200 else 413)"
  using assms by (simp add: backend_echo_def max_bytes_reader_def read_all_def write_header_def write_chunk_def set_header_def Let_def)

text \<open>Behind a route that does not stream and does not transform \<open>X-Request-ID\<close>, the backend echoes
  the rewritten path, the query of the client, the buffered body and the request identifier that
  the gateway assigned, whatever the client sent under that name.\<close>

lemma forwarded_request_id:
  assumes "canonical_key requestIDHeader = canonical_key ''X-Request-ID''"
    and "\<forall>kv \<in> set (tr_set_headers (r_request_transform route)). canonical_key (fst kv) \<noteq> canonical_key ''X-Request-ID''"
    and "\<forall>k \<in> set (tr_remove_headers (r_request_transform route)). canonical_key k \<noteq> canonical_key ''X-Request-ID''"
  shows "header_get (q_header (cloneUpstreamRequest P (forwardRequestID requestIDHeader i request) target route body trusted)) ''X-Request-ID'' = i"
proof -
  have "list_all (\<lambda>k. canonical_key k \<noteq> canonical_key ''X-Request-ID'') (''Proxy-Authorization'' # ''X-Forwarded-For'' # ''X-Forwarded-Host'' #
      ''X-Forwarded-Proto'' # hop_headers)"
    by code_simp
  then have keys: "canonical_key ''X-Request-ID'' \<notin> canonical_key ` set hop_headers"
    "canonical_key ''Proxy-Authorization'' \<noteq> canonical_key ''X-Request-ID''" "canonical_key ''X-Forwarded-For'' \<noteq> canonical_key ''X-Request-ID''"
    "canonical_key ''X-Forwarded-Host'' \<noteq> canonical_key ''X-Request-ID''" "canonical_key ''X-Forwarded-Proto'' \<noteq> canonical_key ''X-Request-ID''"
    by (auto simp: list_all_iff)
  have "find (\<lambda>kv. canonical_key (fst kv) = canonical_key ''X-Request-ID'') (rev (tr_set_headers (r_request_transform route))) = None"
    using assms(2) by (auto simp: find_None_iff)
  moreover have "canonical_key ''X-Request-ID'' \<notin> canonical_key ` set (tr_remove_headers (r_request_transform route))"
    using assms(3) by force
  ultimately show ?thesis
    using keys assms(1)
    by (simp add: cloneUpstreamRequest_def setForwardedHeaders_def forwardRequestID_def Let_def hdr_simps applyHeaderTransform_get
        removeHopHeaders_get keys(2-5) [symmetric])
qed

lemma backend_sees_the_rewritten_request:
  assumes "\<not> r_streaming route" and "length body \<le> 2 ^ 20"
    and "canonical_key requestIDHeader = canonical_key ''X-Request-ID''"
    and "\<forall>kv \<in> set (tr_set_headers (r_request_transform route)). canonical_key (fst kv) \<noteq> canonical_key ''X-Request-ID''"
    and "\<forall>k \<in> set (tr_remove_headers (r_request_transform route)). canonical_key k \<noteq> canonical_key ''X-Request-ID''"
  shows "w_body (backend_echo configuration
       (cloneUpstreamRequest P (forwardRequestID requestIDHeader i request) target route body trusted) new_writer) =
     [Encoded (echoed_json \<lparr>er_service = bc_name configuration, er_method = q_method request,
        er_path = joinURLPath (u_path target) (rewritePath (u_path (q_url request)) (r_path_prefix route) (r_path_rewrite route)),
        er_query = u_raw_query (q_url request), er_body = body, er_request_id = i\<rparr>)]"
proof -
  note i = forwarded_request_id [OF assms(3-5), of P i request target body trusted]
  let ?u = "cloneUpstreamRequest P (forwardRequestID requestIDHeader i request) target route body trusted"
  have "q_body ?u = Some \<lparr>rd_data = body, rd_err = None\<rparr>" "q_method ?u = q_method request"
    "u_path (q_url ?u) = joinURLPath (u_path target) (rewritePath (u_path (q_url request)) (r_path_prefix route) (r_path_rewrite route))"
    "u_raw_query (q_url ?u) = u_raw_query (q_url request)"
    using assms(1) by (simp_all add: cloneUpstreamRequest_def forwardRequestID_def Let_def)
  with i assms(2) show ?thesis
    by (simp add: backend_echo_def max_bytes_reader_def read_all_def write_header_def write_chunk_def set_header_def Let_def
        new_writer_def echoed_request_def)
qed

end
