(* ===== verification/Service.thy ===== *)
theory Service
  imports Routing Backend
begin

text \<open>
  The gateway as a client sees it: the patterns that \<open>newApp\<close> registers with the go-vial
  application (health, metrics, the control plane when it is enabled, and the router manager for
  everything else) with the middleware that hands the request identifier on.

  The framework is a parameter: \<open>vl_match\<close> finds the registered pattern of a request, \<open>vl_live\<close>,
  \<open>vl_ready\<close> and \<open>vl_metrics\<close> are its health handlers and the Prometheus handler, \<open>vl_recover\<close> is what
  its \<open>Recover\<close> middleware writes for a panic. A request for the control plane leaves this theory as
  \<open>ToControl\<close>; \<open>Admin_Api\<close> says what happens to it.
\<close>

section \<open>Definitions\<close>

record vial_lib =
  vl_match :: "string list \<Rightarrow> http_request \<Rightarrow> string option"
  vl_request_id :: string       \<comment> \<open>\<open>middleware.RequestIDHeader\<close>\<close>
  vl_live :: "writer \<Rightarrow> writer"
  vl_ready :: "go_error option \<Rightarrow> writer \<Rightarrow> writer"
  vl_metrics :: "gatewayMetrics \<Rightarrow> writer \<Rightarrow> writer"
  vl_missing :: "http_request \<Rightarrow> writer \<Rightarrow> writer"
  vl_recover :: "writer \<Rightarrow> writer"

datatype app_target = Live | Ready | Metrics | ControlPlane | Dynamic

definition app_routes :: "'k gatewayApp \<Rightarrow> (string \<times> app_target) list" where
  "app_routes gateway =
     [(''/health/live'', Live), (''/health/ready'', Ready), (''/metrics'', Metrics)] @
     (if ga_control gateway then [(''/admin'', ControlPlane), (''/admin/'', ControlPlane)] else []) @
     [(''/'', Dynamic)]"

datatype app_answer = Written writer | ToControl http_request

definition app_ServeHTTP :: "vial_lib \<Rightarrow> mux_lib \<Rightarrow> ('w, 'k) env \<Rightarrow> string \<Rightarrow> http_request \<Rightarrow> writer \<Rightarrow> 'k gatewayApp \<Rightarrow> 'w
    \<Rightarrow> app_answer \<times> 'k gatewayApp \<times> 'w" where
  "app_ServeHTTP V M E i request writer gateway w =
     (let target = Option.bind (vl_match V (map fst (app_routes gateway)) request) (map_of (app_routes gateway));
          request = forwardRequestID (vl_request_id V) i request;
          manager = ga_manager gateway
      in (case target of
            None \<Rightarrow> (Written (vl_missing V request writer), gateway, w)
          | Some Live \<Rightarrow> (Written (vl_live V writer), gateway, w)
          | Some Ready \<Rightarrow> (Written (vl_ready V (readiness manager) writer), gateway, w)
          | Some Metrics \<Rightarrow> (Written (vl_metrics V (mg_metrics manager) writer), gateway, w)
          | Some ControlPlane \<Rightarrow> (ToControl request, gateway, w)
          | Some Dynamic \<Rightarrow> (case manager_ServeHTTP M E manager request writer w of (out, manager, w) \<Rightarrow>
              (Written (case out of Served sw \<Rightarrow> sw_inner sw | Panic sw \<Rightarrow> vl_recover V (sw_inner sw)),
               gateway\<lparr>ga_manager := manager\<rparr>, w))))"

section \<open>From a pattern to its route\<close>

text \<open>\<open>http.ServeMux\<close> panics when a pattern is registered twice.\<close>

definition mux_unique :: "mux_lib \<Rightarrow> bool" where
  "mux_unique M \<longleftrightarrow> (\<forall>registered pattern. pattern \<in> set registered \<longrightarrow> mx_conflict M registered pattern)"

lemma register_distinct:
  assumes "mux_unique M" and "distinct registered" and "register M registered patterns \<noteq> None"
  shows "distinct (registered @ patterns)"
  using assms(2,3)
proof (induction patterns arbitrary: registered)
  case Nil
  then show ?case by simp
next
  case (Cons p ps)
  from Cons.prems(2) have "\<not> mx_conflict M registered p" "register M (registered @ [p]) ps \<noteq> None" by (auto split: if_splits)
  moreover from this(1) assms(1) have "p \<notin> set registered" by (auto simp: mux_unique_def)
  ultimately show ?case using Cons.IH [of "registered @ [p]"] Cons.prems(1) by simp
qed

lemma implements_patterns: "list_all2 (implements P g) rs routes \<Longrightarrow> map snd rs = map routePatterns routes"
  by (induction rs routes rule: list_all2_induct) (auto simp: implements_def)

lemma find_route_index:
  "i < length rs \<Longrightarrow> pattern \<in> set (snd (rs ! i)) \<Longrightarrow> distinct (concat (map snd rs)) \<Longrightarrow> find_route rs pattern = Some i"
proof (induction rs arbitrary: i)
  case Nil
  then show ?case by simp
next
  case (Cons r rs)
  obtain c ps where r: "r = (c, ps)" by (cases r)
  show ?case
  proof (cases i)
    case 0
    with Cons.prems r show ?thesis by simp
  next
    case (Suc j)
    with Cons.prems(1,2) have "rs ! j \<in> set rs" "pattern \<in> set (snd (rs ! j))" by simp_all
    then have "pattern \<in> set (concat (map snd rs))" by auto
    with Cons.prems(3) r have "pattern \<notin> set ps" by auto
    with Cons.IH [of j] Cons.prems Suc r show ?thesis by simp
  qed
qed

text \<open>The pattern that the mux finds leads to the one route that is configured for it.\<close>

lemma matched_route:
  assumes s: "implemented P M environment allow s" and M: "mux_unique M"
    and r: "r \<in> set (g_routes (sn_config s))" "pattern \<in> set (routePatterns r)"
  shows "\<exists>i. i < length (sn_routes s) \<and> find_route (sn_routes s) pattern = Some i \<and>
    implements P (sn_config s) (sn_routes s ! i) r"
proof -
  from s have l: "list_all2 (implements P (sn_config s)) (sn_routes s) (g_routes (sn_config s))"
    and reg: "register M [] (concat (map routePatterns (g_routes (sn_config s)))) \<noteq> None"
    by (auto simp: implemented_def accepts_config_def)
  have "distinct (concat (map snd (sn_routes s)))"
    using register_distinct [OF M _ reg] by (simp add: implements_patterns [OF l])
  moreover from r(1) obtain i where i: "i < length (g_routes (sn_config s))" "g_routes (sn_config s) ! i = r"
    by (auto simp: in_set_conv_nth)
  moreover have n: "i < length (sn_routes s)" using i(1) list_all2_lengthD [OF l] by simp
  moreover have "implements P (sn_config s) (sn_routes s ! i) r" using list_all2_nthD [OF l n] i(2) by simp
  moreover from this r(2) have "pattern \<in> set (snd (sn_routes s ! i))" by (auto simp: implements_def split: prod.splits)
  ultimately show ?thesis using find_route_index by blast
qed

section \<open>Requests without credentials\<close>

lemma authenticate_no_credentials:
  assumes "ap_type (ca_policy a) \<noteq> ''none''" and "header_get (q_header request) ''X-API-Key'' = []"
    and "header_get (q_header request) ''Authorization'' = []"
  shows "\<exists>e. authenticate sha redis L (Some a) request w = (Inl e, Some a, w)"
proof -
  have "trim_space (trim_prefix [] ''Bearer '') = []" by code_simp
  with assms show ?thesis by (simp add: authenticate_def authenticate_api_key_def Let_def)
qed

lemma sw_fault_code:
  "w_code writer = 0 \<Longrightarrow> status \<noteq> 0 \<Longrightarrow> w_code (sw_inner (sw_fault status code msg \<lparr>sw_inner = writer, sw_status = 0\<rparr>)) = status"
  by (simp add: sw_fault_inner)

lemma serveHTTP_no_credentials:
  assumes "ro_auth route = Some a" and "ap_type (ca_policy a) \<noteq> ''none''" and "header_get (q_header request) ''X-API-Key'' = []"
    and "header_get (q_header request) ''Authorization'' = []" and "w_code writer = 0"
  shows "\<exists>f m'. (\<forall>U. serveHTTP (E\<lparr>en_up := U\<rparr>) route request writer m w = (Served f, route, m', w)) \<and>
     w_code (sw_inner f) \<in> {401, 413, 429, 431}"
proof (cases "entry_fault route request")
  case (Some v)
  then show ?thesis using assms(5)
    by (cases v) (auto simp: serveHTTP_def serve_guarded_def sw_fault_code entry_fault_def split: if_splits option.splits)
next
  case None
  let ?q = "limit_body (ro_config route) request"
  have "q_header ?q = q_header request" by (simp add: limit_body_def)
  with authenticate_no_credentials [OF assms(2), of ?q "en_sha E" "en_redis E" "en_jwt E" w] assms(3,4) obtain e where
    e: "authenticate (en_sha E) (en_redis E) (en_jwt E) (Some a) ?q w = (Inl e, Some a, w)" by auto
  let ?f = "sw_fault 401 ''unauthorized'' (error_text e) \<lparr>sw_inner = writer, sw_status = 0\<rparr>"
  have "release_slot (acquire_slot route\<lparr>ro_auth := Some a\<rparr>) = route" using slot_returned_auth [where route = route and auth = "Some a"] assms(1) by simp
  then have "serveHTTP (E\<lparr>en_up := U\<rparr>) route request writer m w = (Served ?f, route, count_request (ro_config route) (Served ?f) m, w)" for U
    using None e assms(1) by (simp add: serveHTTP_def serve_guarded_def serve_body_def Let_def)
  with sw_fault_code [OF assms(5), of 401] show ?thesis by fastforce
qed

lemma corsHandler_code:
  assumes "w_code writer = 0"
  shows "corsHandler origins request writer = Answered v \<Longrightarrow> w_code v = 204 \<and> q_method request = ''OPTIONS''"
    and "corsHandler origins request writer = Continue v \<Longrightarrow> w_code v = 0"
  using assms by (auto simp: corsHandler_def Let_def set_header_def add_header_def write_header_def split: if_splits)

lemma mux_serve_no_credentials:
  assumes "mx_match M (snapshot_patterns s) request = Some pattern" and "find_route (sn_routes s) pattern = Some i"
    and "i < length (sn_routes s)" and "ro_auth (fst (sn_routes s ! i)) = Some a" and "ap_type (ca_policy a) \<noteq> ''none''"
    and "header_get (q_header request) ''X-API-Key'' = []" and "header_get (q_header request) ''Authorization'' = []" and "w_code writer = 0"
  shows "\<exists>f m'. (\<forall>U. mux_serve M (E\<lparr>en_up := U\<rparr>) s request writer m w = (Served f, s, m', w)) \<and> w_code (sw_inner f) \<in> {401, 413, 429, 431}"
proof -
  from serveHTTP_no_credentials [OF assms(4-8), of E m w] obtain f m' where
    f: "serveHTTP (E\<lparr>en_up := U\<rparr>) (fst (sn_routes s ! i)) request writer m w = (Served f, fst (sn_routes s ! i), m', w)"
    and c: "w_code (sw_inner f) \<in> {401, 413, 429, 431}" for U by blast
  have "mux_serve M (E\<lparr>en_up := U\<rparr>) s request writer m w = (Served f, s, m', w)" for U
    using assms(1,2) f by (simp add: mux_serve_def)
  with c show ?thesis by blast
qed

lemma snapshot_serve_no_credentials:
  assumes "mx_match M (snapshot_patterns s) request = Some pattern" and "find_route (sn_routes s) pattern = Some i"
    and "i < length (sn_routes s)" and "ro_auth (fst (sn_routes s ! i)) = Some a" and "ap_type (ca_policy a) \<noteq> ''none''"
    and "header_get (q_header request) ''X-API-Key'' = []" and "header_get (q_header request) ''Authorization'' = []" and "w_code writer = 0"
  shows "\<exists>f m'. (\<forall>U. snapshot_serve M (E\<lparr>en_up := U\<rparr>) s request writer m w = (Served f, s, m', w)) \<and>
    (w_code (sw_inner f) \<in> {401, 413, 429, 431} \<or> w_code (sw_inner f) = 204 \<and> q_method request = ''OPTIONS'')"
proof (cases "corsHandler (g_cors_allowed_origins (sn_config s)) request writer")
  case (Answered v)
  with corsHandler_code(1) [OF assms(8) Answered] mux_serve_no_credentials [OF assms, of E m w] show ?thesis
    by (cases "g_cors_allowed_origins (sn_config s) = []") (auto simp: snapshot_serve_def)
next
  case (Continue v)
  with mux_serve_no_credentials [OF assms, of E m w]
    mux_serve_no_credentials [OF assms(1-7) corsHandler_code(2) [OF assms(8) Continue], of E m w] show ?thesis
    by (cases "g_cors_allowed_origins (sn_config s) = []") (auto simp: snapshot_serve_def)
qed

section \<open>Properties\<close>

text \<open>
  C17: In a running process, after whatever signals, activations and traffic, a request without
  credentials for a route whose policy is not \<open>none\<close> stops at the gateway: it is answered with 401
  (or with 431, 413 or 429 when a limit refuses it first, or with 204 when it is a CORS preflight),
  whatever the transport and the circuit breakers would do, and neither an upstream nor Redis is
  touched; of the gateway only counters change. The route is found from the configuration: the
  pattern that the mux matches belongs to exactly one route.
\<close>

theorem anonymous_requests_stop_at_the_gateway:
  assumes running: "reach (\<lambda>p. startup B files loaded = (None, p)) (process_step B E) p"
      "ps_app p = Some gateway" "mg_current (ga_manager gateway) = Some s"
    and libs: "mux_unique (bl_mux B)" "canonical_key (vl_request_id V) = canonical_key ''X-Request-ID''"
    and dispatch: "vl_match V (map fst (app_routes gateway)) request = Some ''/''"
      "mx_match (bl_mux B) (snapshot_patterns s) (forwardRequestID (vl_request_id V) i request) = Some pattern"
    and route: "r \<in> set (g_routes (sn_config s))" "pattern \<in> set (routePatterns r)" "r_auth_policy r \<noteq> []"
      "map_of (g_auth_policies (sn_config s)) (r_auth_policy r) = Some policy" "ap_type policy \<noteq> ''none''"
    and anonymous: "header_get (q_header request) ''X-API-Key'' = []" "header_get (q_header request) ''Authorization'' = []"
  shows "\<exists>v m'. (\<forall>U. app_ServeHTTP V (bl_mux B) (E\<lparr>en_up := U\<rparr>) i request new_writer gateway w =
        (Written v, gateway\<lparr>ga_manager := (ga_manager gateway)\<lparr>mg_metrics := m'\<rparr>\<rparr>, w)) \<and>
      (w_code v \<in> {401, 413, 429, 431} \<or> w_code v = 204 \<and> q_method request = ''OPTIONS'')"
proof -
  let ?q = "forwardRequestID (vl_request_id V) i request" and ?mg = "ga_manager gateway"
  have keys: "canonical_key ''X-Request-ID'' \<noteq> canonical_key ''X-API-Key''" "canonical_key ''X-Request-ID'' \<noteq> canonical_key ''Authorization''"
    by code_simp+
  have h: "header_get (q_header ?q) ''X-API-Key'' = []" "header_get (q_header ?q) ''Authorization'' = []" "q_method ?q = q_method request"
    using keys libs(2) anonymous by (simp_all add: forwardRequestID_def hdr_simps)
  from matched_route [OF running_snapshot [OF running] libs(1) route(1,2)] obtain j where
    j: "j < length (sn_routes s)" "find_route (sn_routes s) pattern = Some j"
      "implements (bl_parsers B) (sn_config s) (sn_routes s ! j) r" by blast
  from j(3) route(3,4) obtain a where a: "ro_auth (fst (sn_routes s ! j)) = Some a" "ca_policy a = policy"
    by (auto simp: implements_def split: prod.splits)
  from snapshot_serve_no_credentials [OF dispatch(2) j(2,1) a(1), of new_writer E "mg_metrics ?mg" w] h a(2) route(5) obtain f m' where
    f: "snapshot_serve (bl_mux B) (E\<lparr>en_up := U\<rparr>) s ?q new_writer (mg_metrics ?mg) w = (Served f, s, m', w)"
    and c: "w_code (sw_inner f) \<in> {401, 413, 429, 431} \<or> w_code (sw_inner f) = 204 \<and> q_method request = ''OPTIONS''" for U by auto
  have "map_of (app_routes gateway) ''/'' = Some Dynamic" by (simp add: app_routes_def)
  moreover have "?mg\<lparr>mg_current := Some s\<rparr> = ?mg" using running(3) by simp
  ultimately have "app_ServeHTTP V (bl_mux B) (E\<lparr>en_up := U\<rparr>) i request new_writer gateway w =
      (Written (sw_inner f), gateway\<lparr>ga_manager := ?mg\<lparr>mg_metrics := m'\<rparr>\<rparr>, w)" for U
    using dispatch(1) running(3) f by (simp add: app_ServeHTTP_def manager_ServeHTTP_def)
  with c show ?thesis by blast
qed

definition sample_vial :: vial_lib where
  "sample_vial = \<lparr>vl_match = (\<lambda>_ _. Some ''/''), vl_request_id = ''X-Request-ID'', vl_live = id, vl_ready = (\<lambda>_. id),
     vl_metrics = (\<lambda>_. id), vl_missing = (\<lambda>_. id), vl_recover = id\<rparr>"

definition bare_request :: http_request where
  "bare_request = sample_request\<lparr>q_header := [], q_url := (q_url sample_request)\<lparr>u_path := ''/api''\<rparr>\<rparr>"

theorem anonymous_requests_stop_at_the_gateway_witness:
  "\<exists>(gateway :: unit gatewayApp) v gateway'. app_ServeHTTP sample_vial sample_mux sample_env ''1'' bare_request new_writer gateway () =
     (Written v, gateway', ()) \<and> w_code v \<in> {401, 413, 429, 431}"
proof (rule sample_running)
  fix p :: "(unit, string) process" and gateway s
  assume r: "reach (\<lambda>p. startup sample_boot (\<lambda>c k. Inr (c @ k)) (Inr sample_tls_app) = (None, p)) (process_step sample_boot sample_env) p"
    "ps_app p = Some gateway" "mg_current (ga_manager gateway) = Some s" and s: "sn_config s = sample_gateway"
  have M: "bl_mux sample_boot = sample_mux" "mux_unique sample_mux" by (simp_all add: sample_boot_def mux_unique_def sample_mux_def)
  from running_snapshot [OF r] have "map snd (sn_routes s) = map routePatterns (g_routes sample_gateway)"
    by (auto simp: implemented_def s dest: implements_patterns)
  then have pats: "snapshot_patterns s = concat (map routePatterns (g_routes sample_gateway))" by (simp add: snapshot_patterns_def)
  have pat: "''GET /api'' \<in> set (routePatterns sample_route)" by code_simp
  have route: "sample_route \<in> set (g_routes (sn_config s))" "r_auth_policy sample_route \<noteq> []"
    by (simp_all add: s sample_gateway_def sample_route_def)
  obtain policy where policy: "map_of (g_auth_policies (sn_config s)) (r_auth_policy sample_route) = Some policy" "ap_type policy \<noteq> ''none''"
    by (simp add: s sample_gateway_def sample_route_def)
  have q: "header_get (q_header bare_request) k = []" "q_method bare_request = ''GET''" for k
    by (simp_all add: bare_request_def header_get_def sample_request_def)
  have m: "mx_match sample_mux (snapshot_patterns s) (forwardRequestID (vl_request_id sample_vial) ''1'' bare_request) = Some ''GET /api''"
    unfolding pats by code_simp
  have v: "vl_match sample_vial ps bare_request = Some ''/''" "canonical_key (vl_request_id sample_vial) = canonical_key ''X-Request-ID''" for ps
    by (simp_all add: sample_vial_def)
  from anonymous_requests_stop_at_the_gateway [OF r, unfolded M, OF M(2) v(2,1) m route(1) pat route(2) policy q(1,1), of "()"]
  obtain v m' where "\<And>U. app_ServeHTTP sample_vial sample_mux (sample_env\<lparr>en_up := U\<rparr>) ''1'' bare_request new_writer gateway () =
      (Written v, gateway\<lparr>ga_manager := (ga_manager gateway)\<lparr>mg_metrics := m'\<rparr>\<rparr>, ())" "w_code v \<in> {401, 413, 429, 431}" using q(2) by auto
  from this(1) [of "en_up sample_env"] this(2) show ?thesis by auto
qed

end
