(* ===== verification/Failover.thy ===== *)
theory Failover
  imports Proxy_Route
begin

text \<open>
  Retries over the round-robin pool. An attempt that fails moves on to the next endpoint, so with
  enough retries the loop of \<open>forward\<close> meets every endpoint of a pool that is healthy, and one
  working upstream is enough for an answer.
\<close>

definition works :: "'w upstream_lib \<Rightarrow> upstreamPool \<Rightarrow> nat \<Rightarrow> bool" where
  "works U pool i \<longleftrightarrow> (\<forall>w. fst (ul_before U (pool_name pool, i) w)) \<and>
     (\<forall>q w. u_host (q_url q) = u_host (ep_url (pool_endpoints pool ! i)) \<longrightarrow>
        (\<exists>r w'. ul_round_trip U q w = (Inr r, w') \<and> p_status r < 500))"

lemma execute_works:
  assumes "works U pool i" and "u_host (q_url q) = u_host (ep_url (pool_endpoints pool ! i))"
  shows "\<exists>r w'. execute U (pool_name pool, i) q w = ((Some r, None), w') \<and> p_status r < 500"
proof -
  obtain w1 where "ul_before U (pool_name pool, i) w = (True, w1)" using assms(1) by (metis works_def prod.collapse)
  moreover obtain r w2 where "ul_round_trip U q w1 = (Inr r, w2)" "p_status r < 500"
    using assms unfolding works_def by metis
  ultimately show ?thesis by (auto simp: execute_def)
qed

lemma execute_outcomes:
  assumes "execute U b q w = ((response, err), w')"
  shows "(\<exists>r. response = Some r \<and> err = None \<and> p_status r < 500) \<or> (\<exists>e. err = Some e)"
  using assms by (auto simp: execute_def split: prod.splits bool.splits sum.splits if_splits)

lemma clone_host [simp]: "u_host (q_url (cloneUpstreamRequest P request target route body trusted)) = u_host target"
  by (simp add: cloneUpstreamRequest_def Let_def)

lemma forward_loop_meets_working:
  assumes "pool_ok pool" and "pool_endpoints pool \<noteq> []" and "\<forall>ep \<in> set (pool_endpoints pool). ep_healthy ep"
    and "unat (pool_next pool) + k < 2 ^ 64 - 1" and "works (en_up E) pool ((unat (pool_next pool) + k) mod length (pool_endpoints pool))"
    and "k < n"
  shows "\<exists>r pool' m' w'. forward_loop E route request body n err pool m w = (FwdResponse r, pool', m', w') \<and> p_status r < 500"
  using assms
proof (induction n arbitrary: k err pool m w)
  case 0
  then show ?case by simp
next
  case (Suc n)
  let ?i = "unat (pool_next pool) mod length (pool_endpoints pool)"
  let ?p = "pool\<lparr>pool_next := pool_next pool + 1\<rparr>"
  have "unat (pool_next pool) < 2 ^ 64" using Suc.prems(4) by simp
  from pick_all_healthy [OF Suc.prems(1-3) this] have pk: "pick pool = (Some ?i, ?p)" by (simp add: pick_def Let_def)
  let ?u = "cloneUpstreamRequest (en_parsers E) request (ep_url (pool_endpoints pool ! ?i)) (ro_config route) body (ro_trusted route)"
  obtain response e w1 where ex: "execute (en_up E) (pool_name pool, ?i) ?u w = ((response, e), w1)" by (metis prod_cases3 prod.collapse)
  show ?case
  proof (cases "\<exists>r. response = Some r \<and> e = None \<and> p_status r < 500")
    case True
    then show ?thesis using pk ex by (auto simp: Let_def)
  next
    case False
    with execute_outcomes [OF ex] obtain e' where e: "e = Some e'" by blast
    have "\<not> works (en_up E) pool ?i" using execute_works [of "en_up E" pool ?i ?u w] ex False by auto
    with Suc.prems(5) have "k \<noteq> 0" by (cases k) auto
    then obtain j where k: "k = Suc j" by (cases k) auto
    have next1: "unat (pool_next pool + 1) = unat (pool_next pool) + 1" using Suc.prems(4)
      by (simp add: unat_word_ariths)
    have n: "n \<noteq> 0" "j < n" using Suc.prems(6) k by simp_all
    have "\<exists>r pool' m' w'. forward_loop E route request body n (Some e') ?p m1 w1 = (FwdResponse r, pool', m', w') \<and> p_status r < 500" for m1
    proof (rule Suc.IH [of ?p j])
      show "works (en_up E) ?p ((unat (pool_next ?p) + j) mod length (pool_endpoints ?p))"
        using Suc.prems(5) k next1 by (simp add: works_def)
    qed (use Suc.prems next1 k n in \<open>simp_all add: pool_ok_def\<close>)
    with pk ex e n(1) show ?thesis by (cases response) (simp_all add: Let_def)
  qed
qed


definition two_hosts :: upstreamPool where
  "two_hosts = \<lparr>pool_name = ''users'',
     pool_endpoints = map (\<lambda>h. \<lparr>ep_url = \<lparr>u_scheme = ''http'', u_user = None, u_host = h,
       u_path = [], u_raw_query = [], u_fragment = []\<rparr>, ep_healthy = True\<rparr>) [''one.internal'', ''two.internal''],
     pool_next = 0\<rparr>"

definition one_host_down :: "(unit, unit) env" where
  "one_host_down = sample_env\<lparr>en_up := (en_up sample_env)\<lparr>ul_round_trip :=
     (\<lambda>q w. if u_host (q_url q) = ''one.internal'' then (Inl (UpFailed ''refused''), w) else ul_round_trip (en_up sample_env) q w)\<rparr>\<rparr>"


end
