(* ===== verification/Demo_Oidc.thy ===== *)
theory Demo_Oidc
  imports Control_Plane Tokens
begin

text \<open>
  The demonstration identity provider of \<open>cmd/demo-oidc/main.go\<close>: discovery, JWKS, the
  authorization endpoint with its login form, the token endpoint with PKCE, and the signing of
  ID tokens. Authorization codes live in a map under a mutex, so every handler is one step on
  the provider's state.

  Parameters, in \<open>demo_lib\<close>: form and basic-authentication parsing, the login page, the
  redirect URL with its query, SHA-256, the JSON encoder, the RSA signature and the mux. Times
  are nanoseconds; the calls of \<open>time.Now\<close> within one request return the same time. Random
  bytes are arguments, \<open>None\<close> being a failed \<open>rand.Read\<close>.
\<close>

section \<open>Definitions\<close>

record authorizationCode =
  ac_challenge :: string
  ac_redirect_uri :: string
  ac_scope :: string
  ac_subject :: string
  ac_expires :: int

record provider =
  pv_issuer :: string
  pv_client_id :: string
  pv_client_secret :: string
  pv_redirect_uri :: string
  pv_username :: string
  pv_password :: string
  pv_codes :: "(string \<times> authorizationCode) list"

record demo_lib =
  dm_form :: "http_request \<Rightarrow> (string \<Rightarrow> string) option"       \<comment> \<open>\<open>ParseForm\<close>, then \<open>Form.Get\<close>\<close>
  dm_basic :: "http_request \<Rightarrow> (string \<times> string) option"       \<comment> \<open>\<open>BasicAuth\<close>\<close>
  dm_page :: "(string \<times> string) list \<Rightarrow> string option \<Rightarrow> bytes"  \<comment> \<open>\<open>loginPage\<close> with its fields and error\<close>
  dm_redirect :: "string \<Rightarrow> string \<Rightarrow> string \<Rightarrow> string"        \<comment> \<open>redirect URI with \<open>code\<close> and \<open>state\<close>\<close>
  dm_sha :: "bytes \<Rightarrow> bytes"
  dm_json :: "json \<Rightarrow> bytes"
  dm_rsa :: "bytes \<Rightarrow> bytes option"                            \<comment> \<open>\<open>rsa.SignPKCS1v15\<close> of a digest\<close>
  dm_modulus :: bytes
  dm_exponent :: bytes
  dm_mux :: mux_lib

definition demo_randomToken :: "bytes option \<Rightarrow> string option" where
  "demo_randomToken data = map_option raw_url_encode data"

definition containsScope :: "string \<Rightarrow> string \<Rightarrow> bool" where
  "containsScope scopes wanted \<longleftrightarrow> list_ex (\<lambda>scope. scope = wanted) (Go_Strings.fields scopes)"

definition env_or :: "(string \<Rightarrow> string) \<Rightarrow> string \<Rightarrow> string \<Rightarrow> string" where
  "env_or getenv name fallback = (if getenv name \<noteq> [] then getenv name else fallback)"

definition newProvider :: "string \<Rightarrow> string \<Rightarrow> string \<Rightarrow> string \<Rightarrow> string \<Rightarrow> string \<Rightarrow> provider" where
  "newProvider issuer clientID clientSecret redirectURI username password =
     \<lparr>pv_issuer = trim_suffix issuer ''/'', pv_client_id = clientID, pv_client_secret = clientSecret,
      pv_redirect_uri = redirectURI, pv_username = username, pv_password = password, pv_codes = []\<rparr>"

definition demo_provider :: "(string \<Rightarrow> string) \<Rightarrow> provider" where
  "demo_provider getenv =
     (let port = env_or getenv ''OIDC_PORT'' ''25556'' in
      newProvider (env_or getenv ''OIDC_ISSUER'' (''http://oidc.localhost:'' @ port)) (env_or getenv ''OIDC_CLIENT_ID'' ''vial-gateway'')
        (env_or getenv ''OIDC_CLIENT_SECRET'' ''demo-secret'') (env_or getenv ''OIDC_REDIRECT_URI'' ''http://127.0.0.1:8081/admin/callback'')
        (env_or getenv ''OIDC_USERNAME'' ''admin@example.com'') (env_or getenv ''OIDC_PASSWORD'' ''admin''))"

text \<open>A header that is set after \<open>WriteHeader\<close> is not sent.\<close>

definition send_header :: "string \<Rightarrow> string \<Rightarrow> writer \<Rightarrow> writer" where
  "send_header k v w = (if w_code w = 0 then set_header k v w else w)"

definition demo_writeJSON :: "json \<Rightarrow> writer \<Rightarrow> writer" where
  "demo_writeJSON v w = write_chunk (Encoded v) (send_header ''Content-Type'' ''application/json'' w)"

definition oauthError :: "string \<Rightarrow> int \<Rightarrow> writer \<Rightarrow> writer" where
  "oauthError code status w = demo_writeJSON (JObj [(''error'', JStr code)]) (write_header status w)"

definition discovery :: "provider \<Rightarrow> writer \<Rightarrow> writer" where
  "discovery p w = demo_writeJSON (JObj [(''issuer'', JStr (pv_issuer p)),
     (''authorization_endpoint'', JStr (pv_issuer p @ ''/authorize'')), (''token_endpoint'', JStr (pv_issuer p @ ''/token'')),
     (''jwks_uri'', JStr (pv_issuer p @ ''/jwks'')), (''response_types_supported'', JArr [JStr ''code'']),
     (''subject_types_supported'', JArr [JStr ''public'']), (''id_token_signing_alg_values_supported'', JArr [JStr ''RS256'']),
     (''scopes_supported'', JArr (map JStr [''openid'', ''profile'', ''email'', ''gateway.admin''])),
     (''code_challenge_methods_supported'', JArr [JStr ''S256'']),
     (''token_endpoint_auth_methods_supported'', JArr (map JStr [''client_secret_basic'', ''client_secret_post'']))]) w"

definition jwks :: "demo_lib \<Rightarrow> writer \<Rightarrow> writer" where
  "jwks D w = demo_writeJSON (JObj [(''keys'', JArr [JObj [(''kty'', JStr ''RSA''), (''use'', JStr ''sig''), (''alg'', JStr ''RS256''),
     (''kid'', JStr ''demo''), (''n'', JStr (raw_url_encode (dm_modulus D))), (''e'', JStr (raw_url_encode (dm_exponent D)))]])]) w"

definition form_fields :: "string list" where
  "form_fields = [''client_id'', ''redirect_uri'', ''response_type'', ''scope'', ''state'', ''code_challenge'', ''code_challenge_method'']"

definition authorization_ok :: "provider \<Rightarrow> (string \<Rightarrow> string) \<Rightarrow> bool" where
  "authorization_ok p get \<longleftrightarrow> \<not> (get ''client_id'' \<noteq> pv_client_id p \<or> get ''redirect_uri'' \<noteq> pv_redirect_uri p \<or>
     get ''response_type'' \<noteq> ''code'' \<or> get ''code_challenge_method'' \<noteq> ''S256'' \<or> get ''code_challenge'' = [] \<or>
     \<not> containsScope (get ''scope'') ''openid'' \<or> \<not> containsScope (get ''scope'') ''gateway.admin'')"

definition authorize :: "demo_lib \<Rightarrow> int \<Rightarrow> bytes option \<Rightarrow> http_request \<Rightarrow> writer \<Rightarrow> provider \<Rightarrow> writer \<times> provider" where
  "authorize D now rnd request w p = (case dm_form D request of
      None \<Rightarrow> (http_Error ''invalid form'' 400 w, p)
    | Some get \<Rightarrow>
        (let fs = map (\<lambda>k. (k, get k)) form_fields in
         if \<not> authorization_ok p get then (http_Error ''invalid authorization request'' 400 w, p)
         else if q_method request = ''GET''
         then (write_chunk (Bytes (dm_page D fs None)) (set_header ''Content-Type'' ''text/html; charset=utf-8'' w), p)
         else if get ''username'' \<noteq> pv_username p \<or> get ''password'' \<noteq> pv_password p
         then (write_chunk (Bytes (dm_page D fs (Some ''Invalid email or password'')))
                (write_header 401 (set_header ''Content-Type'' ''text/html; charset=utf-8'' w)), p)
         else (case demo_randomToken rnd of
             None \<Rightarrow> (http_Error ''random failure'' 500 w, p)
           | Some code \<Rightarrow>
               (redirect (dm_redirect D (get ''redirect_uri'') code (get ''state'')) w,
                p\<lparr>pv_codes := AList.update code \<lparr>ac_challenge = get ''code_challenge'', ac_redirect_uri = get ''redirect_uri'',
                   ac_scope = get ''scope'', ac_subject = ''demo-admin'', ac_expires = now + 2 * 60 * second\<rparr> (pv_codes p)\<rparr>))))"

definition sign :: "demo_lib \<Rightarrow> (string \<times> json) list \<Rightarrow> string option" where
  "sign D claims =
     (let header = dm_json D (JObj [(''alg'', JStr ''RS256''), (''kid'', JStr ''demo''), (''typ'', JStr ''JWT'')]);
          unsigned = raw_url_encode header @ ''.'' @ raw_url_encode (dm_json D (JObj claims))
      in map_option (\<lambda>signature. unsigned @ ''.'' @ raw_url_encode signature) (dm_rsa D (dm_sha D unsigned)))"

definition id_claims_of :: "provider \<Rightarrow> authorizationCode \<Rightarrow> int \<Rightarrow> (string \<times> json) list" where
  "id_claims_of p code now = [(''aud'', JStr (pv_client_id p)), (''email'', JStr (pv_username p)),
     (''exp'', JNum (format_int ((now + 3600 * second) div second))), (''iat'', JNum (format_int (now div second))),
     (''iss'', JStr (pv_issuer p)), (''scope'', JStr (ac_scope code)), (''sub'', JStr (ac_subject code))]"

definition client_ok :: "demo_lib \<Rightarrow> provider \<Rightarrow> (string \<Rightarrow> string) \<Rightarrow> http_request \<Rightarrow> bool" where
  "client_ok D p get request \<longleftrightarrow>
     (case dm_basic D request of Some c \<Rightarrow> c | None \<Rightarrow> (get ''client_id'', get ''client_secret'')) = (pv_client_id p, pv_client_secret p)"

definition code_ok :: "demo_lib \<Rightarrow> int \<Rightarrow> (string \<Rightarrow> string) \<Rightarrow> authorizationCode \<Rightarrow> bool" where
  "code_ok D now get code \<longleftrightarrow> \<not> (now > ac_expires code \<or> get ''redirect_uri'' \<noteq> ac_redirect_uri code \<or>
     raw_url_encode (dm_sha D (get ''code_verifier'')) \<noteq> ac_challenge code)"

definition token :: "demo_lib \<Rightarrow> int \<Rightarrow> bytes option \<Rightarrow> http_request \<Rightarrow> writer \<Rightarrow> provider \<Rightarrow> writer \<times> provider" where
  "token D now rnd request w p = (case dm_form D request of
      None \<Rightarrow> (oauthError ''invalid_request'' 400 w, p)
    | Some get \<Rightarrow>
        if \<not> client_ok D p get request then (oauthError ''invalid_client'' 401 w, p)
        else if get ''grant_type'' \<noteq> ''authorization_code'' then (oauthError ''unsupported_grant_type'' 400 w, p)
        else
          (let found = map_of (pv_codes p) (get ''code'');
               p' = p\<lparr>pv_codes := AList.delete (get ''code'') (pv_codes p)\<rparr>
           in case found of
                None \<Rightarrow> (oauthError ''invalid_grant'' 400 w, p')
              | Some code \<Rightarrow>
                  if \<not> code_ok D now get code then (oauthError ''invalid_grant'' 400 w, p')
                  else (case sign D (id_claims_of p code now) of
                      None \<Rightarrow> (oauthError ''server_error'' 500 w, p')
                    | Some idToken \<Rightarrow> (case demo_randomToken rnd of
                          None \<Rightarrow> (oauthError ''server_error'' 500 w, p')
                        | Some accessToken \<Rightarrow>
                            (demo_writeJSON (JObj [(''access_token'', JStr accessToken), (''token_type'', JStr ''Bearer''),
                               (''expires_in'', JNum ''3600''), (''scope'', JStr (ac_scope code)), (''id_token'', JStr idToken)]) w, p')))))"

definition demo_patterns :: "string list" where
  "demo_patterns = [''GET /.well-known/openid-configuration'', ''GET /jwks'', ''GET /authorize'', ''POST /authorize'', ''POST /token'', ''GET /health'']"

definition provider_ServeHTTP :: "demo_lib \<Rightarrow> int \<Rightarrow> bytes option \<Rightarrow> http_request \<Rightarrow> provider \<Rightarrow> writer \<times> provider" where
  "provider_ServeHTTP D now rnd request p =
     (let w = set_header ''X-Content-Type-Options'' ''nosniff'' (set_header ''Cache-Control'' ''no-store'' new_writer);
          pattern = mx_match (dm_mux D) demo_patterns request
      in if pattern = Some ''GET /.well-known/openid-configuration'' then (discovery p w, p)
         else if pattern = Some ''GET /jwks'' then (jwks D w, p)
         else if pattern = Some ''GET /authorize'' \<or> pattern = Some ''POST /authorize'' then authorize D now rnd request w p
         else if pattern = Some ''POST /token'' then token D now rnd request w p
         else if pattern = Some ''GET /health'' then (write_header 204 w, p)
         else (mx_default (dm_mux D) request w, p))"

section \<open>Facts\<close>

lemma demo_writer_codes [simp]:
  "w_code w = 0 \<Longrightarrow> w_code (demo_writeJSON v w) = 200"
  "w_code w = 0 \<Longrightarrow> s \<noteq> 0 \<Longrightarrow> w_code (oauthError c s w) = s"
  by (auto simp: demo_writeJSON_def oauthError_def send_header_def set_header_def write_header_def write_chunk_def Let_def)

text \<open>The errors of the token endpoint do not carry their JSON content type: it is set too late.\<close>

lemma oauth_errors_lose_their_content_type:
  "s \<noteq> 0 \<Longrightarrow> header_get (w_header (oauthError c s new_writer)) ''Content-Type'' = []"
  by (simp add: oauthError_def demo_writeJSON_def send_header_def write_header_def write_chunk_def Let_def new_writer_def header_get_def)

text \<open>What the endpoints do to the codes.\<close>

lemma authorize_codes:
  assumes "authorize D now rnd request w p = (wr, p')"
  shows "p' = p \<or> (\<exists>code get. demo_randomToken rnd = Some code \<and> dm_form D request = Some get \<and>
     get ''username'' = pv_username p \<and> get ''password'' = pv_password p \<and> authorization_ok p get \<and>
     wr = redirect (dm_redirect D (get ''redirect_uri'') code (get ''state'')) w \<and>
     p' = p\<lparr>pv_codes := AList.update code \<lparr>ac_challenge = get ''code_challenge'', ac_redirect_uri = get ''redirect_uri'',
        ac_scope = get ''scope'', ac_subject = ''demo-admin'', ac_expires = now + 2 * 60 * second\<rparr> (pv_codes p)\<rparr>)"
  using assms unfolding authorize_def Let_def by (auto split: option.splits if_splits)

lemma authorize_keys:
  assumes "authorize D now rnd request w p = (wr, p')"
  shows "fst ` set (pv_codes p') \<subseteq> fst ` set (pv_codes p) \<union> {code. demo_randomToken rnd = Some code}"
proof -
  from authorize_codes [OF assms] have "p' = p \<or> (\<exists>code v. demo_randomToken rnd = Some code \<and> p' = p\<lparr>pv_codes := AList.update code v (pv_codes p)\<rparr>)"
    by blast
  then show ?thesis by (elim disjE exE conjE) (simp_all add: dom_update)
qed

definition redeemed_code :: "demo_lib \<Rightarrow> http_request \<Rightarrow> string" where
  "redeemed_code D request = (case dm_form D request of Some get \<Rightarrow> get ''code'' | None \<Rightarrow> [])"

lemma token_codes:
  assumes "token D now rnd request w p = (wr, p')" and "w_code w = 0"
  shows "p' = p \<and> w_code wr \<noteq> 200 \<or> p' = p\<lparr>pv_codes := AList.delete (redeemed_code D request) (pv_codes p)\<rparr>"
    and "w_code wr = 200 \<Longrightarrow> redeemed_code D request \<in> fst ` set (pv_codes p)"
proof -
  show "p' = p \<and> w_code wr \<noteq> 200 \<or> p' = p\<lparr>pv_codes := AList.delete (redeemed_code D request) (pv_codes p)\<rparr>"
    using assms unfolding token_def Let_def by (auto simp: redeemed_code_def split: option.splits if_splits)
  show "redeemed_code D request \<in> fst ` set (pv_codes p)" if "w_code wr = 200"
  proof -
    from assms that have "map_of (pv_codes p) (redeemed_code D request) \<noteq> None"
      unfolding token_def Let_def by (auto simp: redeemed_code_def split: option.splits if_splits)
    then show ?thesis by (simp add: map_of_eq_None_iff)
  qed
qed

section \<open>The provider as a system\<close>

text \<open>
  Any sequence of requests, at any times. Two ghosts remember which codes were ever in the map
  and for which codes a token was issued. Random codes are fresh.
\<close>

record demo_state =
  ds_provider :: provider
  ds_minted :: "string set"
  ds_redeemed :: "string list"

definition is_token_request :: "demo_lib \<Rightarrow> http_request \<Rightarrow> bool" where
  "is_token_request D request \<longleftrightarrow> mx_match (dm_mux D) demo_patterns request = Some ''POST /token''"

inductive demo_step :: "demo_lib \<Rightarrow> demo_state \<Rightarrow> demo_state \<Rightarrow> bool" for D where
  serve: "provider_ServeHTTP D now rnd request (ds_provider s) = (w, p') \<Longrightarrow>
    (\<And>code. demo_randomToken rnd = Some code \<Longrightarrow> code \<notin> ds_minted s) \<Longrightarrow>
    demo_step D s \<lparr>ds_provider = p', ds_minted = ds_minted s \<union> fst ` set (pv_codes p'),
      ds_redeemed = (if is_token_request D request \<and> w_code w = 200 then [redeemed_code D request] else []) @ ds_redeemed s\<rparr>"

definition demo_start :: "demo_state \<Rightarrow> bool" where
  "demo_start s \<longleftrightarrow> (\<exists>a b c d e f. s = \<lparr>ds_provider = newProvider a b c d e f, ds_minted = {}, ds_redeemed = []\<rparr>)"

definition demo_inv :: "demo_state \<Rightarrow> bool" where
  "demo_inv s \<longleftrightarrow> distinct (ds_redeemed s) \<and> fst ` set (pv_codes (ds_provider s)) \<subseteq> ds_minted s \<and>
     set (ds_redeemed s) \<subseteq> ds_minted s - fst ` set (pv_codes (ds_provider s))"

lemma serve_cases:
  assumes "provider_ServeHTTP D now rnd request p = (w, p')"
  shows "p' = p \<and> \<not> is_token_request D request \<or>
    (\<exists>w0. authorize D now rnd request w0 p = (w, p')) \<and> \<not> is_token_request D request \<or>
    (\<exists>w0. w_code w0 = 0 \<and> token D now rnd request w0 p = (w, p')) \<and> is_token_request D request"
proof -
  obtain w0 where w0: "w0 = set_header ''X-Content-Type-Options'' ''nosniff'' (set_header ''Cache-Control'' ''no-store'' new_writer)" by blast
  then have "w_code w0 = 0" by (simp add: set_header_def)
  with assms show ?thesis
    unfolding provider_ServeHTTP_def is_token_request_def Let_def w0 [symmetric] by (auto split: if_splits)
qed

lemma demo_inv_step:
  assumes "demo_inv s" and "demo_step D s t"
  shows "demo_inv t"
  using assms(2)
proof (cases rule: demo_step.cases)
  case (serve now rnd request w p')
  let ?p = "ds_provider s" and ?c = "redeemed_code D request"
  from serve_cases [OF serve(2)] consider (same) "p' = ?p" "\<not> is_token_request D request"
    | (auth) w0 where "authorize D now rnd request w0 ?p = (w, p')" "\<not> is_token_request D request"
    | (tok) w0 where "w_code w0 = 0" "token D now rnd request w0 ?p = (w, p')" "is_token_request D request"
    by blast
  then show ?thesis
  proof cases
    case same
    with assms(1) serve(1) show ?thesis by (auto simp: demo_inv_def)
  next
    case auth
    have "x \<notin> fst ` set (pv_codes p')" if "x \<in> set (ds_redeemed s)" for x
    proof -
      from assms(1) that have x: "x \<in> ds_minted s" "x \<notin> fst ` set (pv_codes ?p)" unfolding demo_inv_def by blast+
      from x(1) serve(3) have "demo_randomToken rnd \<noteq> Some x" by metis
      with x(2) authorize_keys [OF auth(1)] show ?thesis by blast
    qed
    then have "set (ds_redeemed s) \<inter> fst ` set (pv_codes p') = {}" by blast
    with assms(1) auth(2) show ?thesis unfolding serve(1) demo_inv_def by auto
  next
    case tok
    have keys: "fst ` set (AList.delete ?c (pv_codes ?p)) = fst ` set (pv_codes ?p) - {?c}" by (metis AList.delete_keys set_map set_removeAll)
    show ?thesis
    proof (cases "w_code w = 200")
      case True
      with token_codes [OF tok(2,1)] have "?c \<in> fst ` set (pv_codes ?p)" "fst ` set (pv_codes p') = fst ` set (pv_codes ?p) - {?c}"
        using keys by auto
      with assms(1) True tok(3) show ?thesis unfolding serve(1) demo_inv_def by auto
    next
      case False
      from token_codes(1) [OF tok(2,1)] have "p' = ?p \<or> p' = ?p\<lparr>pv_codes := AList.delete ?c (pv_codes ?p)\<rparr>" by blast
      then have "fst ` set (pv_codes p') \<subseteq> fst ` set (pv_codes ?p)" by (elim disjE) (simp_all add: keys)
      with assms(1) False show ?thesis unfolding serve(1) demo_inv_def by auto
    qed
  qed
qed

lemma demo_inv_start: "demo_start s \<Longrightarrow> demo_inv s"
  by (auto simp: demo_start_def demo_inv_def newProvider_def)

interpretation demo: invariant_system demo_start "demo_step D" demo_inv for D
  by unfold_locales (fact demo_inv_start, fact demo_inv_step)

text \<open>
  C39: An authorization code of the demonstration provider is good for one token: in every state
  that the provider reaches by any requests, with fresh random codes, no code has been redeemed
  twice, and every redeemed code was once handed out and is no longer stored.
\<close>

theorem demo_codes_are_single_use:
  assumes "reach demo_start (demo_step D) s"
  shows "distinct (ds_redeemed s) \<and> set (ds_redeemed s) \<subseteq> ds_minted s - fst ` set (pv_codes (ds_provider s))"
  using demo.reach_inv [OF assms] by (simp add: demo_inv_def)

text \<open>
  C40: PKCE round trip at the demonstration provider. When \<open>authorize\<close> answers a posted form
  with a redirect, the form carried the configured client, redirect URI, user name and password;
  and the code it hands out is redeemed by \<open>token\<close> for an authenticated client with the same
  redirect URI exactly within two minutes and with a verifier whose SHA-256 digest is the
  challenge. Any attempt of an authenticated client removes the code, so a second one is refused.
\<close>

theorem demo_pkce_round_trip:
  assumes auth: "authorize D t rnd request w p = (wr, p1)" "w_code w = 0" "w_code wr = 302"
    and form: "dm_form D request = Some get" "demo_randomToken rnd = Some code"
    and form': "dm_form D request' = Some get'" "client_ok D p get' request'" "get' ''grant_type'' = ''authorization_code''"
      "get' ''code'' = code" "get' ''redirect_uri'' = pv_redirect_uri p"
    and lib: "\<And>digest. dm_rsa D digest \<noteq> None" "w_code w' = 0"
  shows "get ''username'' = pv_username p \<and> get ''password'' = pv_password p \<and> get ''client_id'' = pv_client_id p \<and>
    (w_code (fst (token D now (Some r') request' w' p1)) = 200 \<longleftrightarrow>
       now \<le> t + 120 * second \<and> raw_url_encode (dm_sha D (get' ''code_verifier'')) = get ''code_challenge'') \<and>
    w_code (fst (token D now' rnd' request' w' (snd (token D now (Some r') request' w' p1)))) = 400"
proof -
  let ?code = "\<lparr>ac_challenge = get ''code_challenge'', ac_redirect_uri = get ''redirect_uri'',
        ac_scope = get ''scope'', ac_subject = ''demo-admin'', ac_expires = t + 2 * 60 * second\<rparr>"
  have p1: "p1 = p\<lparr>pv_codes := AList.update code ?code (pv_codes p)\<rparr>"
    and cred: "get ''username'' = pv_username p" "get ''password'' = pv_password p" and ok: "authorization_ok p get"
    using auth form unfolding authorize_def Let_def
    by (auto simp: write_header_def write_chunk_def set_header_def Let_def split: if_splits)
  have client: "client_ok D p1 get' request'" "client_ok D (p1\<lparr>pv_codes := cs\<rparr>) get' request'" for cs
    using form'(2) by (simp_all add: client_ok_def p1)
  have found: "map_of (pv_codes p1) code = Some ?code" by (simp add: p1 update_conv')
  obtain f where signs: "\<And>cl. sign D cl = Some (f cl)"
  proof
    have "sign D cl \<noteq> None" for cl unfolding sign_def Let_def by (simp del: not_None_eq add: lib(1))
    then show "sign D cl = Some (the (sign D cl))" for cl by simp
  qed
  have uri: "get' ''redirect_uri'' = get ''redirect_uri''" using ok form'(5) by (simp add: authorization_ok_def)
  have first: "w_code (fst (token D now (Some r') request' w' p1)) = 200 \<longleftrightarrow> code_ok D now get' ?code"
    using lib(2) client(1) by (simp add: token_def form' found signs demo_randomToken_def Let_def)
  have after: "\<exists>cs. snd (token D now (Some r') request' w' p1) = p1\<lparr>pv_codes := cs\<rparr> \<and> map_of cs code = None"
    using client(1) by (simp add: token_def form' found signs demo_randomToken_def Let_def delete_conv') (auto simp: delete_conv')
  then have "w_code (fst (token D now' rnd' request' w' (snd (token D now (Some r') request' w' p1)))) = 400"
    using client(2) lib(2) by (auto simp: token_def [of D now'] form' Let_def)
  with first cred ok uri show ?thesis by (auto simp: code_ok_def authorization_ok_def)
qed

section \<open>Witnesses\<close>

definition sample_form :: "string \<Rightarrow> string" where
  "sample_form k = lookup_or [] [(''client_id'', ''vial-gateway''), (''redirect_uri'', ''http://127.0.0.1:8081/admin/callback''),
     (''response_type'', ''code''), (''scope'', ''openid gateway.admin''), (''state'', ''st''), (''code_challenge_method'', ''S256''),
     (''code_challenge'', raw_url_encode (rev ''verifier'')), (''username'', ''admin@example.com''), (''password'', ''admin''),
     (''client_secret'', ''demo-secret''), (''grant_type'', ''authorization_code''), (''code'', raw_url_encode ''rnd''),
     (''code_verifier'', ''verifier'')] k"

definition sample_demo :: demo_lib where
  "sample_demo = \<lparr>dm_form = (\<lambda>_. Some sample_form), dm_basic = (\<lambda>_. None), dm_page = (\<lambda>_ _. []),
     dm_redirect = (\<lambda>u c s. u @ c), dm_sha = rev, dm_json = (\<lambda>_. ''{}''), dm_rsa = Some, dm_modulus = [], dm_exponent = [],
     dm_mux = \<lparr>mx_conflict = (\<lambda>_ _. False), mx_match = (\<lambda>_ q. Some (q_request_uri q)), mx_default = (\<lambda>_ w. w)\<rparr>\<rparr>"

definition login_post :: http_request where
  "login_post = sample_request\<lparr>q_method := ''POST'', q_request_uri := ''POST /authorize''\<rparr>"

definition default_provider :: provider where
  "default_provider = demo_provider (\<lambda>_. [])"

lemma sample_demo_facts:
  "w_code (fst (authorize sample_demo 0 (Some ''rnd'') login_post new_writer default_provider)) = 302"
  "client_ok sample_demo default_provider sample_form login_post"
  "sample_form ''grant_type'' = ''authorization_code''" "sample_form ''code'' = raw_url_encode ''rnd''"
  "sample_form ''redirect_uri'' = pv_redirect_uri default_provider"
  "raw_url_encode (dm_sha sample_demo (sample_form ''code_verifier'')) = sample_form ''code_challenge''"
  by code_simp+

theorem demo_pkce_round_trip_witness:
  "w_code (fst (token sample_demo 1 (Some ''x'') login_post new_writer
     (snd (authorize sample_demo 0 (Some ''rnd'') login_post new_writer default_provider)))) = 200"
proof -
  obtain wr p1 where a: "authorize sample_demo 0 (Some ''rnd'') login_post new_writer default_provider = (wr, p1)" by (metis surj_pair)
  have f: "dm_form sample_demo login_post = Some sample_form" "demo_randomToken (Some ''rnd'') = Some (raw_url_encode ''rnd'')"
    "\<And>digest. dm_rsa sample_demo digest \<noteq> None" by (simp_all add: sample_demo_def demo_randomToken_def)
  have c: "w_code wr = 302" using sample_demo_facts(1) a by simp
  from demo_pkce_round_trip [OF a new_writer_code c f(1,2) f(1) sample_demo_facts(2-5) f(3) new_writer_code, of 1 "''x''"]
    sample_demo_facts(6) a show ?thesis by simp
qed

theorem demo_codes_are_single_use_witness:
  "\<exists>s. reach demo_start (demo_step sample_demo) s \<and> distinct (ds_redeemed s) \<and> pv_codes (ds_provider s) \<noteq> []"
proof -
  let ?s = "\<lparr>ds_provider = default_provider, ds_minted = {}, ds_redeemed = []\<rparr>"
  obtain w p' where r: "provider_ServeHTTP sample_demo 0 (Some ''rnd'') login_post default_provider = (w, p')" by (metis surj_pair)
  have "pv_codes (snd (provider_ServeHTTP sample_demo 0 (Some ''rnd'') login_post default_provider)) \<noteq> []" by code_simp
  then have p': "pv_codes p' \<noteq> []" using r by simp
  have "demo_start ?s" unfolding demo_start_def default_provider_def demo_provider_def Let_def by blast
  then have s: "reach demo_start (demo_step sample_demo) ?s" by (rule reach_start)
  have "\<exists>t. demo_step sample_demo ?s t \<and> ds_provider t = p'"
    using demo_step.serve [of sample_demo 0 "Some ''rnd''" login_post ?s w p'] r by fastforce
  then obtain t where t: "demo_step sample_demo ?s t" "ds_provider t = p'" by blast
  from s t(1) have "reach demo_start (demo_step sample_demo) t" by (rule reach_step)
  from demo_codes_are_single_use [OF this] this t(2) p' show ?thesis by blast
qed

end
