(* ===== verification/Spec2Isabelle.thy ===== *)
theory Spec2Isabelle
  imports Config_Theorems Durations Admin_Api Dynamic_DNS Service Failover Demo_Oidc
begin

text \<open>
  \<^bold>\<open>A verification library of vial-gateway\<close>, a configuration-driven API gateway in Go.

  \<^bold>\<open>The program.\<close> A gateway process (\<open>src/cmd/gateway\<close>) reads a JSON configuration, validates it
  (\<open>config.go\<close>), compiles it to a snapshot of routes and swaps the snapshot in atomically
  (\<open>routerManager\<close> in \<open>app.go\<close>). A request is matched to a route, which checks size limits, the
  concurrency limit, authentication and the rate limit, may answer from the response cache, and
  otherwise forwards to a healthy upstream with retries behind a circuit breaker and transforms
  the response. When enabled, a control plane (\<open>control.go\<close>, \<open>admin_ui.go\<close>) keeps configuration
  versions, API keys, sessions and an audit stream in Redis; every process follows the active
  pointer by notification and polling. \<open>main.go\<close> starts the process, reloads it on SIGHUP and
  shuts it down; \<open>dynamic_dns.go\<close> keeps a DNS record up to date. \<open>cmd/demo-oidc\<close> and \<open>cmd/backend\<close>
  are the OpenID provider and the upstream of the demonstration stack.

  \<^bold>\<open>Foundations.\<close>
  \<^item> \<open>Prelude\<close>: types, error sequencing, and the interfaces that several components share, as
    locales: \<open>invariant_system\<close> (a transition system and a predicate its steps keep) and \<open>last_good\<close>
    (a component that keeps its last good state, itself an invariant system of its attempts by
    \<open>sublocale\<close>), and \<open>simulation\<close> with its extension \<open>component_invariant\<close> (a system whose runs drive a
    component, so that the invariants of the component hold in it). All are interpreted on the model
    in the theories of the components that provide them.
  \<^item> \<open>Go_Strings\<close>, \<open>Go_Http\<close>: the parts of the Go library the program uses: string functions, number
    formats, hexadecimal text, errors; header maps (with the locale \<open>header_ops\<close>), URLs, body
    readers, requests, responses and response writers, with \<open>writeFault\<close>, \<open>writeJSON\<close>,
    \<open>statusWriter\<close>.

  \<^bold>\<open>Configuration\<close> (\<open>config.go\<close>).
  \<^item> \<open>Gateway_Config\<close>: every struct as a record and every \<open>Validate\<close> method check by check, with a
    declarative specification \<open>valid_gateway\<close>; \<open>Config_Theorems\<close>: \<open>Validate\<close> accepts exactly what the
    specification describes, accepted routes never conflict and are well formed after
    normalisation, a production admin plane has OIDC and HTTPS; a method \<open>"*"\<close> is accepted and then
    served literally. \<open>Sample_Config\<close>: concrete configurations for the witnesses.
  \<^item> \<open>Durations\<close>: the JSON form of durations with \<open>Duration.String\<close> and \<open>ParseDuration\<close>; every 64-bit
    duration survives the round trip.

  \<^bold>\<open>Data plane\<close> (\<open>app.go\<close>).
  \<^item> \<open>Paths\<close>: path rewriting and redirects, with their round trip. \<open>Upstream_Pool\<close>: round-robin \<open>pick\<close>
    over a \<open>uint64\<close> counter and the health checkers as interleaved goroutines. \<open>Token_Bucket\<close>: the
    Lua rate limiter refines an ideal bucket; a bound on admitted requests. \<open>Body_Transform\<close>: bounded
    bodies, JSON and header transformations. \<open>Access_Control\<close>: API keys, bearer tokens, client
    addresses and forwarding headers. \<open>Response_Cache\<close>: keys that separate requests, what is stored,
    and the round trip of a stored response.
  \<^item> \<open>Proxy_Route\<close>: the whole route handler; refused requests never reach an upstream, attempts are
    bounded, the handler always answers, the upstream request is sanitised, the concurrency limit
    holds under every interleaving. \<open>Failover\<close>: with an attempt per upstream, one working upstream is
    enough.
  \<^item> \<open>Router_Manager\<close>: \<open>compile\<close>, \<open>Activate\<close>, \<open>readiness\<close>, \<open>ServeHTTP\<close>, CORS; \<open>last_good\<close> is
    interpreted on \<open>Activate\<close>, and exactly the active snapshot has a live context.

  \<^bold>\<open>Control plane\<close> (\<open>control.go\<close>, \<open>admin_ui.go\<close>).
  \<^item> \<open>Redis_Programs\<close>: a handler is a tree of Redis commands and updates of the process state; a
    system is any number of such programs interleaved command by command on one server, where
    commands may fail or lose their reply. The server is a parameter with its documented behaviour
    as the hypothesis \<open>config_server\<close>.
  \<^item> \<open>Control_Plane\<close>: authentication, CSRF protection, the configuration store, API keys, cache
    invalidation, \<open>Start\<close>, \<open>load\<close> and \<open>watch\<close>; \<open>Control_Theorems\<close>: activation is all or nothing, the
    watch converges to the store, the life cycle of an API key. \<open>Tokens\<close>: base64url tokens.
    \<open>Admin_Session\<close>: the OIDC login and its guarantees. \<open>Admin_Read\<close>: the handlers of
    \<open>admin_ui.go\<close>; following the cursor of the audit pages ends and yields every event once.
  \<^item> \<open>Admin_Api\<close>: the route table that puts these handlers together; only administrators change
    anything, the active pointer always names a stored version, stored versions are immutable.

  \<^bold>\<open>Process and demonstration programs.\<close>
  \<^item> \<open>Lifecycle\<close> (\<open>main.go\<close>, \<open>newApp\<close>, \<open>Close\<close>): when the application can be built; a SIGHUP replaces
    configuration and certificate together or not at all (\<open>last_good\<close> again); however \<open>run\<close> ends,
    everything it opened is released. \<open>Routing\<close>: in every state of a started process the compiled
    routes implement the active configuration (\<open>component_invariant\<close>, interpreted on the process and its
    router manager). \<open>Service\<close>: the patterns that \<open>newApp\<close> registers, and a request from its arrival at the
    running process to its answer; without credentials it stops at the gateway. \<open>Dynamic_DNS\<close> (\<open>dynamic_dns.go\<close>): only public addresses are
    registered, and not repeated. \<open>Demo_Oidc\<close>: authorization codes are single use and bound to their
    PKCE challenge. \<open>Backend\<close>: the echo, and what it sees of a request that the gateway forwards.

  \<^bold>\<open>Loops and fuel.\<close> Loops over data are structural recursion; \<open>parse_units\<close> is terminating by
  the length of the text. Loops that wait (\<open>watch\<close>, the DNS worker, the signal loop) run over an
  arbitrary list of the events they receive. The SCAN loops of the control plane take a fuel
  argument, since Redis alone decides when a scan ends; the theorems hold for every amount of fuel.

  \<^bold>\<open>Parameters.\<close> Code outside the repository is a parameter: Redis, the pattern matching of
  \<open>http.ServeMux\<close>, the transport, the circuit breaker, the JWT, OIDC and OAuth libraries, SHA-256,
  the JSON codec of the configuration, \<open>url.Parse\<close> and the address parsers, random bytes and time.
  Where a theorem relies on their behaviour this is a named hypothesis, with a witness.

  \<^bold>\<open>Not modelled.\<close> The OpenTelemetry and Prometheus instrumentation beyond the counters,
  \<open>defaultTransport\<close> and the middleware of the go-vial framework only configure libraries. Command-line
  flags, logging and listeners are I/O. The browser side of the console (HTML, CSS, JavaScript) and
  the deployment files hold no logic of the gateway. Lua numbers are rationals instead of doubles.
\<close>

end
